theory Spec2Isabelle
  imports Main "HOL-Library.AList" "HOL-Library.Word"
begin

unbundle bit_operations_syntax

chapter \<open>Model\<close>

section \<open>Kubernetes objects read by the pod part of the network policy controller\<close>

text \<open>
  Only the fields of \<^verbatim>\<open>api.Pod\<close> that \<^verbatim>\<open>pod.go\<close> reads are kept:
  \<^verbatim>\<open>ObjectMeta.Name\<close>, \<^verbatim>\<open>ObjectMeta.Namespace\<close>, \<^verbatim>\<open>ObjectMeta.Labels\<close>,
  \<^verbatim>\<open>Status.Phase\<close>, \<^verbatim>\<open>Status.HostIP\<close> and \<^verbatim>\<open>Status.PodIP\<close>.
  Go strings are byte sequences, as \<^typ>\<open>string\<close> is.
\<close>

record ObjectMeta =
  Name :: string
  Namespace :: string
  Labels :: "string \<rightharpoonup> string"

record PodStatus =
  Phase :: string
  HostIP :: string
  PodIP :: string

record Pod =
  ObjectMeta :: ObjectMeta
  Status :: PodStatus

text \<open>
  \<^verbatim>\<open>networkPolicyInfo\<close> is declared elsewhere in the package; \<^verbatim>\<open>pod.go\<close> reads its
  \<^verbatim>\<open>name\<close>, its \<^verbatim>\<open>namespace\<close> and the key set of its \<^verbatim>\<open>targetPods\<close> map.
  Its fields carry the prefix \<open>policy_\<close> here because a later record cannot reuse the
  field names of \<open>podInfo\<close>.
\<close>

record podInfo =
  ip :: string
  name :: string
  namespace :: string
  labels :: "string \<rightharpoonup> string"

record networkPolicyInfo =
  policy_name :: string
  policy_namespace :: string
  targetPods :: "string \<rightharpoonup> podInfo"

text \<open>
  A Go \<^verbatim>\<open>map[string]V\<close> that the code iterates over is an association list with
  distinct keys: \<^verbatim>\<open>m[k] = v\<close> is \<^const>\<open>AList.update\<close>, which overwrites the entry of
  an existing key in place and appends a new key.
\<close>

type_synonym 'v gomap = "(string \<times> 'v) list"

text \<open>
  The controller: \<^verbatim>\<open>npc.nodeIP.String()\<close> and the objects \<^verbatim>\<open>npc.podLister.List()\<close>
  returns, in the order it returns them. \<open>fullSyncRequests\<close> counts the calls of
  \<^verbatim>\<open>RequestFullSync\<close>.
\<close>

record NetworkPolicyController =
  nodeIP :: string
  podLister :: "Pod list"
  fullSyncRequests :: nat

section \<open>Event handlers\<close>

text \<open>
  Modelled from the spec: \<^verbatim>\<open>RequestFullSync\<close> is a method of the controller defined
  outside \<^verbatim>\<open>pod.go\<close>; the spec describes it as a request for a full
  resynchronisation. The model records each request in a counter.
\<close>

definition RequestFullSync :: "NetworkPolicyController \<Rightarrow> NetworkPolicyController" where
  "RequestFullSync npc = npc\<lparr>fullSyncRequests := Suc (fullSyncRequests npc)\<rparr>"

text \<open>
  The handlers receive \<^verbatim>\<open>interface{}\<close> values. An object is a pod, a tombstone
  (\<^verbatim>\<open>cache.DeletedFinalStateUnknown\<close>) around an object, or of some other type.
  A failed type assertion \<^verbatim>\<open>obj.(*api.Pod)\<close> panics.
\<close>

datatype obj = PodObj Pod | DeletedFinalStateUnknown obj | OtherObj

datatype panic = TypeAssertionPanic

definition OnPodAdd :: "NetworkPolicyController \<Rightarrow> obj \<Rightarrow> panic + NetworkPolicyController" where
  "OnPodAdd npc ob = (case ob of PodObj pod \<Rightarrow> Inr (RequestFullSync npc) | _ \<Rightarrow> Inl TypeAssertionPanic)"

definition OnPodUpdate :: "NetworkPolicyController \<Rightarrow> obj \<Rightarrow> panic + NetworkPolicyController" where
  "OnPodUpdate npc ob = (case ob of PodObj pod \<Rightarrow> Inr (RequestFullSync npc) | _ \<Rightarrow> Inl TypeAssertionPanic)"

definition OnPodDelete :: "NetworkPolicyController \<Rightarrow> obj \<Rightarrow> panic + NetworkPolicyController" where
  "OnPodDelete npc ob =
     (case ob of
        PodObj pod \<Rightarrow> Inr (RequestFullSync npc)
      | DeletedFinalStateUnknown (PodObj pod) \<Rightarrow> Inr (RequestFullSync npc)
      | DeletedFinalStateUnknown _ \<Rightarrow> Inr npc
      | OtherObj \<Rightarrow> Inr npc)"

text \<open>The three callbacks of \<^verbatim>\<open>newPodEventHandler\<close>.\<close>

definition AddFunc :: "NetworkPolicyController \<Rightarrow> obj \<Rightarrow> panic + NetworkPolicyController" where
  "AddFunc npc ob = OnPodAdd npc ob"

definition UpdateFunc :: "NetworkPolicyController \<Rightarrow> obj \<Rightarrow> obj \<Rightarrow> panic + NetworkPolicyController" where
  "UpdateFunc npc oldObj newObj =
     (case newObj of
        PodObj newPoObj \<Rightarrow>
          (case oldObj of
             PodObj oldPoObj \<Rightarrow>
               if Phase (Status newPoObj) \<noteq> Phase (Status oldPoObj)
                  \<or> PodIP (Status newPoObj) \<noteq> PodIP (Status oldPoObj)
               then OnPodUpdate npc newObj
               else Inr npc
           | _ \<Rightarrow> Inl TypeAssertionPanic)
      | _ \<Rightarrow> Inl TypeAssertionPanic)"

definition DeleteFunc :: "NetworkPolicyController \<Rightarrow> obj \<Rightarrow> panic + NetworkPolicyController" where
  "DeleteFunc npc ob = OnPodDelete npc ob"

section \<open>Errors\<close>

text \<open>
  Go errors. \<^verbatim>\<open>*iptables.Error\<close> is the error of the executor library: it carries the
  exit status of the command and the text \<^verbatim>\<open>err.Error()\<close> returns. \<^verbatim>\<open>fmt.Errorf\<close> builds a plain error from
  a string.
\<close>

datatype iptables_Error = IptablesError (ExitStatus: int) (Error: string)

datatype error = Errorf string

section \<open>Local pods\<close>

text \<open>The body of the loop of \<^verbatim>\<open>getLocalPods\<close>, one cache object at a time.\<close>

fun getLocalPods_loop :: "string \<Rightarrow> Pod list \<Rightarrow> podInfo gomap \<Rightarrow> podInfo gomap" where
  "getLocalPods_loop nodeIP' [] localPods = localPods"
| "getLocalPods_loop nodeIP' (pod # rest) localPods =
     (if HostIP (Status pod) \<noteq> nodeIP' then getLocalPods_loop nodeIP' rest localPods
      else if length (PodIP (Status pod)) = 0 \<or> PodIP (Status pod) = '''' then
        getLocalPods_loop nodeIP' rest localPods
      else getLocalPods_loop nodeIP' rest
        (AList.update (PodIP (Status pod))
           \<lparr>ip = PodIP (Status pod),
            name = Name (ObjectMeta pod),
            namespace = Namespace (ObjectMeta pod),
            labels = Labels (ObjectMeta pod)\<rparr> localPods))"

definition getLocalPods :: "NetworkPolicyController \<Rightarrow> string \<Rightarrow> podInfo gomap \<times> error option" where
  "getLocalPods npc nodeIP' = (getLocalPods_loop nodeIP' (podLister npc) [], None)"

text \<open>The snapshot \<^verbatim>\<open>getLocalPods\<close> stores for a pod, and the test it applies.\<close>

definition snapshot :: "Pod \<Rightarrow> podInfo" where
  "snapshot pod = \<lparr>ip = PodIP (Status pod), name = Name (ObjectMeta pod),
     namespace = Namespace (ObjectMeta pod), labels = Labels (ObjectMeta pod)\<rparr>"

definition qualifies :: "string \<Rightarrow> Pod \<Rightarrow> bool" where
  "qualifies nodeIP' pod \<longleftrightarrow> HostIP (Status pod) = nodeIP' \<and> PodIP (Status pod) \<noteq> ''''"

text \<open>A mapping contains a pod when some key maps to the pod's snapshot.\<close>

definition contains_pod :: "podInfo gomap \<Rightarrow> Pod \<Rightarrow> bool" where
  "contains_pod m pod \<longleftrightarrow> snapshot pod \<in> snd ` set m"

section \<open>The packet filter and its executor\<close>

text \<open>
  The executor (\<^verbatim>\<open>github.com/coreos/go-iptables\<close>) is an external library that
  runs one \<^verbatim>\<open>iptables\<close> command per call against the packet filter of the host.
  The host is modelled in memory: \<open>tables\<close> maps a table name and a chain name to the
  rules of the chain, first rule first, and to \<open>None\<close> when there is no such chain.
  \<open>faults\<close> is the fate of the commands still to come, one entry per command:
  \<open>None\<close> lets the command run against \<open>tables\<close>, \<open>Some n\<close> makes it fail with exit
  status \<open>n\<close> and no effect (a lock that cannot be taken, a kernel that refuses the
  rule). Once the list is used up every command runs. \<open>available\<close> says whether
  \<^verbatim>\<open>iptables.New()\<close> finds the program.

  Every error of the library is an \<^verbatim>\<open>*iptables.Error\<close>, which is what the
  unchecked assertions \<^verbatim>\<open>err.(*iptables.Error)\<close> of the source take for granted.
\<close>

type_synonym rulespec = "string list"

record netfilter =
  tables :: "string \<times> string \<rightharpoonup> rulespec list"
  faults :: "int option list"
  available :: bool

text \<open>Starting a command: the next entry of \<open>faults\<close> decides whether it runs.\<close>

definition run :: "netfilter \<Rightarrow> int option \<times> netfilter" where
  "run h = (case faults h of [] \<Rightarrow> (None, h) | f # fs \<Rightarrow> (f, h\<lparr>faults := fs\<rparr>))"

text \<open>\<^verbatim>\<open>iptables -t table -N chain\<close>: exit status 1 when the chain exists.\<close>

definition NewChain :: "string \<Rightarrow> string \<Rightarrow> netfilter \<Rightarrow> iptables_Error option \<times> netfilter" where
  "NewChain table chain h =
     (case run h of
        (Some n, h1) \<Rightarrow> (Some (IptablesError n ''iptables: command failed''), h1)
      | (None, h1) \<Rightarrow>
          (case tables h1 (table, chain) of
             Some rules \<Rightarrow> (Some (IptablesError 1 ''iptables: Chain already exists.''), h1)
           | None \<Rightarrow> (None, h1\<lparr>tables := (tables h1)((table, chain) \<mapsto> [])\<rparr>)))"

text \<open>
  \<^verbatim>\<open>iptables -t table -C chain rulespec\<close>: exit status 0 when the chain holds the
  rule, 1 when it does not or when there is no such chain.
\<close>

definition Check :: "string \<Rightarrow> string \<Rightarrow> rulespec \<Rightarrow> netfilter \<Rightarrow> iptables_Error option \<times> netfilter" where
  "Check table chain rule h =
     (case run h of
        (Some n, h1) \<Rightarrow> (Some (IptablesError n ''iptables: command failed''), h1)
      | (None, h1) \<Rightarrow>
          (case tables h1 (table, chain) of
             None \<Rightarrow> (Some (IptablesError 1 ''iptables: No chain/target/match by that name.''), h1)
           | Some rules \<Rightarrow>
               if rule \<in> set rules then (None, h1)
               else (Some (IptablesError 1 ''iptables: Bad rule (does a matching rule exist in that chain?).''), h1)))"

text \<open>
  \<^verbatim>\<open>Exists\<close> of the library: runs the check; exit status 1 is the answer
  \<^verbatim>\<open>false\<close>, any other failure is an error.
\<close>

definition Exists :: "string \<Rightarrow> string \<Rightarrow> rulespec \<Rightarrow> netfilter \<Rightarrow> (bool \<times> iptables_Error option) \<times> netfilter" where
  "Exists table chain rule h =
     (case Check table chain rule h of
        (None, h1) \<Rightarrow> ((True, None), h1)
      | (Some err, h1) \<Rightarrow>
          if ExitStatus err = 1 then ((False, None), h1) else ((False, Some err), h1))"

text \<open>
  \<^verbatim>\<open>iptables -t table -I chain pos rulespec\<close>: the rule becomes the rule number
  \<open>pos\<close> of the chain (counted from 1); exit status 1 when there is no such chain or
  the position is beyond the end.
\<close>

definition Insert :: "string \<Rightarrow> string \<Rightarrow> nat \<Rightarrow> rulespec \<Rightarrow> netfilter \<Rightarrow> iptables_Error option \<times> netfilter" where
  "Insert table chain pos rule h =
     (case run h of
        (Some n, h1) \<Rightarrow> (Some (IptablesError n ''iptables: command failed''), h1)
      | (None, h1) \<Rightarrow>
          (case tables h1 (table, chain) of
             None \<Rightarrow> (Some (IptablesError 1 ''iptables: No chain/target/match by that name.''), h1)
           | Some rules \<Rightarrow>
               if pos < 1 \<or> length rules + 1 < pos
               then (Some (IptablesError 1 ''iptables: Index of insertion too big.''), h1)
               else (None, h1\<lparr>tables := (tables h1)((table, chain) \<mapsto>
                       take (pos - 1) rules @ rule # drop (pos - 1) rules)\<rparr>)))"

text \<open>\<^verbatim>\<open>iptables -t table -A chain rulespec\<close>: the rule becomes the last rule.\<close>

definition Append :: "string \<Rightarrow> string \<Rightarrow> rulespec \<Rightarrow> netfilter \<Rightarrow> iptables_Error option \<times> netfilter" where
  "Append table chain rule h =
     (case run h of
        (Some n, h1) \<Rightarrow> (Some (IptablesError n ''iptables: command failed''), h1)
      | (None, h1) \<Rightarrow>
          (case tables h1 (table, chain) of
             None \<Rightarrow> (Some (IptablesError 1 ''iptables: No chain/target/match by that name.''), h1)
           | Some rules \<Rightarrow> (None, h1\<lparr>tables := (tables h1)((table, chain) \<mapsto> rules @ [rule])\<rparr>)))"

text \<open>
  \<^verbatim>\<open>AppendUnique\<close> of the library: \<^verbatim>\<open>Exists\<close> first, \<^verbatim>\<open>Append\<close> only when
  the rule is not there.
\<close>

definition AppendUnique :: "string \<Rightarrow> string \<Rightarrow> rulespec \<Rightarrow> netfilter \<Rightarrow> iptables_Error option \<times> netfilter" where
  "AppendUnique table chain rule h =
     (case Exists table chain rule h of
        ((exists, Some err), h1) \<Rightarrow> (Some err, h1)
      | ((exists, None), h1) \<Rightarrow>
          if \<not> exists then Append table chain rule h1 else (None, h1))"

text \<open>\<^verbatim>\<open>fmt.Errorf("Failed to run iptables command: %s", err.Error())\<close>\<close>

definition failed_to_run :: "iptables_Error \<Rightarrow> error" where
  "failed_to_run err = Errorf (''Failed to run iptables command: '' @ Error err)"

section \<open>Package-level names used by \<^verbatim>\<open>pod.go\<close>\<close>

text \<open>
  The chain-name constants and \<^verbatim>\<open>networkPolicyChainName\<close> are declared in another
  file of the package. They are parameters of the model.
\<close>

record netpol_package =
  kubePodFirewallChainPrefix :: string
  kubeInputChainName :: string
  kubeForwardChainName :: string
  kubeOutputChainName :: string
  kubeIngressNetpolChain :: string
  kubeEgressNetpolChain :: string
  networkPolicyChainName :: "string \<Rightarrow> string \<Rightarrow> string \<Rightarrow> string"

text \<open>
  The condition \<^verbatim>\<open>err != nil && err.(*iptables.Error).ExitStatus() != 1\<close>: the
  error when the condition holds.
\<close>

definition not_exit_status_1 :: "iptables_Error option \<Rightarrow> iptables_Error option" where
  "not_exit_status_1 err =
     (case err of None \<Rightarrow> None | Some e \<Rightarrow> if ExitStatus e \<noteq> 1 then Some e else None)"

section \<open>Rule builders\<close>

text \<open>The body of the loop of \<^verbatim>\<open>setupPodIngressRules\<close> for a policy that targets the pod.\<close>

definition setupPodIngressRules_policy ::
  "netpol_package \<Rightarrow> string \<Rightarrow> networkPolicyInfo \<Rightarrow> string \<Rightarrow> netfilter \<Rightarrow> error option \<times> netfilter" where
  "setupPodIngressRules_policy K podFwChainName policy version h =
     (let comment = ''run through nw policy '' @ policy_name policy;
          policyChainName = networkPolicyChainName K (policy_namespace policy) (policy_name policy) version;
          args = [''-m'', ''comment'', ''--comment'', comment, ''-j'', policyChainName]
      in case Exists ''filter'' podFwChainName args h of
           ((exists, Some err), h1) \<Rightarrow> (Some (failed_to_run err), h1)
         | ((exists, None), h1) \<Rightarrow>
             if \<not> exists then
               (case Insert ''filter'' podFwChainName 1 args h1 of
                  (err, h2) \<Rightarrow>
                    (case not_exit_status_1 err of
                       Some e \<Rightarrow> (Some (failed_to_run e), h2)
                     | None \<Rightarrow> (None, h2)))
             else (None, h1))"

fun setupPodIngressRules_loop ::
  "netpol_package \<Rightarrow> podInfo \<Rightarrow> string \<Rightarrow> networkPolicyInfo list \<Rightarrow> string \<Rightarrow> bool \<Rightarrow> netfilter
     \<Rightarrow> (error option \<times> bool) \<times> netfilter" where
  "setupPodIngressRules_loop K pod podFwChainName [] version ingressPoliciesPresent h =
     ((None, ingressPoliciesPresent), h)"
| "setupPodIngressRules_loop K pod podFwChainName (policy # rest) version ingressPoliciesPresent h =
     (if targetPods policy (ip pod) = None
      then setupPodIngressRules_loop K pod podFwChainName rest version ingressPoliciesPresent h
      else
        (case setupPodIngressRules_policy K podFwChainName policy version h of
           (Some err, h1) \<Rightarrow> ((Some err, True), h1)
         | (None, h1) \<Rightarrow> setupPodIngressRules_loop K pod podFwChainName rest version True h1))"

definition setupPodIngressRules ::
  "netpol_package \<Rightarrow> podInfo \<Rightarrow> string \<Rightarrow> networkPolicyInfo list \<Rightarrow> string \<Rightarrow> netfilter
     \<Rightarrow> error option \<times> netfilter" where
  "setupPodIngressRules K pod podFwChainName networkPoliciesInfo version h =
     (case setupPodIngressRules_loop K pod podFwChainName networkPoliciesInfo version False h of
        ((Some err, ingressPoliciesPresent), h1) \<Rightarrow> (Some err, h1)
      | ((None, ingressPoliciesPresent), h1) \<Rightarrow>
     (case
        (if \<not> ingressPoliciesPresent then
           (let comment = ''run through default ingress policy  chain'';
                args = [''-d'', ip pod, ''-m'', ''comment'', ''--comment'', comment, ''-j'', kubeIngressNetpolChain K]
            in case Exists ''filter'' podFwChainName args h1 of
                 ((exists, Some err), h2) \<Rightarrow> (Some (failed_to_run err), h2)
               | ((exists, None), h2) \<Rightarrow>
                   if \<not> exists then
                     (case Insert ''filter'' podFwChainName 1 args h2 of
                        (err, h3) \<Rightarrow>
                          (case not_exit_status_1 err of
                             Some e \<Rightarrow> (Some (failed_to_run e), h3)
                           | None \<Rightarrow> (None, h3)))
                   else (None, h2))
         else (None, h1)) of
        (Some err, h2) \<Rightarrow> (Some err, h2)
      | (None, h2) \<Rightarrow>
     (let comment = ''rule to permit the traffic traffic to pods when source is the pod's local node'';
          args = [''-m'', ''comment'', ''--comment'', comment, ''-m'', ''addrtype'', ''--src-type'', ''LOCAL'',
                  ''-d'', ip pod, ''-j'', ''ACCEPT'']
      in case Exists ''filter'' podFwChainName args h2 of
        ((exists, Some err), h3) \<Rightarrow> (Some (failed_to_run err), h3)
      | ((exists, None), h3) \<Rightarrow>
     (case (if \<not> exists then Insert ''filter'' podFwChainName 1 args h3 else (None, h3)) of
        (Some err, h4) \<Rightarrow> (Some (failed_to_run err), h4)
      | (None, h4) \<Rightarrow>
     (let comment = ''rule for stateful firewall for pod'';
          args = [''-m'', ''comment'', ''--comment'', comment, ''-m'', ''conntrack'', ''--ctstate'',
                  ''RELATED,ESTABLISHED'', ''-j'', ''ACCEPT'']
      in case Exists ''filter'' podFwChainName args h4 of
        ((exists, Some err), h5) \<Rightarrow> (Some (failed_to_run err), h5)
      | ((exists, None), h5) \<Rightarrow>
     (case (if \<not> exists then Insert ''filter'' podFwChainName 1 args h5 else (None, h5)) of
        (Some err, h6) \<Rightarrow> (Some (failed_to_run err), h6)
      | (None, h6) \<Rightarrow> (None, h6)))))))"

text \<open>The same for \<^verbatim>\<open>setupPodEgressRules\<close>.\<close>

definition setupPodEgressRules_policy ::
  "netpol_package \<Rightarrow> string \<Rightarrow> networkPolicyInfo \<Rightarrow> string \<Rightarrow> netfilter \<Rightarrow> error option \<times> netfilter" where
  "setupPodEgressRules_policy K podFwChainName policy version h =
     (let comment = ''run through nw policy '' @ policy_name policy;
          policyChainName = networkPolicyChainName K (policy_namespace policy) (policy_name policy) version;
          args = [''-m'', ''comment'', ''--comment'', comment, ''-j'', policyChainName]
      in case Exists ''filter'' podFwChainName args h of
           ((exists, Some err), h1) \<Rightarrow> (Some (failed_to_run err), h1)
         | ((exists, None), h1) \<Rightarrow>
             if \<not> exists then
               (case Insert ''filter'' podFwChainName 1 args h1 of
                  (err, h2) \<Rightarrow>
                    (case not_exit_status_1 err of
                       Some e \<Rightarrow> (Some (failed_to_run e), h2)
                     | None \<Rightarrow> (None, h2)))
             else (None, h1))"

fun setupPodEgressRules_loop ::
  "netpol_package \<Rightarrow> podInfo \<Rightarrow> string \<Rightarrow> networkPolicyInfo list \<Rightarrow> string \<Rightarrow> bool \<Rightarrow> netfilter
     \<Rightarrow> (error option \<times> bool) \<times> netfilter" where
  "setupPodEgressRules_loop K pod podFwChainName [] version egressPoliciesPresent h =
     ((None, egressPoliciesPresent), h)"
| "setupPodEgressRules_loop K pod podFwChainName (policy # rest) version egressPoliciesPresent h =
     (if targetPods policy (ip pod) = None
      then setupPodEgressRules_loop K pod podFwChainName rest version egressPoliciesPresent h
      else
        (case setupPodEgressRules_policy K podFwChainName policy version h of
           (Some err, h1) \<Rightarrow> ((Some err, True), h1)
         | (None, h1) \<Rightarrow> setupPodEgressRules_loop K pod podFwChainName rest version True h1))"

definition setupPodEgressRules ::
  "netpol_package \<Rightarrow> podInfo \<Rightarrow> string \<Rightarrow> networkPolicyInfo list \<Rightarrow> string \<Rightarrow> netfilter
     \<Rightarrow> error option \<times> netfilter" where
  "setupPodEgressRules K pod podFwChainName networkPoliciesInfo version h =
     (case setupPodEgressRules_loop K pod podFwChainName networkPoliciesInfo version False h of
        ((Some err, egressPoliciesPresent), h1) \<Rightarrow> (Some err, h1)
      | ((None, egressPoliciesPresent), h1) \<Rightarrow>
     (case
        (if \<not> egressPoliciesPresent then
           (let comment = ''run through default egress policy  chain'';
                args = [''-s'', ip pod, ''-m'', ''comment'', ''--comment'', comment, ''-j'', kubeEgressNetpolChain K]
            in case Exists ''filter'' podFwChainName args h1 of
                 ((exists, Some err), h2) \<Rightarrow> (Some (failed_to_run err), h2)
               | ((exists, None), h2) \<Rightarrow>
                   if \<not> exists then
                     (case Insert ''filter'' podFwChainName 1 args h2 of
                        (err, h3) \<Rightarrow>
                          (case not_exit_status_1 err of
                             Some e \<Rightarrow> (Some (failed_to_run e), h3)
                           | None \<Rightarrow> (None, h3)))
                   else (None, h2))
         else (None, h1)) of
        (Some err, h2) \<Rightarrow> (Some err, h2)
      | (None, h2) \<Rightarrow>
     (let comment = ''rule for stateful firewall for pod'';
          args = [''-m'', ''comment'', ''--comment'', comment, ''-m'', ''conntrack'', ''--ctstate'',
                  ''RELATED,ESTABLISHED'', ''-j'', ''ACCEPT'']
      in case Exists ''filter'' podFwChainName args h2 of
        ((exists, Some err), h3) \<Rightarrow> (Some (failed_to_run err), h3)
      | ((exists, None), h3) \<Rightarrow>
     (case (if \<not> exists then Insert ''filter'' podFwChainName 1 args h3 else (None, h3)) of
        (Some err, h4) \<Rightarrow> (Some (failed_to_run err), h4)
      | (None, h4) \<Rightarrow> (None, h4)))))"

section \<open>Traffic interception\<close>

definition interceptPodInboundTraffic ::
  "netpol_package \<Rightarrow> podInfo \<Rightarrow> string \<Rightarrow> netfilter \<Rightarrow> error option \<times> netfilter" where
  "interceptPodInboundTraffic K pod podFwChainName h =
     (let comment = ''rule to jump traffic destined to POD name:'' @ name pod @ '' namespace: '' @ namespace pod
                      @ '' to chain '' @ podFwChainName;
          args = [''-m'', ''comment'', ''--comment'', comment, ''-d'', ip pod, ''-j'', podFwChainName]
      in case Exists ''filter'' (kubeForwardChainName K) args h of
        ((exists, Some err), h1) \<Rightarrow> (Some (failed_to_run err), h1)
      | ((exists, None), h1) \<Rightarrow>
     (case (if \<not> exists then Insert ''filter'' (kubeForwardChainName K) 1 args h1 else (None, h1)) of
        (Some err, h2) \<Rightarrow> (Some (failed_to_run err), h2)
      | (None, h2) \<Rightarrow>
     (case Exists ''filter'' (kubeOutputChainName K) args h2 of
        ((exists, Some err), h3) \<Rightarrow> (Some (failed_to_run err), h3)
      | ((exists, None), h3) \<Rightarrow>
     (case (if \<not> exists then Insert ''filter'' (kubeOutputChainName K) 1 args h3 else (None, h3)) of
        (Some err, h4) \<Rightarrow> (Some (failed_to_run err), h4)
      | (None, h4) \<Rightarrow>
     (let comment = ''rule to jump traffic destined to POD name:'' @ name pod @ '' namespace: '' @ namespace pod
                      @ '' to chain '' @ podFwChainName;
          args = [''-m'', ''physdev'', ''--physdev-is-bridged'',
                  ''-m'', ''comment'', ''--comment'', comment,
                  ''-d'', ip pod,
                  ''-j'', podFwChainName]
      in case Exists ''filter'' (kubeForwardChainName K) args h4 of
        ((exists, Some err), h5) \<Rightarrow> (Some (failed_to_run err), h5)
      | ((exists, None), h5) \<Rightarrow>
     (case (if \<not> exists then Insert ''filter'' (kubeForwardChainName K) 1 args h5 else (None, h5)) of
        (Some err, h6) \<Rightarrow> (Some (failed_to_run err), h6)
      | (None, h6) \<Rightarrow> (None, h6)))))))"

text \<open>The body of the loop of \<^verbatim>\<open>interceptPodOutboundTraffic\<close> over the three chains.\<close>

definition interceptPodOutboundTraffic_chain ::
  "podInfo \<Rightarrow> string \<Rightarrow> string \<Rightarrow> netfilter \<Rightarrow> error option \<times> netfilter" where
  "interceptPodOutboundTraffic_chain pod podFwChainName chain h =
     (let comment = ''rule to jump traffic from POD name:'' @ name pod @ '' namespace: '' @ namespace pod
                      @ '' to chain '' @ podFwChainName;
          args = [''-m'', ''comment'', ''--comment'', comment, ''-s'', ip pod, ''-j'', podFwChainName]
      in case Exists ''filter'' chain args h of
        ((exists, Some err), h1) \<Rightarrow> (Some (failed_to_run err), h1)
      | ((exists, None), h1) \<Rightarrow>
     (case (if \<not> exists then AppendUnique ''filter'' chain args h1 else (None, h1)) of
        (Some err, h2) \<Rightarrow> (Some (failed_to_run err), h2)
      | (None, h2) \<Rightarrow> (None, h2)))"

fun interceptPodOutboundTraffic_loop ::
  "podInfo \<Rightarrow> string \<Rightarrow> string list \<Rightarrow> netfilter \<Rightarrow> error option \<times> netfilter" where
  "interceptPodOutboundTraffic_loop pod podFwChainName [] h = (None, h)"
| "interceptPodOutboundTraffic_loop pod podFwChainName (chain # rest) h =
     (case interceptPodOutboundTraffic_chain pod podFwChainName chain h of
        (Some err, h1) \<Rightarrow> (Some err, h1)
      | (None, h1) \<Rightarrow> interceptPodOutboundTraffic_loop pod podFwChainName rest h1)"

definition interceptPodOutboundTraffic ::
  "netpol_package \<Rightarrow> podInfo \<Rightarrow> string \<Rightarrow> netfilter \<Rightarrow> error option \<times> netfilter" where
  "interceptPodOutboundTraffic K pod podFwChainName h =
     (let egressFilterChains = [kubeInputChainName K, kubeForwardChainName K, kubeOutputChainName K]
      in case interceptPodOutboundTraffic_loop pod podFwChainName egressFilterChains h of
        (Some err, h1) \<Rightarrow> (Some err, h1)
      | (None, h1) \<Rightarrow>
     (let comment = ''rule to jump traffic from POD name:'' @ name pod @ '' namespace: '' @ namespace pod
                      @ '' to chain '' @ podFwChainName;
          args = [''-m'', ''physdev'', ''--physdev-is-bridged'',
                  ''-m'', ''comment'', ''--comment'', comment,
                  ''-s'', ip pod,
                  ''-j'', podFwChainName]
      in case Exists ''filter'' (kubeForwardChainName K) args h1 of
        ((exists, Some err), h2) \<Rightarrow> (Some (failed_to_run err), h2)
      | ((exists, None), h2) \<Rightarrow>
     (case (if \<not> exists then Insert ''filter'' (kubeForwardChainName K) 1 args h2 else (None, h2)) of
        (Some err, h3) \<Rightarrow> (Some (failed_to_run err), h3)
      | (None, h3) \<Rightarrow> (None, h3))))"

section \<open>Default-drop tail\<close>

definition dropUnmarkedTrafficRules ::
  "string \<Rightarrow> string \<Rightarrow> string \<Rightarrow> netfilter \<Rightarrow> error option \<times> netfilter" where
  "dropUnmarkedTrafficRules podName podNamespace podFwChainName h =
     (let comment = ''rule to log dropped traffic POD name:'' @ podName @ '' namespace: '' @ podNamespace;
          args = [''-m'', ''comment'', ''--comment'', comment, ''-m'', ''mark'', ''!'', ''--mark'',
                  ''0x10000/0x10000'', ''-j'', ''NFLOG'', ''--nflog-group'', ''100'', ''-m'', ''limit'',
                  ''--limit'', ''10/minute'', ''--limit-burst'', ''10'']
      in case AppendUnique ''filter'' podFwChainName args h of
        (Some err, h1) \<Rightarrow> (Some (failed_to_run err), h1)
      | (None, h1) \<Rightarrow>
     (let comment = ''rule to REJECT traffic destined for POD name:'' @ podName @ '' namespace: '' @ podNamespace;
          args = [''-m'', ''comment'', ''--comment'', comment, ''-m'', ''mark'', ''!'', ''--mark'',
                  ''0x10000/0x10000'', ''-j'', ''REJECT'']
      in case AppendUnique ''filter'' podFwChainName args h1 of
        (Some err, h2) \<Rightarrow> (Some (failed_to_run err), h2)
      | (None, h2) \<Rightarrow> (None, h2)))"

section \<open>Chain names\<close>

text \<open>
  \<^verbatim>\<open>sha256.Sum256\<close> and \<^verbatim>\<open>base32.StdEncoding.EncodeToString\<close> belong to the Go
  standard library. They are modelled by what they compute: SHA-256 as FIPS 180-4 defines
  it, on 32-bit words, and the base32 encoding of RFC 4648 with padding.
\<close>

type_synonym byte = "8 word"
type_synonym u32 = "32 word"
type_synonym sha_state = "u32 \<times> u32 \<times> u32 \<times> u32 \<times> u32 \<times> u32 \<times> u32 \<times> u32"

definition rotr :: "nat \<Rightarrow> u32 \<Rightarrow> u32" where
  "rotr n x = (drop_bit n x) OR (push_bit (32 - n) x)"

definition K256 :: "u32 list" where
  "K256 = [
   0x428a2f98, 0x71374491, 0xb5c0fbcf, 0xe9b5dba5, 0x3956c25b, 0x59f111f1, 0x923f82a4, 0xab1c5ed5,
   0xd807aa98, 0x12835b01, 0x243185be, 0x550c7dc3, 0x72be5d74, 0x80deb1fe, 0x9bdc06a7, 0xc19bf174,
   0xe49b69c1, 0xefbe4786, 0x0fc19dc6, 0x240ca1cc, 0x2de92c6f, 0x4a7484aa, 0x5cb0a9dc, 0x76f988da,
   0x983e5152, 0xa831c66d, 0xb00327c8, 0xbf597fc7, 0xc6e00bf3, 0xd5a79147, 0x06ca6351, 0x14292967,
   0x27b70a85, 0x2e1b2138, 0x4d2c6dfc, 0x53380d13, 0x650a7354, 0x766a0abb, 0x81c2c92e, 0x92722c85,
   0xa2bfe8a1, 0xa81a664b, 0xc24b8b70, 0xc76c51a3, 0xd192e819, 0xd6990624, 0xf40e3585, 0x106aa070,
   0x19a4c116, 0x1e376c08, 0x2748774c, 0x34b0bcb5, 0x391c0cb3, 0x4ed8aa4a, 0x5b9cca4f, 0x682e6ff3,
   0x748f82ee, 0x78a5636f, 0x84c87814, 0x8cc70208, 0x90befffa, 0xa4506ceb, 0xbef9a3f7, 0xc67178f2]"

definition init256 :: sha_state where
  "init256 = (0x6a09e667, 0xbb67ae85, 0x3c6ef372, 0xa54ff53a, 0x510e527f, 0x9b05688c, 0x1f83d9ab, 0x5be0cd19)"

definition Ch :: "u32 \<Rightarrow> u32 \<Rightarrow> u32 \<Rightarrow> u32" where
  "Ch e f g = (e AND f) XOR (NOT e AND g)"

definition Maj :: "u32 \<Rightarrow> u32 \<Rightarrow> u32 \<Rightarrow> u32" where
  "Maj a b c = (a AND b) XOR (a AND c) XOR (b AND c)"

definition Sigma0 :: "u32 \<Rightarrow> u32" where
  "Sigma0 a = rotr 2 a XOR rotr 13 a XOR rotr 22 a"

definition Sigma1 :: "u32 \<Rightarrow> u32" where
  "Sigma1 e = rotr 6 e XOR rotr 11 e XOR rotr 25 e"

definition sigma0 :: "u32 \<Rightarrow> u32" where
  "sigma0 x = rotr 7 x XOR rotr 18 x XOR drop_bit 3 x"

definition sigma1 :: "u32 \<Rightarrow> u32" where
  "sigma1 x = rotr 17 x XOR rotr 19 x XOR drop_bit 10 x"

text \<open>The length of the message in bits, as eight bytes, most significant first.\<close>

definition len_bytes :: "nat \<Rightarrow> byte list" where
  "len_bytes l = [of_nat (l div 2 ^ 56), of_nat (l div 2 ^ 48), of_nat (l div 2 ^ 40), of_nat (l div 2 ^ 32),
                  of_nat (l div 2 ^ 24), of_nat (l div 2 ^ 16), of_nat (l div 2 ^ 8), of_nat l]"

definition pad :: "byte list \<Rightarrow> byte list" where
  "pad m = m @ [0x80] @ replicate ((119 - length m mod 64) mod 64) 0 @ len_bytes (length m * 8)"

fun be_words :: "byte list \<Rightarrow> u32 list" where
  "be_words (a # b # c # d # r) =
     (push_bit 24 (ucast a) OR push_bit 16 (ucast b) OR push_bit 8 (ucast c) OR ucast d) # be_words r"
| "be_words r = []"

fun round_out :: "sha_state \<Rightarrow> u32 \<Rightarrow> u32 \<Rightarrow> sha_state" where
  "round_out (a, b, c, d, e, f, g, h) t1 t2 = (t1 + t2, a, b, c, d + t1, e, f, g)"

fun round256 :: "sha_state \<Rightarrow> u32 \<Rightarrow> u32 \<Rightarrow> sha_state" where
  "round256 (a, b, c, d, e, f, g, h) k w =
     round_out (a, b, c, d, e, f, g, h) (h + Sigma1 e + Ch e f g + k + w) (Sigma0 a + Maj a b c)"

text \<open>
  The message schedule is kept as a window of sixteen words: the head is the word of
  the current round, and the word sixteen rounds ahead is appended.
\<close>

definition next_word :: "u32 list \<Rightarrow> u32" where
  "next_word w = sigma1 (w ! 14) + w ! 9 + sigma0 (w ! 1) + w ! 0"

fun step256 :: "sha_state \<times> u32 list \<Rightarrow> u32 \<Rightarrow> sha_state \<times> u32 list" where
  "step256 (s, w) k = (round256 s k (hd w), tl w @ [next_word w])"

fun add_state :: "sha_state \<Rightarrow> sha_state \<Rightarrow> sha_state" where
  "add_state (a, b, c, d, e, f, g, h) (a', b', c', d', e', f', g', h') =
     (a + a', b + b', c + c', d + d', e + e', f + f', g + g', h + h')"

definition compress :: "sha_state \<Rightarrow> u32 list \<Rightarrow> sha_state" where
  "compress s blk = add_state s (fst (foldl step256 (s, blk) K256))"

fun blocks :: "sha_state \<Rightarrow> u32 list \<Rightarrow> sha_state" where
  "blocks s [] = s"
| "blocks s (x # xs) = blocks (compress s (take 16 (x # xs))) (drop 16 (x # xs))"

definition word_bytes :: "u32 \<Rightarrow> byte list" where
  "word_bytes w = [ucast (drop_bit 24 w), ucast (drop_bit 16 w), ucast (drop_bit 8 w), ucast w]"

fun digest_bytes :: "sha_state \<Rightarrow> byte list" where
  "digest_bytes (a, b, c, d, e, f, g, h) =
     word_bytes a @ word_bytes b @ word_bytes c @ word_bytes d @
     word_bytes e @ word_bytes f @ word_bytes g @ word_bytes h"

definition Sum256 :: "byte list \<Rightarrow> byte list" where
  "Sum256 m = digest_bytes (blocks init256 (be_words (pad m)))"

text \<open>Base32: five bytes are forty bits, eight characters of five bits each.\<close>

definition encodeStd :: "nat \<Rightarrow> char" where
  "encodeStd n = ''ABCDEFGHIJKLMNOPQRSTUVWXYZ234567'' ! (n mod 32)"

definition quantum :: "byte \<Rightarrow> byte \<Rightarrow> byte \<Rightarrow> byte \<Rightarrow> byte \<Rightarrow> nat" where
  "quantum b0 b1 b2 b3 b4 =
     unat b0 * 2 ^ 32 + unat b1 * 2 ^ 24 + unat b2 * 2 ^ 16 + unat b3 * 2 ^ 8 + unat b4"

definition quantum_chars :: "nat \<Rightarrow> string" where
  "quantum_chars q =
     [encodeStd (q div 2 ^ 35), encodeStd (q div 2 ^ 30), encodeStd (q div 2 ^ 25), encodeStd (q div 2 ^ 20),
      encodeStd (q div 2 ^ 15), encodeStd (q div 2 ^ 10), encodeStd (q div 2 ^ 5), encodeStd q]"

fun EncodeToString :: "byte list \<Rightarrow> string" where
  "EncodeToString (b0 # b1 # b2 # b3 # b4 # rest) =
     quantum_chars (quantum b0 b1 b2 b3 b4) @ EncodeToString rest"
| "EncodeToString [b0, b1, b2, b3] = take 7 (quantum_chars (quantum b0 b1 b2 b3 0)) @ ''=''"
| "EncodeToString [b0, b1, b2] = take 5 (quantum_chars (quantum b0 b1 b2 0 0)) @ ''===''"
| "EncodeToString [b0, b1] = take 4 (quantum_chars (quantum b0 b1 0 0 0)) @ ''====''"
| "EncodeToString [b0] = take 2 (quantum_chars (quantum b0 0 0 0 0)) @ ''======''"
| "EncodeToString [] = []"

text \<open>\<^verbatim>\<open>[]byte(s)\<close>\<close>

definition bytes :: "string \<Rightarrow> byte list" where
  "bytes s = map of_char s"

text \<open>
  \<^verbatim>\<open>podFirewallChainName\<close>. The slice \<^verbatim>\<open>encoded[:16]\<close> panics when the string
  is shorter than sixteen bytes; \<open>podFirewallChainName_in_range\<close> below shows that it
  never is, so that \<^const>\<open>take\<close> is the slice.
\<close>

definition podFirewallChainName :: "netpol_package \<Rightarrow> string \<Rightarrow> string \<Rightarrow> string \<Rightarrow> string" where
  "podFirewallChainName K namespace' podName version =
     (let hash = Sum256 (bytes (namespace' @ podName @ version));
          encoded = EncodeToString hash
      in kubePodFirewallChainPrefix K @ take 16 encoded)"

section \<open>The firewall synchronizer\<close>

text \<open>
  Go visits the entries of a map in an order it does not specify, and a new one at every
  \<^verbatim>\<open>range\<close>. The order is a parameter: the keys listed in \<open>ord\<close> come first, in
  that order, and the keys \<open>ord\<close> leaves out follow in the order of the association
  list. Every order of the entries is the order of some \<open>ord\<close>.
\<close>

definition rangeMap :: "string list \<Rightarrow> 'v gomap \<Rightarrow> (string \<times> 'v) list" where
  "rangeMap ord m =
     concat (map (\<lambda>k. case map_of m k of None \<Rightarrow> [] | Some v \<Rightarrow> [(k, v)]) (remdups ord))
     @ filter (\<lambda>kv. fst kv \<notin> set ord) m"

text \<open>The body of the loop of \<^verbatim>\<open>syncPodFirewallChains\<close> for one local pod.\<close>

definition syncPodFirewallChains_pod ::
  "netpol_package \<Rightarrow> podInfo \<Rightarrow> networkPolicyInfo list \<Rightarrow> string \<Rightarrow> (string \<rightharpoonup> bool) \<Rightarrow> netfilter
     \<Rightarrow> (error option \<times> (string \<rightharpoonup> bool)) \<times> netfilter" where
  "syncPodFirewallChains_pod K pod networkPoliciesInfo version activePodFwChains h =
     (let podFwChainName = podFirewallChainName K (namespace pod) (name pod) version
      in case NewChain ''filter'' podFwChainName h of (err, h1) \<Rightarrow>
     (case not_exit_status_1 err of
        Some e \<Rightarrow> ((Some (failed_to_run e), activePodFwChains), h1)
      | None \<Rightarrow>
     (let activePodFwChains = activePodFwChains(podFwChainName \<mapsto> True)
      in case setupPodIngressRules K pod podFwChainName networkPoliciesInfo version h1 of
        (Some err, h2) \<Rightarrow> ((Some err, activePodFwChains), h2)
      | (None, h2) \<Rightarrow>
     (case setupPodEgressRules K pod podFwChainName networkPoliciesInfo version h2 of
        (Some err, h3) \<Rightarrow> ((Some err, activePodFwChains), h3)
      | (None, h3) \<Rightarrow>
     (case interceptPodInboundTraffic K pod podFwChainName h3 of
        (Some err, h4) \<Rightarrow> ((Some err, activePodFwChains), h4)
      | (None, h4) \<Rightarrow>
     (case interceptPodOutboundTraffic K pod podFwChainName h4 of
        (Some err, h5) \<Rightarrow> ((Some err, activePodFwChains), h5)
      | (None, h5) \<Rightarrow>
     (case dropUnmarkedTrafficRules (name pod) (namespace pod) podFwChainName h5 of
        (Some err, h6) \<Rightarrow> ((Some err, activePodFwChains), h6)
      | (None, h6) \<Rightarrow>
     (let args = [''-j'', ''MARK'', ''--set-mark'', ''0/0x10000'']
      in case AppendUnique ''filter'' podFwChainName args h6 of
        (Some err, h7) \<Rightarrow> ((Some (failed_to_run err), activePodFwChains), h7)
      | (None, h7) \<Rightarrow>
     (let comment = ''set mark to ACCEPT traffic that comply to network policies'';
          args = [''-m'', ''comment'', ''--comment'', comment, ''-j'', ''MARK'', ''--set-mark'', ''0x20000/0x20000'']
      in case AppendUnique ''filter'' podFwChainName args h7 of
        (Some err, h8) \<Rightarrow> ((Some (failed_to_run err), activePodFwChains), h8)
      | (None, h8) \<Rightarrow> ((None, activePodFwChains), h8))))))))))"

fun syncPodFirewallChains_loop ::
  "netpol_package \<Rightarrow> podInfo list \<Rightarrow> networkPolicyInfo list \<Rightarrow> string \<Rightarrow> (string \<rightharpoonup> bool) \<Rightarrow> netfilter
     \<Rightarrow> ((string \<rightharpoonup> bool) option \<times> error option) \<times> netfilter" where
  "syncPodFirewallChains_loop K [] networkPoliciesInfo version activePodFwChains h =
     ((Some activePodFwChains, None), h)"
| "syncPodFirewallChains_loop K (pod # rest) networkPoliciesInfo version activePodFwChains h =
     (case syncPodFirewallChains_pod K pod networkPoliciesInfo version activePodFwChains h of
        ((Some err, activePodFwChains'), h1) \<Rightarrow> ((None, Some err), h1)
      | ((None, activePodFwChains'), h1) \<Rightarrow>
          syncPodFirewallChains_loop K rest networkPoliciesInfo version activePodFwChains' h1)"

text \<open>
  \<^verbatim>\<open>syncPodFirewallChains\<close>. \<^verbatim>\<open>glog.Fatalf\<close> ends the process when
  \<^verbatim>\<open>iptables.New()\<close> fails. Otherwise the function returns a map or \<^verbatim>\<open>nil\<close>
  (\<open>None\<close>) and an error or \<^verbatim>\<open>nil\<close>, and leaves the packet filter in a new state.
\<close>

datatype sync_result =
  Fatal string
| Return (returned_set: "(string \<rightharpoonup> bool) option") (returned_error: "error option")
    (final_state: netfilter)

definition syncPodFirewallChains ::
  "netpol_package \<Rightarrow> NetworkPolicyController \<Rightarrow> string list \<Rightarrow> networkPolicyInfo list \<Rightarrow> string \<Rightarrow> netfilter
     \<Rightarrow> sync_result" where
  "syncPodFirewallChains K npc ord networkPoliciesInfo version h =
     (if \<not> available h then Fatal ''Failed to initialize iptables executor''
      else
        (case getLocalPods npc (nodeIP npc) of
           (allLocalPods, Some err) \<Rightarrow> Return None (Some err) h
         | (allLocalPods, None) \<Rightarrow>
             (case syncPodFirewallChains_loop K (map snd (rangeMap ord allLocalPods))
                     networkPoliciesInfo version Map.empty h of
                ((r, err), h1) \<Rightarrow> Return r err h1)))"

section \<open>Example inputs\<close>

definition mkPod :: "string \<Rightarrow> string \<Rightarrow> string \<Rightarrow> string \<Rightarrow> string \<Rightarrow> Pod" where
  "mkPod ns n ph host pip =
     \<lparr>ObjectMeta = \<lparr>Name = n, Namespace = ns, Labels = Map.empty\<rparr>,
      Status = \<lparr>Phase = ph, HostIP = host, PodIP = pip\<rparr>\<rparr>"

definition relabel :: "Pod \<Rightarrow> (string \<rightharpoonup> string) \<Rightarrow> Pod" where
  "relabel pod ls = pod\<lparr>ObjectMeta := (ObjectMeta pod)\<lparr>Labels := ls\<rparr>\<rparr>"

definition ex_npc :: "Pod list \<Rightarrow> NetworkPolicyController" where
  "ex_npc cache = \<lparr>nodeIP = ''10.0.0.1'', podLister = cache, fullSyncRequests = 0\<rparr>"

definition ex_cache :: "Pod list" where
  "ex_cache =
     [mkPod ''default'' ''web'' ''Running'' ''10.0.0.1'' ''10.244.1.5'',
      mkPod ''default'' ''db'' ''Running'' ''10.0.0.2'' ''10.244.2.7'',
      mkPod ''default'' ''job'' ''Pending'' ''10.0.0.1'' '''']"

definition ex_cache_shared :: "Pod list" where
  "ex_cache_shared =
     [mkPod ''kube-system'' ''kube-proxy'' ''Running'' ''10.0.0.1'' ''10.0.0.1'',
      mkPod ''kube-system'' ''kube-router'' ''Running'' ''10.0.0.1'' ''10.0.0.1'']"

section \<open>The rules the synchronizer installs\<close>

text \<open>
  Names for the rule specifications the functions above build, and for the policies of a
  list that target a pod.
\<close>

definition targeting :: "podInfo \<Rightarrow> networkPolicyInfo list \<Rightarrow> networkPolicyInfo list" where
  "targeting pod networkPoliciesInfo = filter (\<lambda>policy. targetPods policy (ip pod) \<noteq> None) networkPoliciesInfo"

definition policyJump :: "netpol_package \<Rightarrow> string \<Rightarrow> networkPolicyInfo \<Rightarrow> rulespec" where
  "policyJump K version policy =
     [''-m'', ''comment'', ''--comment'', ''run through nw policy '' @ policy_name policy,
      ''-j'', networkPolicyChainName K (policy_namespace policy) (policy_name policy) version]"

definition defaultIngressJump :: "netpol_package \<Rightarrow> podInfo \<Rightarrow> rulespec" where
  "defaultIngressJump K pod =
     [''-d'', ip pod, ''-m'', ''comment'', ''--comment'', ''run through default ingress policy  chain'',
      ''-j'', kubeIngressNetpolChain K]"

definition defaultEgressJump :: "netpol_package \<Rightarrow> podInfo \<Rightarrow> rulespec" where
  "defaultEgressJump K pod =
     [''-s'', ip pod, ''-m'', ''comment'', ''--comment'', ''run through default egress policy  chain'',
      ''-j'', kubeEgressNetpolChain K]"

definition localNodeAllow :: "podInfo \<Rightarrow> rulespec" where
  "localNodeAllow pod =
     [''-m'', ''comment'', ''--comment'',
      ''rule to permit the traffic traffic to pods when source is the pod's local node'',
      ''-m'', ''addrtype'', ''--src-type'', ''LOCAL'', ''-d'', ip pod, ''-j'', ''ACCEPT'']"

definition statefulAllow :: rulespec where
  "statefulAllow =
     [''-m'', ''comment'', ''--comment'', ''rule for stateful firewall for pod'',
      ''-m'', ''conntrack'', ''--ctstate'', ''RELATED,ESTABLISHED'', ''-j'', ''ACCEPT'']"

definition inboundJump :: "podInfo \<Rightarrow> string \<Rightarrow> rulespec" where
  "inboundJump pod podFwChainName =
     [''-m'', ''comment'', ''--comment'',
      ''rule to jump traffic destined to POD name:'' @ name pod @ '' namespace: '' @ namespace pod
        @ '' to chain '' @ podFwChainName,
      ''-d'', ip pod, ''-j'', podFwChainName]"

definition inboundBridgedJump :: "podInfo \<Rightarrow> string \<Rightarrow> rulespec" where
  "inboundBridgedJump pod podFwChainName =
     [''-m'', ''physdev'', ''--physdev-is-bridged'', ''-m'', ''comment'', ''--comment'',
      ''rule to jump traffic destined to POD name:'' @ name pod @ '' namespace: '' @ namespace pod
        @ '' to chain '' @ podFwChainName,
      ''-d'', ip pod, ''-j'', podFwChainName]"

definition outboundJump :: "podInfo \<Rightarrow> string \<Rightarrow> rulespec" where
  "outboundJump pod podFwChainName =
     [''-m'', ''comment'', ''--comment'',
      ''rule to jump traffic from POD name:'' @ name pod @ '' namespace: '' @ namespace pod
        @ '' to chain '' @ podFwChainName,
      ''-s'', ip pod, ''-j'', podFwChainName]"

definition outboundBridgedJump :: "podInfo \<Rightarrow> string \<Rightarrow> rulespec" where
  "outboundBridgedJump pod podFwChainName =
     [''-m'', ''physdev'', ''--physdev-is-bridged'', ''-m'', ''comment'', ''--comment'',
      ''rule to jump traffic from POD name:'' @ name pod @ '' namespace: '' @ namespace pod
        @ '' to chain '' @ podFwChainName,
      ''-s'', ip pod, ''-j'', podFwChainName]"

definition logRule :: "string \<Rightarrow> string \<Rightarrow> rulespec" where
  "logRule podName podNamespace =
     [''-m'', ''comment'', ''--comment'',
      ''rule to log dropped traffic POD name:'' @ podName @ '' namespace: '' @ podNamespace,
      ''-m'', ''mark'', ''!'', ''--mark'', ''0x10000/0x10000'', ''-j'', ''NFLOG'', ''--nflog-group'', ''100'',
      ''-m'', ''limit'', ''--limit'', ''10/minute'', ''--limit-burst'', ''10'']"

definition rejectRule :: "string \<Rightarrow> string \<Rightarrow> rulespec" where
  "rejectRule podName podNamespace =
     [''-m'', ''comment'', ''--comment'',
      ''rule to REJECT traffic destined for POD name:'' @ podName @ '' namespace: '' @ podNamespace,
      ''-m'', ''mark'', ''!'', ''--mark'', ''0x10000/0x10000'', ''-j'', ''REJECT'']"

definition markReset :: rulespec where
  "markReset = [''-j'', ''MARK'', ''--set-mark'', ''0/0x10000'']"

definition markAccept :: rulespec where
  "markAccept =
     [''-m'', ''comment'', ''--comment'', ''set mark to ACCEPT traffic that comply to network policies'',
      ''-j'', ''MARK'', ''--set-mark'', ''0x20000/0x20000'']"

section \<open>The synchronizer as a sequence of executor operations\<close>

text \<open>
  Every step of the functions above is one of four operations on the \<^verbatim>\<open>filter\<close>
  table: create a chain and accept that it exists; check for a rule and insert it at the
  head when it is missing, accepting exit status 1 of the insertion or not; append a rule
  with \<^verbatim>\<open>AppendUnique\<close>; check for a rule and append it with \<^verbatim>\<open>AppendUnique\<close>
  when it is missing. \<open>exec\<close> runs one operation the way the source does, and
  \<open>run_ops\<close> a list of them, stopping at the first error. The lemmas of the
  section on sequences below show that each function is \<open>run_ops\<close> of its list.
\<close>

datatype op =
  NewChainOp string
| InsertOp bool string rulespec
| AppendUniqueOp string rulespec
| CheckedAppendOp string rulespec

fun exec :: "op \<Rightarrow> netfilter \<Rightarrow> error option \<times> netfilter" where
  "exec (NewChainOp chain) h =
     (case NewChain ''filter'' chain h of (err, h1) \<Rightarrow>
        (case not_exit_status_1 err of Some e \<Rightarrow> (Some (failed_to_run e), h1) | None \<Rightarrow> (None, h1)))"
| "exec (InsertOp tolerant chain args) h =
     (case Exists ''filter'' chain args h of
        ((exists, Some err), h1) \<Rightarrow> (Some (failed_to_run err), h1)
      | ((exists, None), h1) \<Rightarrow>
          if \<not> exists then
            (case Insert ''filter'' chain 1 args h1 of (err, h2) \<Rightarrow>
               (case (if tolerant then not_exit_status_1 err else err) of
                  Some e \<Rightarrow> (Some (failed_to_run e), h2)
                | None \<Rightarrow> (None, h2)))
          else (None, h1))"
| "exec (AppendUniqueOp chain args) h =
     (case AppendUnique ''filter'' chain args h of
        (Some err, h1) \<Rightarrow> (Some (failed_to_run err), h1)
      | (None, h1) \<Rightarrow> (None, h1))"
| "exec (CheckedAppendOp chain args) h =
     (case Exists ''filter'' chain args h of
        ((exists, Some err), h1) \<Rightarrow> (Some (failed_to_run err), h1)
      | ((exists, None), h1) \<Rightarrow>
          if \<not> exists then
            (case AppendUnique ''filter'' chain args h1 of
               (Some err, h2) \<Rightarrow> (Some (failed_to_run err), h2)
             | (None, h2) \<Rightarrow> (None, h2))
          else (None, h1))"

fun run_ops :: "op list \<Rightarrow> netfilter \<Rightarrow> error option \<times> netfilter" where
  "run_ops [] h = (None, h)"
| "run_ops (x # xs) h = (case exec x h of (Some err, h1) \<Rightarrow> (Some err, h1) | (None, h1) \<Rightarrow> run_ops xs h1)"

definition ingress_ops :: "netpol_package \<Rightarrow> podInfo \<Rightarrow> string \<Rightarrow> networkPolicyInfo list \<Rightarrow> string \<Rightarrow> op list" where
  "ingress_ops K pod chain networkPoliciesInfo version =
     map (\<lambda>policy. InsertOp True chain (policyJump K version policy)) (targeting pod networkPoliciesInfo)
     @ (if targeting pod networkPoliciesInfo = [] then [InsertOp True chain (defaultIngressJump K pod)] else [])
     @ [InsertOp False chain (localNodeAllow pod), InsertOp False chain statefulAllow]"

definition egress_ops :: "netpol_package \<Rightarrow> podInfo \<Rightarrow> string \<Rightarrow> networkPolicyInfo list \<Rightarrow> string \<Rightarrow> op list" where
  "egress_ops K pod chain networkPoliciesInfo version =
     map (\<lambda>policy. InsertOp True chain (policyJump K version policy)) (targeting pod networkPoliciesInfo)
     @ (if targeting pod networkPoliciesInfo = [] then [InsertOp True chain (defaultEgressJump K pod)] else [])
     @ [InsertOp False chain statefulAllow]"

definition inbound_ops :: "netpol_package \<Rightarrow> podInfo \<Rightarrow> string \<Rightarrow> op list" where
  "inbound_ops K pod chain =
     [InsertOp False (kubeForwardChainName K) (inboundJump pod chain),
      InsertOp False (kubeOutputChainName K) (inboundJump pod chain),
      InsertOp False (kubeForwardChainName K) (inboundBridgedJump pod chain)]"

definition outbound_ops :: "netpol_package \<Rightarrow> podInfo \<Rightarrow> string \<Rightarrow> op list" where
  "outbound_ops K pod chain =
     [CheckedAppendOp (kubeInputChainName K) (outboundJump pod chain),
      CheckedAppendOp (kubeForwardChainName K) (outboundJump pod chain),
      CheckedAppendOp (kubeOutputChainName K) (outboundJump pod chain),
      InsertOp False (kubeForwardChainName K) (outboundBridgedJump pod chain)]"

definition drop_ops :: "string \<Rightarrow> string \<Rightarrow> string \<Rightarrow> op list" where
  "drop_ops podName podNamespace chain =
     [AppendUniqueOp chain (logRule podName podNamespace), AppendUniqueOp chain (rejectRule podName podNamespace)]"

definition pod_ops :: "netpol_package \<Rightarrow> networkPolicyInfo list \<Rightarrow> string \<Rightarrow> podInfo \<Rightarrow> op list" where
  "pod_ops K networkPoliciesInfo version pod =
     (let chain = podFirewallChainName K (namespace pod) (name pod) version
      in NewChainOp chain
         # ingress_ops K pod chain networkPoliciesInfo version
         @ egress_ops K pod chain networkPoliciesInfo version
         @ inbound_ops K pod chain
         @ outbound_ops K pod chain
         @ drop_ops (name pod) (namespace pod) chain
         @ [AppendUniqueOp chain markReset, AppendUniqueOp chain markAccept])"

text \<open>The result of a step of the loop of \<^verbatim>\<open>syncPodFirewallChains\<close>, with the active set it holds.\<close>

definition with_act :: "'a \<Rightarrow> error option \<times> netfilter \<Rightarrow> (error option \<times> 'a) \<times> netfilter" where
  "with_act a r = (case r of (e, h') \<Rightarrow> ((e, a), h'))"

definition active_after :: "netpol_package \<Rightarrow> string \<Rightarrow> podInfo list \<Rightarrow> (string \<rightharpoonup> bool) \<Rightarrow> (string \<rightharpoonup> bool)" where
  "active_after K version pods act =
     (\<lambda>c. if c \<in> (\<lambda>pod. podFirewallChainName K (namespace pod) (name pod) version) ` set pods
          then Some True else act c)"

definition rules_of :: "netfilter \<Rightarrow> string \<Rightarrow> rulespec list" where
  "rules_of h chain = (case tables h (''filter'', chain) of None \<Rightarrow> [] | Some rules \<Rightarrow> rules)"

definition chain_exists :: "netfilter \<Rightarrow> string \<Rightarrow> bool" where
  "chain_exists h chain \<longleftrightarrow> tables h (''filter'', chain) \<noteq> None"

definition has_rule :: "netfilter \<Rightarrow> string \<Rightarrow> rulespec \<Rightarrow> bool" where
  "has_rule h chain rule \<longleftrightarrow> rule \<in> set (rules_of h chain)"

fun sat :: "netfilter \<Rightarrow> op \<Rightarrow> bool" where
  "sat h (NewChainOp chain) = chain_exists h chain"
| "sat h (InsertOp tolerant chain rule) = has_rule h chain rule"
| "sat h (AppendUniqueOp chain rule) = has_rule h chain rule"
| "sat h (CheckedAppendOp chain rule) = has_rule h chain rule"

fun chain_of :: "op \<Rightarrow> string" where
  "chain_of (NewChainOp chain) = chain"
| "chain_of (InsertOp tolerant chain rule) = chain"
| "chain_of (AppendUniqueOp chain rule) = chain"
| "chain_of (CheckedAppendOp chain rule) = chain"

definition grows :: "netfilter \<Rightarrow> netfilter \<Rightarrow> bool" where
  "grows h h' \<longleftrightarrow>
     (\<forall>k rules. tables h k = Some rules \<longrightarrow> (\<exists>rules'. tables h' k = Some rules' \<and> set rules \<subseteq> set rules'))"

definition distinct_chains :: "netfilter \<Rightarrow> bool" where
  "distinct_chains h \<longleftrightarrow> (\<forall>k rules. tables h k = Some rules \<longrightarrow> distinct rules)"

definition add_chain :: "string \<Rightarrow> netfilter \<Rightarrow> netfilter" where
  "add_chain chain h = h\<lparr>tables := (tables h)((''filter'', chain) \<mapsto> [])\<rparr>"

definition set_rules :: "string \<Rightarrow> rulespec list \<Rightarrow> netfilter \<Rightarrow> netfilter" where
  "set_rules chain rules h = h\<lparr>tables := (tables h)((''filter'', chain) \<mapsto> rules)\<rparr>"

definition no_such_chain :: error where
  "no_such_chain = failed_to_run (IptablesError 1 ''iptables: No chain/target/match by that name.'')"

definition all_ops :: "netpol_package \<Rightarrow> networkPolicyInfo list \<Rightarrow> string \<Rightarrow> podInfo list \<Rightarrow> op list" where
  "all_ops K networkPoliciesInfo version pods = concat (map (pod_ops K networkPoliciesInfo version) pods)"

definition local_pod_list :: "NetworkPolicyController \<Rightarrow> string list \<Rightarrow> podInfo list" where
  "local_pod_list npc ord = map snd (rangeMap ord (fst (getLocalPods npc (nodeIP npc))))"

definition chain_names :: "netpol_package \<Rightarrow> string \<Rightarrow> podInfo set \<Rightarrow> string set" where
  "chain_names K version pods = (\<lambda>pod. podFirewallChainName K (namespace pod) (name pod) version) ` pods"

fun rule_set :: "op \<Rightarrow> rulespec set" where
  "rule_set (NewChainOp chain) = {}"
| "rule_set (InsertOp tolerant chain rule) = {rule}"
| "rule_set (AppendUniqueOp chain rule) = {rule}"
| "rule_set (CheckedAppendOp chain rule) = {rule}"

definition installed :: "netfilter \<Rightarrow> netfilter \<Rightarrow> rulespec set" where
  "installed h h' = {rule. \<exists>chain. has_rule h' chain rule \<and> \<not> has_rule h chain rule}"

fun has_comment :: "rulespec \<Rightarrow> bool" where
  "has_comment (a # b # c # d # rest) =
     ((a = ''-m'' \<and> b = ''comment'' \<and> c = ''--comment'') \<or> has_comment (b # c # d # rest))"
| "has_comment rule = False"

definition local_pods :: "NetworkPolicyController \<Rightarrow> Pod set" where
  "local_pods npc = {p \<in> set (podLister npc). qualifies (nodeIP npc) p}"

definition active_set :: "string set \<Rightarrow> (string \<rightharpoonup> bool)" where
  "active_set names = (\<lambda>c. if c \<in> names then Some True else None)"

definition pod_chain :: "netpol_package \<Rightarrow> string \<Rightarrow> Pod \<Rightarrow> string" where
  "pod_chain K version p = podFirewallChainName K (Namespace (ObjectMeta p)) (Name (ObjectMeta p)) version"

definition provisioned :: "netpol_package \<Rightarrow> netfilter \<Rightarrow> bool" where
  "provisioned K h \<longleftrightarrow>
     chain_exists h (kubeInputChainName K) \<and> chain_exists h (kubeForwardChainName K)
     \<and> chain_exists h (kubeOutputChainName K)"

fun rule_of :: "op \<Rightarrow> rulespec" where
  "rule_of (NewChainOp chain) = []"
| "rule_of (InsertOp tolerant chain rule) = rule"
| "rule_of (AppendUniqueOp chain rule) = rule"
| "rule_of (CheckedAppendOp chain rule) = rule"

definition is_insert :: "string \<Rightarrow> op \<Rightarrow> bool" where
  "is_insert chain x \<longleftrightarrow> (case x of InsertOp tolerant c rule \<Rightarrow> c = chain | _ \<Rightarrow> False)"

definition is_append :: "string \<Rightarrow> op \<Rightarrow> bool" where
  "is_append chain x \<longleftrightarrow>
     (case x of AppendUniqueOp c rule \<Rightarrow> c = chain | CheckedAppendOp c rule \<Rightarrow> c = chain | _ \<Rightarrow> False)"

definition append_new :: "rulespec \<Rightarrow> rulespec list \<Rightarrow> rulespec list" where
  "append_new rule rules = (if rule \<in> set rules then rules else rules @ [rule])"

definition is_policy_jump :: "rulespec \<Rightarrow> bool" where
  "is_policy_jump rule \<longleftrightarrow>
     (case rule of
        [a, b, c, comment, e, target] \<Rightarrow>
          a = ''-m'' \<and> b = ''comment'' \<and> c = ''--comment''
          \<and> take 22 comment = ''run through nw policy '' \<and> e = ''-j''
      | _ \<Rightarrow> False)"

definition ingress_chain :: "netpol_package \<Rightarrow> podInfo \<Rightarrow> networkPolicyInfo list \<Rightarrow> string \<Rightarrow> rulespec list" where
  "ingress_chain K pod ps version =
     fold List.insert
       (map (policyJump K version) (targeting pod ps)
        @ (if targeting pod ps = [] then [defaultIngressJump K pod] else [])
        @ [localNodeAllow pod, statefulAllow]) []"

definition policy_jumps :: "netpol_package \<Rightarrow> podInfo \<Rightarrow> networkPolicyInfo list \<Rightarrow> string \<Rightarrow> rulespec list" where
  "policy_jumps K pod ps version = fold List.insert (map (policyJump K version) (targeting pod ps)) []"

definition egress_chain :: "netpol_package \<Rightarrow> podInfo \<Rightarrow> networkPolicyInfo list \<Rightarrow> string \<Rightarrow> rulespec list" where
  "egress_chain K pod ps version =
     fold List.insert
       (map (policyJump K version) (targeting pod ps)
        @ (if targeting pod ps = [] then [defaultEgressJump K pod] else [])
        @ [statefulAllow]) []"

definition ex_package :: netpol_package where
  "ex_package =
     \<lparr>kubePodFirewallChainPrefix = ''KUBE-POD-FW-'',
      kubeInputChainName = ''KUBE-ROUTER-INPUT'',
      kubeForwardChainName = ''KUBE-ROUTER-FORWARD'',
      kubeOutputChainName = ''KUBE-ROUTER-OUTPUT'',
      kubeIngressNetpolChain = ''KUBE-NWPLCY-DEFAULT-INGRESS'',
      kubeEgressNetpolChain = ''KUBE-NWPLCY-DEFAULT-EGRESS'',
      networkPolicyChainName = (\<lambda>ns n v. ''KUBE-NWPLCY-'' @ ns @ ''-'' @ n @ ''-'' @ v)\<rparr>"

definition ex_host :: netfilter where
  "ex_host =
     \<lparr>tables = [(''filter'', ''KUBE-ROUTER-INPUT'') \<mapsto> [],
                (''filter'', ''KUBE-ROUTER-FORWARD'') \<mapsto> [],
                (''filter'', ''KUBE-ROUTER-OUTPUT'') \<mapsto> []],
      faults = [], available = True\<rparr>"

definition ex_fresh :: netfilter where
  "ex_fresh = \<lparr>tables = [(''filter'', ''KUBE-POD-FW-EXAMPLE'') \<mapsto> []], faults = [], available = True\<rparr>"

definition ex_pod :: podInfo where
  "ex_pod = \<lparr>ip = ''10.244.1.5'', name = ''web'', namespace = ''default'', labels = Map.empty\<rparr>"

definition ex_policy :: "string \<Rightarrow> string \<Rightarrow> networkPolicyInfo" where
  "ex_policy n target =
     \<lparr>policy_name = n, policy_namespace = ''default'',
      targetPods = [target \<mapsto> \<lparr>ip = target, name = ''web'', namespace = ''default'', labels = Map.empty\<rparr>]\<rparr>"

definition spec_chainName :: "string \<Rightarrow> string \<Rightarrow> string \<Rightarrow> string \<Rightarrow> string" where
  "spec_chainName role_prefix namespace' identity version =
     role_prefix @ take 16 (EncodeToString (Sum256 (bytes (namespace' @ identity @ version))))"

definition rules_at :: "netfilter \<Rightarrow> string \<times> string \<Rightarrow> rulespec set" where
  "rules_at h k = (case tables h k of None \<Rightarrow> {} | Some rules \<Rightarrow> set rules)"

definition adds :: "rulespec set \<Rightarrow> netfilter \<Rightarrow> netfilter \<Rightarrow> bool" where
  "adds R h h' \<longleftrightarrow> (\<forall>k. rules_at h' k \<subseteq> rules_at h k \<union> R)"

definition fatal :: "iptables_Error option \<Rightarrow> bool" where
  "fatal err \<longleftrightarrow> (case err of None \<Rightarrow> False | Some e \<Rightarrow> ExitStatus e \<noteq> 1)"

definition fstop :: "netfilter \<Rightarrow> bool \<Rightarrow> netfilter \<Rightarrow> bool" where
  "fstop h failed h' \<longleftrightarrow>
     (\<exists>used. faults h = used @ faults h'
        \<and> (\<forall>n. Some n \<in> set (butlast used) \<longrightarrow> n = 1)
        \<and> (\<forall>n. used \<noteq> [] \<and> last used = Some n \<and> n \<noteq> 1 \<longrightarrow> failed))"

definition ex_faulty :: netfilter where
  "ex_faulty = ex_host\<lparr>faults := [None, Some 4, None]\<rparr>"

chapter \<open>Verification\<close>

section \<open>The local pod resolver\<close>

lemma getLocalPods_loop_map_of:
  "map_of (getLocalPods_loop n ps acc) k =
     (case filter (\<lambda>q. qualifies n q \<and> PodIP (Status q) = k) ps of
        [] \<Rightarrow> map_of acc k
      | q # qs \<Rightarrow> Some (snapshot (last (q # qs))))"
proof (induction ps arbitrary: acc)
  case Nil
  then show ?case by simp
next
  case (Cons p ps)
  show ?case
    by (cases "filter (\<lambda>q. qualifies n q \<and> PodIP (Status q) = k) ps")
       (auto simp: Cons.IH qualifies_def snapshot_def update_conv' split: list.splits)
qed

lemma getLocalPods_loop_distinct:
  "distinct (map fst acc) \<Longrightarrow> distinct (map fst (getLocalPods_loop n ps acc))"
  by (induction ps arbitrary: acc) (auto simp: distinct_update)

lemma getLocalPods_map_of:
  "map_of (fst (getLocalPods npc n)) k =
     (case filter (\<lambda>q. qualifies n q \<and> PodIP (Status q) = k) (podLister npc) of
        [] \<Rightarrow> None
      | q # qs \<Rightarrow> Some (snapshot (last (q # qs))))"
  by (simp add: getLocalPods_def getLocalPods_loop_map_of split: list.splits)

lemma getLocalPods_distinct: "distinct (map fst (fst (getLocalPods npc n)))"
  by (simp add: getLocalPods_def getLocalPods_loop_distinct)

lemma contains_pod_iff:
  "contains_pod (fst (getLocalPods npc n)) p \<longleftrightarrow>
     (\<exists>k. map_of (fst (getLocalPods npc n)) k = Some (snapshot p))"
proof -
  have d: "distinct (map fst (fst (getLocalPods npc n)))" by (rule getLocalPods_distinct)
  show ?thesis
    unfolding contains_pod_def
  proof
    assume "snapshot p \<in> snd ` set (fst (getLocalPods npc n))"
    then obtain k where "(k, snapshot p) \<in> set (fst (getLocalPods npc n))" by auto
    with d have "map_of (fst (getLocalPods npc n)) k = Some (snapshot p)" by simp
    then show "\<exists>k. map_of (fst (getLocalPods npc n)) k = Some (snapshot p)" ..
  next
    assume "\<exists>k. map_of (fst (getLocalPods npc n)) k = Some (snapshot p)"
    then obtain k where "map_of (fst (getLocalPods npc n)) k = Some (snapshot p)" ..
    then have "(k, snapshot p) \<in> set (fst (getLocalPods npc n))" by (rule map_of_SomeD)
    then show "snapshot p \<in> snd ` set (fst (getLocalPods npc n))" by force
  qed
qed

lemma snapshot_ip [simp]: "ip (snapshot p) = PodIP (Status p)"
  by (simp add: snapshot_def)

lemma filter_singleton_distinct:
  assumes "distinct (map f xs)" "x \<in> set xs"
  shows "filter (\<lambda>y. f y = f x) xs = [x]"
  using assms
proof (induction xs)
  case Nil
  then show ?case by simp
next
  case (Cons a xs)
  show ?case
  proof (cases "a = x")
    case True
    with Cons.prems have "\<forall>y\<in>set xs. f y \<noteq> f x" by (auto simp: image_iff)
    then have "filter (\<lambda>y. f y = f x) xs = []" by (simp add: filter_empty_conv)
    with True show ?thesis by simp
  next
    case False
    with Cons.prems have "x \<in> set xs" by simp
    with Cons.prems have "f a \<noteq> f x" by (auto simp: image_iff)
    with Cons \<open>x \<in> set xs\<close> show ?thesis by simp
  qed
qed

lemma contains_pod_distinct_addresses:
  assumes dist: "distinct (map (\<lambda>q. PodIP (Status q)) (filter (\<lambda>q. PodIP (Status q) \<noteq> '''') (podLister npc)))"
    and p: "p \<in> set (podLister npc)"
  shows "contains_pod (fst (getLocalPods npc n)) p \<longleftrightarrow> qualifies n p"
proof
  let ?ne = "filter (\<lambda>q. PodIP (Status q) \<noteq> '''') (podLister npc)"
  have sel: "filter (\<lambda>q. qualifies n q \<and> PodIP (Status q) = PodIP (Status x)) (podLister npc)
        = filter (qualifies n) (filter (\<lambda>y. PodIP (Status y) = PodIP (Status x)) ?ne)" for x
    by (induction "podLister npc") (auto simp: qualifies_def intro: filter_cong)
  {
    assume q: "qualifies n p"
    then have "p \<in> set ?ne" using p by (simp add: qualifies_def)
    from filter_singleton_distinct [OF dist this]
    have "filter (\<lambda>q. qualifies n q \<and> PodIP (Status q) = PodIP (Status p)) (podLister npc) = [p]"
      using q by (simp add: sel)
    then have "map_of (fst (getLocalPods npc n)) (PodIP (Status p)) = Some (snapshot p)"
      by (simp add: getLocalPods_map_of)
    then show "contains_pod (fst (getLocalPods npc n)) p"
      unfolding contains_pod_iff by blast
  }
  {
    assume "contains_pod (fst (getLocalPods npc n)) p"
    then obtain k where k: "map_of (fst (getLocalPods npc n)) k = Some (snapshot p)"
      unfolding contains_pod_iff by blast
    then obtain q qs where qs: "filter (\<lambda>q. qualifies n q \<and> PodIP (Status q) = k) (podLister npc) = q # qs"
      and sn: "snapshot (last (q # qs)) = snapshot p"
      by (auto simp: getLocalPods_map_of split: list.splits)
    let ?l = "last (q # qs)"
    have "?l \<in> set (filter (\<lambda>q. qualifies n q \<and> PodIP (Status q) = k) (podLister npc))"
      unfolding qs by (rule last_in_set) simp
    then have l: "?l \<in> set (podLister npc)" "qualifies n ?l" by auto
    from sn have same: "PodIP (Status ?l) = PodIP (Status p)"
      by (metis snapshot_ip)
    from l have "PodIP (Status ?l) \<noteq> ''''" by (simp add: qualifies_def)
    with same l p have "?l \<in> set ?ne" "p \<in> set ?ne" by auto
    with dist same have "?l = p"
      by (metis (mono_tags, lifting) distinct_map inj_onD)
    with l show "qualifies n p" by simp
  }
qed

text \<open>
  Claim C5, as amended. \<^verbatim>\<open>getLocalPods\<close> never returns an error. The keys of the
  mapping it returns are exactly the assigned addresses of the pods of the cache whose
  host address is the node address and whose assigned address is not empty, and an
  address maps to the snapshot of the last such pod of the cache with that address.
  When the pods of the cache with a non-empty address have pairwise different addresses,
  the mapping contains a pod of the cache if and only if the pod's host address is the
  node address and its assigned address is not empty. When no pod qualifies the mapping
  is empty.
\<close>

theorem getLocalPods_mapping:
  "snd (getLocalPods npc n) = None
   \<and> distinct (map fst (fst (getLocalPods npc n)))
   \<and> map_of (fst (getLocalPods npc n)) k =
       (case filter (\<lambda>q. qualifies n q \<and> PodIP (Status q) = k) (podLister npc) of
          [] \<Rightarrow> None
        | q # qs \<Rightarrow> Some (snapshot (last (q # qs))))
   \<and> (distinct (map (\<lambda>q. PodIP (Status q)) (filter (\<lambda>q. PodIP (Status q) \<noteq> '''') (podLister npc)))
        \<longrightarrow> (\<forall>p\<in>set (podLister npc). contains_pod (fst (getLocalPods npc n)) p \<longleftrightarrow> qualifies n p))
   \<and> ((\<forall>p\<in>set (podLister npc). \<not> qualifies n p) \<longrightarrow> fst (getLocalPods npc n) = [])"
proof (intro conjI impI ballI)
  show "snd (getLocalPods npc n) = None" by (simp add: getLocalPods_def)
  show "distinct (map fst (fst (getLocalPods npc n)))" by (rule getLocalPods_distinct)
  show "map_of (fst (getLocalPods npc n)) k =
       (case filter (\<lambda>q. qualifies n q \<and> PodIP (Status q) = k) (podLister npc) of
          [] \<Rightarrow> None
        | q # qs \<Rightarrow> Some (snapshot (last (q # qs))))"
    by (rule getLocalPods_map_of)
next
  fix p
  assume "distinct (map (\<lambda>q. PodIP (Status q)) (filter (\<lambda>q. PodIP (Status q) \<noteq> '''') (podLister npc)))"
    and "p \<in> set (podLister npc)"
  then show "contains_pod (fst (getLocalPods npc n)) p \<longleftrightarrow> qualifies n p"
    by (rule contains_pod_distinct_addresses)
next
  assume none: "\<forall>p\<in>set (podLister npc). \<not> qualifies n p"
  have "map_of (fst (getLocalPods npc n)) k = None" for k
    using none by (simp add: getLocalPods_map_of filter_empty_conv split: list.splits)
  then have "map_of (fst (getLocalPods npc n)) = Map.empty" by (simp add: fun_eq_iff)
  then show "fst (getLocalPods npc n) = []" by simp
qed

theorem getLocalPods_mapping_witness:
  "snd (getLocalPods (ex_npc ex_cache) ''10.0.0.1'') = None
   \<and> contains_pod (fst (getLocalPods (ex_npc ex_cache) ''10.0.0.1''))
        (mkPod ''default'' ''web'' ''Running'' ''10.0.0.1'' ''10.244.1.5'')
   \<and> \<not> contains_pod (fst (getLocalPods (ex_npc ex_cache) ''10.0.0.1''))
        (mkPod ''default'' ''db'' ''Running'' ''10.0.0.2'' ''10.244.2.7'')
   \<and> \<not> contains_pod (fst (getLocalPods (ex_npc ex_cache) ''10.0.0.1''))
        (mkPod ''default'' ''job'' ''Pending'' ''10.0.0.1'' '''')
   \<and> fst (getLocalPods (ex_npc []) ''10.0.0.1'') = []"
  using getLocalPods_mapping [of "ex_npc ex_cache" "''10.0.0.1''" "''10.244.1.5''"]
        getLocalPods_mapping [of "ex_npc []" "''10.0.0.1''" "''10.244.1.5''"]
  by (simp add: ex_npc_def ex_cache_def mkPod_def qualifies_def)

text \<open>
  Claim C5 as stated fails when two qualifying pods share their address, as pods on the
  host network do: the later pod of the cache overwrites the entry of the earlier one.
\<close>

theorem getLocalPods_shared_address_counterexample:
  "mkPod ''kube-system'' ''kube-proxy'' ''Running'' ''10.0.0.1'' ''10.0.0.1'' \<in> set (podLister (ex_npc ex_cache_shared))
   \<and> qualifies ''10.0.0.1'' (mkPod ''kube-system'' ''kube-proxy'' ''Running'' ''10.0.0.1'' ''10.0.0.1'')
   \<and> \<not> contains_pod (fst (getLocalPods (ex_npc ex_cache_shared) ''10.0.0.1''))
          (mkPod ''kube-system'' ''kube-proxy'' ''Running'' ''10.0.0.1'' ''10.0.0.1'')"
  by (simp add: ex_npc_def ex_cache_shared_def mkPod_def qualifies_def getLocalPods_def contains_pod_def snapshot_def)

section \<open>The event bridge\<close>

text \<open>
  Claim C7. For every old and new pod object, the update notification requests a
  resynchronisation, once, if the status phase or the assigned address differs between
  the two objects, and requests none otherwise. An update that changes only the labels
  requests none; an update whose address changes from empty to a real value requests
  exactly one.
\<close>

theorem UpdateFunc_resync:
  "UpdateFunc npc (PodObj oldPod) (PodObj newPod) =
     Inr (if Phase (Status newPod) \<noteq> Phase (Status oldPod) \<or> PodIP (Status newPod) \<noteq> PodIP (Status oldPod)
          then npc\<lparr>fullSyncRequests := fullSyncRequests npc + 1\<rparr> else npc)"
  by (simp add: UpdateFunc_def OnPodUpdate_def RequestFullSync_def)

theorem UpdateFunc_resync_witness:
  "UpdateFunc (ex_npc [])
      (PodObj (mkPod ''default'' ''web'' ''Running'' ''10.0.0.1'' ''10.244.1.5''))
      (PodObj (relabel (mkPod ''default'' ''web'' ''Running'' ''10.0.0.1'' ''10.244.1.5'') [''app'' \<mapsto> ''web'']))
     = Inr (ex_npc [])
   \<and> UpdateFunc (ex_npc [])
      (PodObj (mkPod ''default'' ''web'' ''Pending'' ''10.0.0.1'' ''''))
      (PodObj (mkPod ''default'' ''web'' ''Pending'' ''10.0.0.1'' ''10.244.1.5''))
     = Inr ((ex_npc [])\<lparr>fullSyncRequests := 1\<rparr>)"
  using UpdateFunc_resync [of "ex_npc []" "mkPod ''default'' ''web'' ''Running'' ''10.0.0.1'' ''10.244.1.5''"
          "relabel (mkPod ''default'' ''web'' ''Running'' ''10.0.0.1'' ''10.244.1.5'') [''app'' \<mapsto> ''web'']"]
        UpdateFunc_resync [of "ex_npc []" "mkPod ''default'' ''web'' ''Pending'' ''10.0.0.1'' ''''"
          "mkPod ''default'' ''web'' ''Pending'' ''10.0.0.1'' ''10.244.1.5''"]
  by (simp add: ex_npc_def mkPod_def relabel_def)

section \<open>The functions as sequences of operations\<close>

lemma run_ops_append:
  "run_ops (xs @ ys) h = (case run_ops xs h of (Some err, h1) \<Rightarrow> (Some err, h1) | (None, h1) \<Rightarrow> run_ops ys h1)"
  by (induction xs arbitrary: h) (auto split: prod.splits option.splits)

lemma setupPodIngressRules_policy_exec:
  "setupPodIngressRules_policy K chain policy version h = exec (InsertOp True chain (policyJump K version policy)) h"
  by (simp add: setupPodIngressRules_policy_def policyJump_def Let_def split: prod.splits option.splits)

lemma setupPodEgressRules_policy_exec:
  "setupPodEgressRules_policy K chain policy version h = exec (InsertOp True chain (policyJump K version policy)) h"
  by (simp add: setupPodEgressRules_policy_def policyJump_def Let_def split: prod.splits option.splits)

lemma setupPodIngressRules_loop_ops:
  "setupPodIngressRules_loop K pod chain ps version present h =
     (case run_ops (map (\<lambda>policy. InsertOp True chain (policyJump K version policy)) (targeting pod ps)) h of
        (Some err, h1) \<Rightarrow> ((Some err, True), h1)
      | (None, h1) \<Rightarrow> ((None, present \<or> targeting pod ps \<noteq> []), h1))"
proof (induction ps arbitrary: present h)
  case Nil
  then show ?case by (simp add: targeting_def)
next
  case (Cons p ps)
  show ?case
  proof (cases "targetPods p (ip pod) = None")
    case True
    then have t: "targeting pod (p # ps) = targeting pod ps" by (simp add: targeting_def)
    show ?thesis using True by (simp add: t Cons.IH split: prod.splits option.splits)
  next
    case False
    then have t: "targeting pod (p # ps) = p # targeting pod ps" by (simp add: targeting_def)
    show ?thesis
      using False
      by (simp only: setupPodIngressRules_loop.simps t list.map run_ops.simps
            setupPodIngressRules_policy_exec Cons.IH if_False)
         (simp split: prod.splits option.splits)
  qed
qed

lemma setupPodEgressRules_loop_ops:
  "setupPodEgressRules_loop K pod chain ps version present h =
     (case run_ops (map (\<lambda>policy. InsertOp True chain (policyJump K version policy)) (targeting pod ps)) h of
        (Some err, h1) \<Rightarrow> ((Some err, True), h1)
      | (None, h1) \<Rightarrow> ((None, present \<or> targeting pod ps \<noteq> []), h1))"
proof (induction ps arbitrary: present h)
  case Nil
  then show ?case by (simp add: targeting_def)
next
  case (Cons p ps)
  show ?case
  proof (cases "targetPods p (ip pod) = None")
    case True
    then have t: "targeting pod (p # ps) = targeting pod ps" by (simp add: targeting_def)
    show ?thesis using True by (simp add: t Cons.IH split: prod.splits option.splits)
  next
    case False
    then have t: "targeting pod (p # ps) = p # targeting pod ps" by (simp add: targeting_def)
    show ?thesis
      using False
      by (simp only: setupPodEgressRules_loop.simps t list.map run_ops.simps
            setupPodEgressRules_policy_exec Cons.IH if_False)
         (simp split: prod.splits option.splits)
  qed
qed

lemma exec_InsertOp_False:
  "exec (InsertOp False chain args) h =
     (case Exists ''filter'' chain args h of
        ((exists, Some err), h1) \<Rightarrow> (Some (failed_to_run err), h1)
      | ((exists, None), h1) \<Rightarrow>
          (case (if \<not> exists then Insert ''filter'' chain 1 args h1 else (None, h1)) of
             (Some err, h2) \<Rightarrow> (Some (failed_to_run err), h2)
           | (None, h2) \<Rightarrow> (None, h2)))"
  by (simp split: prod.splits option.splits)

lemma exec_CheckedAppendOp:
  "exec (CheckedAppendOp chain args) h =
     (case Exists ''filter'' chain args h of
        ((exists, Some err), h1) \<Rightarrow> (Some (failed_to_run err), h1)
      | ((exists, None), h1) \<Rightarrow>
          (case (if \<not> exists then AppendUnique ''filter'' chain args h1 else (None, h1)) of
             (Some err, h2) \<Rightarrow> (Some (failed_to_run err), h2)
           | (None, h2) \<Rightarrow> (None, h2)))"
  by (simp split: prod.splits option.splits)

lemma insert_block_False:
  "(case Exists ''filter'' c a h of
      ((ex, Some err), h1) \<Rightarrow> (Some (failed_to_run err), h1)
    | ((ex, None), h1) \<Rightarrow>
        (case (if \<not> ex then Insert ''filter'' c 1 a h1 else (None, h1)) of
           (Some err, h2) \<Rightarrow> (Some (failed_to_run err), h2)
         | (None, h2) \<Rightarrow> k h2))
   = (case exec (InsertOp False c a) h of (Some e, h') \<Rightarrow> (Some e, h') | (None, h') \<Rightarrow> k h')"
  by (simp split: prod.splits option.splits)

lemma insert_block_True:
  "(case Exists ''filter'' c a h of
      ((ex, Some err), h1) \<Rightarrow> (Some (failed_to_run err), h1)
    | ((ex, None), h1) \<Rightarrow>
        if \<not> ex then
          (case Insert ''filter'' c 1 a h1 of (err, h2) \<Rightarrow>
             (case not_exit_status_1 err of Some e \<Rightarrow> (Some (failed_to_run e), h2) | None \<Rightarrow> (None, h2)))
        else (None, h1))
   = exec (InsertOp True c a) h"
  by (simp split: prod.splits option.splits)

lemma case_id: "(case x of (Some e, h') \<Rightarrow> (Some e, h') | (None, h') \<Rightarrow> (None, h')) = x"
  by (simp split: prod.splits option.splits)

lemma setupPodIngressRules_ops:
  "setupPodIngressRules K pod chain ps version h = run_ops (ingress_ops K pod chain ps version) h"
proof -
  obtain e1 h1 where r: "run_ops (map (\<lambda>policy. InsertOp True chain (policyJump K version policy)) (targeting pod ps)) h = (e1, h1)"
    by (cases "run_ops (map (\<lambda>policy. InsertOp True chain (policyJump K version policy)) (targeting pod ps)) h")
  show ?thesis
    unfolding setupPodIngressRules_def Let_def insert_block_False insert_block_True
      setupPodIngressRules_loop_ops ingress_ops_def run_ops_append r
      localNodeAllow_def statefulAllow_def defaultIngressJump_def
    by (cases e1; cases "targeting pod ps = []") (simp_all del: exec.simps add: case_id split: prod.splits option.splits)
qed

lemma setupPodEgressRules_ops:
  "setupPodEgressRules K pod chain ps version h = run_ops (egress_ops K pod chain ps version) h"
proof -
  obtain e1 h1 where r: "run_ops (map (\<lambda>policy. InsertOp True chain (policyJump K version policy)) (targeting pod ps)) h = (e1, h1)"
    by (cases "run_ops (map (\<lambda>policy. InsertOp True chain (policyJump K version policy)) (targeting pod ps)) h")
  show ?thesis
    unfolding setupPodEgressRules_def Let_def insert_block_False insert_block_True
      setupPodEgressRules_loop_ops egress_ops_def run_ops_append r
      statefulAllow_def defaultEgressJump_def
    by (cases e1; cases "targeting pod ps = []")
       (simp_all del: exec.simps add: case_id split: prod.splits option.splits)
qed

lemma interceptPodInboundTraffic_ops:
  "interceptPodInboundTraffic K pod chain h = run_ops (inbound_ops K pod chain) h"
  unfolding interceptPodInboundTraffic_def Let_def insert_block_False inbound_ops_def
    inboundJump_def inboundBridgedJump_def
  by (simp del: exec.simps add: case_id split: prod.splits option.splits)

lemma interceptPodOutboundTraffic_chain_exec:
  "interceptPodOutboundTraffic_chain pod chain c h = exec (CheckedAppendOp c (outboundJump pod chain)) h"
  by (simp add: interceptPodOutboundTraffic_chain_def outboundJump_def Let_def split: prod.splits option.splits)

lemma interceptPodOutboundTraffic_loop_ops:
  "interceptPodOutboundTraffic_loop pod chain cs h =
     run_ops (map (\<lambda>c. CheckedAppendOp c (outboundJump pod chain)) cs) h"
  by (induction cs arbitrary: h)
     (simp_all add: interceptPodOutboundTraffic_chain_exec del: exec.simps split: prod.splits option.splits)

lemma interceptPodOutboundTraffic_ops:
  "interceptPodOutboundTraffic K pod chain h = run_ops (outbound_ops K pod chain) h"
proof -
  have split: "outbound_ops K pod chain =
      map (\<lambda>c. CheckedAppendOp c (outboundJump pod chain))
        [kubeInputChainName K, kubeForwardChainName K, kubeOutputChainName K]
      @ [InsertOp False (kubeForwardChainName K) (outboundBridgedJump pod chain)]"
    by (simp add: outbound_ops_def)
  show ?thesis
    unfolding interceptPodOutboundTraffic_def Let_def insert_block_False
      interceptPodOutboundTraffic_loop_ops split run_ops_append outboundBridgedJump_def
    by (simp del: exec.simps add: case_id split: prod.splits option.splits)
qed

lemma append_block:
  "(case AppendUnique ''filter'' c a h of
      (Some err, h1) \<Rightarrow> (Some (failed_to_run err), h1)
    | (None, h1) \<Rightarrow> k h1)
   = (case exec (AppendUniqueOp c a) h of (Some e, h') \<Rightarrow> (Some e, h') | (None, h') \<Rightarrow> k h')"
  by (simp split: prod.splits option.splits)

lemma dropUnmarkedTrafficRules_ops:
  "dropUnmarkedTrafficRules podName podNamespace chain h = run_ops (drop_ops podName podNamespace chain) h"
  unfolding dropUnmarkedTrafficRules_def Let_def append_block drop_ops_def logRule_def rejectRule_def
  by (simp del: exec.simps add: case_id split: prod.splits option.splits)

lemma with_act_append:
  "with_act a (run_ops (xs @ ys) h) =
     (case run_ops xs h of (Some e, h') \<Rightarrow> ((Some e, a), h') | (None, h') \<Rightarrow> with_act a (run_ops ys h'))"
  by (simp add: run_ops_append with_act_def split: prod.splits option.splits)

lemma with_act_Cons:
  "with_act a (run_ops (x # xs) h) =
     (case exec x h of (Some e, h') \<Rightarrow> ((Some e, a), h') | (None, h') \<Rightarrow> with_act a (run_ops xs h'))"
  by (simp add: with_act_def del: exec.simps split: prod.splits option.splits)

lemma with_act_Nil: "with_act a (run_ops [] h) = ((None, a), h)"
  by (simp add: with_act_def)

lemma append_block_act:
  "(case AppendUnique ''filter'' c args h of
      (Some err, h1) \<Rightarrow> ((Some (failed_to_run err), a), h1)
    | (None, h1) \<Rightarrow> k h1)
   = (case exec (AppendUniqueOp c args) h of (Some e, h') \<Rightarrow> ((Some e, a), h') | (None, h') \<Rightarrow> k h')"
  by (simp split: prod.splits option.splits)

lemma newchain_block_act:
  "(case NewChain ''filter'' c h of (err, h1) \<Rightarrow>
      (case not_exit_status_1 err of
         Some e \<Rightarrow> ((Some (failed_to_run e), a), h1)
       | None \<Rightarrow> k h1))
   = (case exec (NewChainOp c) h of (Some e, h') \<Rightarrow> ((Some e, a), h') | (None, h') \<Rightarrow> k h')"
  by (simp split: prod.splits option.splits)

lemma syncPodFirewallChains_pod_ops:
  "syncPodFirewallChains_pod K pod ps version act h =
     (case exec (NewChainOp (podFirewallChainName K (namespace pod) (name pod) version)) h of
        (Some e, h') \<Rightarrow> ((Some e, act), h')
      | (None, h') \<Rightarrow>
          with_act (act(podFirewallChainName K (namespace pod) (name pod) version \<mapsto> True))
            (run_ops (tl (pod_ops K ps version pod)) h'))"
  unfolding syncPodFirewallChains_pod_def Let_def setupPodIngressRules_ops setupPodEgressRules_ops
    interceptPodInboundTraffic_ops interceptPodOutboundTraffic_ops dropUnmarkedTrafficRules_ops
    pod_ops_def list.sel with_act_append with_act_Cons with_act_Nil
    append_block_act newchain_block_act markReset_def markAccept_def
  by (rule refl)

lemma pod_ops_Cons:
  "pod_ops K ps version pod =
     NewChainOp (podFirewallChainName K (namespace pod) (name pod) version) # tl (pod_ops K ps version pod)"
  by (simp add: pod_ops_def Let_def)

lemma syncPodFirewallChains_pod_None:
  assumes "run_ops (pod_ops K ps version pod) h = (None, h')"
  shows "syncPodFirewallChains_pod K pod ps version act h =
           ((None, act(podFirewallChainName K (namespace pod) (name pod) version \<mapsto> True)), h')"
proof -
  from assms have "run_ops (NewChainOp (podFirewallChainName K (namespace pod) (name pod) version)
                     # tl (pod_ops K ps version pod)) h = (None, h')"
    using pod_ops_Cons [of K ps version pod] by simp
  then show ?thesis
    unfolding syncPodFirewallChains_pod_ops
    by (simp add: with_act_def del: exec.simps split: prod.splits option.splits)
qed

lemma syncPodFirewallChains_pod_Some:
  assumes "run_ops (pod_ops K ps version pod) h = (Some e, h')"
  shows "\<exists>a. syncPodFirewallChains_pod K pod ps version act h = ((Some e, a), h')"
proof -
  from assms have "run_ops (NewChainOp (podFirewallChainName K (namespace pod) (name pod) version)
                     # tl (pod_ops K ps version pod)) h = (Some e, h')"
    using pod_ops_Cons [of K ps version pod] by simp
  then show ?thesis
    unfolding syncPodFirewallChains_pod_ops
    by (auto simp add: with_act_def simp del: exec.simps split: prod.splits option.splits)
qed

lemma syncPodFirewallChains_loop_ops:
  "syncPodFirewallChains_loop K pods ps version act h =
     (case run_ops (concat (map (pod_ops K ps version) pods)) h of
        (Some e, h') \<Rightarrow> ((None, Some e), h')
      | (None, h') \<Rightarrow> ((Some (active_after K version pods act), None), h'))"
proof (induction pods arbitrary: act h)
  case Nil
  then show ?case by (simp add: active_after_def)
next
  case (Cons pod pods)
  obtain e1 h1 where r: "run_ops (pod_ops K ps version pod) h = (e1, h1)"
    by (cases "run_ops (pod_ops K ps version pod) h")
  show ?case
  proof (cases e1)
    case None
    have a: "active_after K version pods (act(podFirewallChainName K (namespace pod) (name pod) version \<mapsto> True))
        = active_after K version (pod # pods) act"
      by (auto simp: active_after_def fun_eq_iff)
    from r None have "syncPodFirewallChains_pod K pod ps version act h =
      ((None, act(podFirewallChainName K (namespace pod) (name pod) version \<mapsto> True)), h1)"
      by (simp add: syncPodFirewallChains_pod_None)
    then show ?thesis
      using r None by (simp add: Cons.IH run_ops_append a split: prod.splits option.splits)
  next
    case (Some e)
    with r obtain a where "syncPodFirewallChains_pod K pod ps version act h = ((Some e, a), h1)"
      using syncPodFirewallChains_pod_Some by blast
    then show ?thesis
      using r Some by (simp add: run_ops_append)
  qed
qed

lemma run_nofault: "faults h = [] \<Longrightarrow> run h = (None, h)"
  by (simp add: run_def)

lemma NewChain_nofault:
  "faults h = [] \<Longrightarrow> NewChain t c h =
     (case tables h (t, c) of
        Some rules \<Rightarrow> (Some (IptablesError 1 ''iptables: Chain already exists.''), h)
      | None \<Rightarrow> (None, h\<lparr>tables := (tables h)((t, c) \<mapsto> [])\<rparr>))"
  by (simp add: NewChain_def run_nofault)

lemma Exists_nofault:
  "faults h = [] \<Longrightarrow> Exists t c r h =
     ((case tables h (t, c) of None \<Rightarrow> False | Some rules \<Rightarrow> r \<in> set rules, None), h)"
  by (simp add: Exists_def Check_def run_nofault split: option.splits)

lemma Insert_nofault:
  "faults h = [] \<Longrightarrow> Insert t c (Suc 0) r h =
     (case tables h (t, c) of
        None \<Rightarrow> (Some (IptablesError 1 ''iptables: No chain/target/match by that name.''), h)
      | Some rules \<Rightarrow> (None, h\<lparr>tables := (tables h)((t, c) \<mapsto> r # rules)\<rparr>))"
  by (simp add: Insert_def run_nofault split: option.splits)

lemma Append_nofault:
  "faults h = [] \<Longrightarrow> Append t c r h =
     (case tables h (t, c) of
        None \<Rightarrow> (Some (IptablesError 1 ''iptables: No chain/target/match by that name.''), h)
      | Some rules \<Rightarrow> (None, h\<lparr>tables := (tables h)((t, c) \<mapsto> rules @ [r])\<rparr>))"
  by (simp add: Append_def run_nofault split: option.splits)

lemma AppendUnique_nofault:
  "faults h = [] \<Longrightarrow> AppendUnique t c r h =
     (case tables h (t, c) of
        None \<Rightarrow> (Some (IptablesError 1 ''iptables: No chain/target/match by that name.''), h)
      | Some rules \<Rightarrow>
          if r \<in> set rules then (None, h)
          else (None, h\<lparr>tables := (tables h)((t, c) \<mapsto> rules @ [r])\<rparr>))"
  by (simp add: AppendUnique_def Exists_nofault Append_nofault split: option.splits)

lemma exec_NewChainOp_nofault:
  "faults h = [] \<Longrightarrow> exec (NewChainOp c) h = (None, if chain_exists h c then h else add_chain c h)"
  by (simp add: NewChain_nofault not_exit_status_1_def chain_exists_def add_chain_def split: option.splits)

lemma exec_InsertOp_nofault:
  "faults h = [] \<Longrightarrow> exec (InsertOp tolerant c r) h =
     (if \<not> chain_exists h c then (if tolerant then None else Some no_such_chain, h)
      else if has_rule h c r then (None, h)
      else (None, set_rules c (r # rules_of h c) h))"
  by (auto simp: Exists_nofault Insert_nofault not_exit_status_1_def chain_exists_def has_rule_def
        rules_of_def set_rules_def no_such_chain_def split: option.splits)

lemma exec_AppendUniqueOp_nofault:
  "faults h = [] \<Longrightarrow> exec (AppendUniqueOp c r) h =
     (if \<not> chain_exists h c then (Some no_such_chain, h)
      else if has_rule h c r then (None, h)
      else (None, set_rules c (rules_of h c @ [r]) h))"
  by (auto simp: AppendUnique_nofault chain_exists_def has_rule_def
        rules_of_def set_rules_def no_such_chain_def split: option.splits)

lemma exec_CheckedAppendOp_nofault:
  "faults h = [] \<Longrightarrow> exec (CheckedAppendOp c r) h =
     (if \<not> chain_exists h c then (Some no_such_chain, h)
      else if has_rule h c r then (None, h)
      else (None, set_rules c (rules_of h c @ [r]) h))"
  by (auto simp: AppendUnique_nofault Exists_nofault chain_exists_def has_rule_def
        rules_of_def set_rules_def no_such_chain_def split: option.splits)

lemmas exec_nofault =
  exec_NewChainOp_nofault exec_InsertOp_nofault exec_AppendUniqueOp_nofault exec_CheckedAppendOp_nofault

lemma faults_add_chain [simp]: "faults (add_chain c h) = faults h"
  by (simp add: add_chain_def)

lemma faults_set_rules [simp]: "faults (set_rules c rs h) = faults h"
  by (simp add: set_rules_def)

lemma exec_nofault_faults: "faults h = [] \<Longrightarrow> faults (snd (exec x h)) = []"
  by (cases x) (simp_all add: exec_nofault del: exec.simps)

lemma grows_refl [simp]: "grows h h"
  by (simp add: grows_def)

lemma grows_trans: "grows h h1 \<Longrightarrow> grows h1 h2 \<Longrightarrow> grows h h2"
  unfolding grows_def by (meson subset_trans)

lemma grows_add_chain: "\<not> chain_exists h c \<Longrightarrow> grows h (add_chain c h)"
  by (auto simp: grows_def add_chain_def chain_exists_def)

lemma grows_set_rules: "set (rules_of h c) \<subseteq> set rs \<Longrightarrow> grows h (set_rules c rs h)"
  by (auto simp: grows_def set_rules_def rules_of_def)

lemma exec_nofault_grows: "faults h = [] \<Longrightarrow> grows h (snd (exec x h))"
  by (cases x) (auto simp: exec_nofault simp del: exec.simps intro!: grows_add_chain grows_set_rules)

lemma grows_chain_exists: "grows h h' \<Longrightarrow> chain_exists h c \<Longrightarrow> chain_exists h' c"
  unfolding grows_def chain_exists_def by fastforce

lemma grows_has_rule:
  assumes "grows h h'" "has_rule h c r"
  shows "has_rule h' c r"
proof (cases "tables h (''filter'', c)")
  case None
  with assms(2) show ?thesis by (simp add: has_rule_def rules_of_def)
next
  case (Some rules)
  with assms(1) obtain rules' where "tables h' (''filter'', c) = Some rules'" "set rules \<subseteq> set rules'"
    unfolding grows_def by blast
  with Some assms(2) show ?thesis by (auto simp: has_rule_def rules_of_def)
qed

lemma grows_sat: "grows h h' \<Longrightarrow> sat h x \<Longrightarrow> sat h' x"
  by (cases x) (auto intro: grows_chain_exists grows_has_rule)

lemma has_rule_chain_exists: "has_rule h c r \<Longrightarrow> chain_exists h c"
  by (cases "tables h (''filter'', c)") (simp_all add: has_rule_def rules_of_def chain_exists_def)

lemma exec_sat_noop: "faults h = [] \<Longrightarrow> sat h x \<Longrightarrow> exec x h = (None, h)"
  by (cases x) (auto simp: exec_nofault has_rule_chain_exists simp del: exec.simps)

lemma chain_exists_add_chain [simp]: "chain_exists (add_chain c h) c"
  by (simp add: chain_exists_def add_chain_def)

lemma rules_of_set_rules [simp]: "rules_of (set_rules c rs h) c = rs"
  by (simp add: rules_of_def set_rules_def)

lemma exec_success_sat:
  assumes "faults h = []" "exec x h = (None, h')"
    and "chain_exists h (chain_of x) \<or> (\<forall>c r. x \<noteq> InsertOp True c r)"
  shows "sat h' x"
  using assms
  by (cases x) (auto simp: exec_nofault has_rule_def simp del: exec.simps split: if_splits)

lemma exec_chain_exists_success:
  "faults h = [] \<Longrightarrow> chain_exists h (chain_of x) \<Longrightarrow> fst (exec x h) = None"
  by (cases x) (simp_all add: exec_nofault del: exec.simps)

lemma distinct_chains_add_chain: "distinct_chains h \<Longrightarrow> distinct_chains (add_chain c h)"
  by (simp add: distinct_chains_def add_chain_def)

lemma distinct_chains_set_rules: "distinct_chains h \<Longrightarrow> distinct rs \<Longrightarrow> distinct_chains (set_rules c rs h)"
  by (simp add: distinct_chains_def set_rules_def)

lemma distinct_rules_of: "distinct_chains h \<Longrightarrow> distinct (rules_of h c)"
  by (cases "tables h (''filter'', c)") (simp_all add: distinct_chains_def rules_of_def)

lemma exec_nofault_distinct:
  "faults h = [] \<Longrightarrow> distinct_chains h \<Longrightarrow> distinct_chains (snd (exec x h))"
  by (cases x)
     (auto simp: exec_nofault has_rule_def distinct_rules_of simp del: exec.simps
           intro!: distinct_chains_add_chain distinct_chains_set_rules)

lemma exec_error_wrapped:
  "exec x h = (Some e, h') \<Longrightarrow> \<exists>m. e = Errorf (''Failed to run iptables command: '' @ m)"
  by (cases x) (auto simp: failed_to_run_def split: prod.splits option.splits if_splits)

lemma run_ops_nofault_faults: "faults h = [] \<Longrightarrow> faults (snd (run_ops xs h)) = []"
proof (induction xs arbitrary: h)
  case Nil
  then show ?case by simp
next
  case (Cons x xs)
  from Cons.prems have "faults (snd (exec x h)) = []" by (rule exec_nofault_faults)
  then show ?case
    using Cons.IH [of "snd (exec x h)"] Cons.prems
    by (cases "exec x h") (auto simp del: exec.simps split: option.splits)
qed

lemma run_ops_nofault_grows: "faults h = [] \<Longrightarrow> grows h (snd (run_ops xs h))"
proof (induction xs arbitrary: h)
  case Nil
  then show ?case by simp
next
  case (Cons x xs)
  from Cons.prems have f: "faults (snd (exec x h)) = []" by (rule exec_nofault_faults)
  from Cons.prems have g: "grows h (snd (exec x h))" by (rule exec_nofault_grows)
  show ?case
    using Cons.IH [OF f] g
    by (cases "exec x h") (auto simp del: exec.simps split: option.splits intro: grows_trans)
qed

lemma run_ops_sat_noop:
  "faults h = [] \<Longrightarrow> \<forall>x\<in>set xs. sat h x \<Longrightarrow> run_ops xs h = (None, h)"
  by (induction xs) (simp_all add: exec_sat_noop del: exec.simps)

lemma run_ops_success_sat:
  assumes "faults h = []" "run_ops xs h = (None, h')"
    and "\<forall>c r. InsertOp True c r \<in> set xs \<longrightarrow> chain_exists h c"
  shows "\<forall>x\<in>set xs. sat h' x"
  using assms
proof (induction xs arbitrary: h)
  case Nil
  then show ?case by simp
next
  case (Cons x xs)
  from Cons.prems(2) obtain h1 where x: "exec x h = (None, h1)" and xs: "run_ops xs h1 = (None, h')"
    by (cases "exec x h") (auto simp del: exec.simps split: option.splits)
  from Cons.prems(1) x have f1: "faults h1 = []" using exec_nofault_faults [of h x] by simp
  from Cons.prems(1) x have g1: "grows h h1" using exec_nofault_grows [of h x] by simp
  from f1 xs have g2: "grows h1 h'" using run_ops_nofault_grows [of h1 xs] by simp
  have "chain_exists h (chain_of x) \<or> (\<forall>c r. x \<noteq> InsertOp True c r)"
    using Cons.prems(3) by (cases x) auto
  with Cons.prems(1) x have "sat h1 x" by (rule exec_success_sat)
  with g2 have "sat h' x" by (rule grows_sat)
  moreover have "\<forall>c r. InsertOp True c r \<in> set xs \<longrightarrow> chain_exists h1 c"
    using Cons.prems(3) g1 by (auto intro: grows_chain_exists)
  with f1 xs have "\<forall>x\<in>set xs. sat h' x" by (rule Cons.IH)
  ultimately show ?case by simp
qed

lemma run_ops_nofault_distinct:
  "faults h = [] \<Longrightarrow> distinct_chains h \<Longrightarrow> distinct_chains (snd (run_ops xs h))"
proof (induction xs arbitrary: h)
  case Nil
  then show ?case by simp
next
  case (Cons x xs)
  from Cons.prems have f: "faults (snd (exec x h)) = []" by (simp add: exec_nofault_faults)
  from Cons.prems have d: "distinct_chains (snd (exec x h))" by (simp add: exec_nofault_distinct)
  show ?case
    using Cons.IH [OF f d] d
    by (cases "exec x h") (auto simp del: exec.simps split: option.splits)
qed

lemma run_ops_chain_exists_success:
  "faults h = [] \<Longrightarrow> \<forall>x\<in>set xs. chain_exists h (chain_of x) \<Longrightarrow> fst (run_ops xs h) = None"
proof (induction xs arbitrary: h)
  case Nil
  then show ?case by simp
next
  case (Cons x xs)
  from Cons.prems have e: "fst (exec x h) = None" by (simp add: exec_chain_exists_success)
  from Cons.prems have f: "faults (snd (exec x h)) = []" by (simp add: exec_nofault_faults)
  from Cons.prems have g: "grows h (snd (exec x h))" by (simp add: exec_nofault_grows)
  have "\<forall>y\<in>set xs. chain_exists (snd (exec x h)) (chain_of y)"
    using Cons.prems(2) g by (auto intro: grows_chain_exists)
  with f have "fst (run_ops xs (snd (exec x h))) = None" by (rule Cons.IH)
  with e show ?case
    by (cases "exec x h") (auto simp del: exec.simps split: option.splits)
qed

lemma run_ops_error_wrapped:
  "run_ops xs h = (Some e, h') \<Longrightarrow> \<exists>m. e = Errorf (''Failed to run iptables command: '' @ m)"
proof (induction xs arbitrary: h)
  case Nil
  then show ?case by simp
next
  case (Cons x xs)
  show ?case
  proof (cases "exec x h")
    case (Pair e1 h1)
    show ?thesis
    proof (cases e1)
      case None
      with Pair Cons.prems have "run_ops xs h1 = (Some e, h')" by (simp del: exec.simps)
      then show ?thesis by (rule Cons.IH)
    next
      case (Some e2)
      with Pair Cons.prems have "exec x h = (Some e, h')" by (simp del: exec.simps)
      then show ?thesis by (rule exec_error_wrapped)
    qed
  qed
qed

lemma run_ops_faults':
  "faults h = [] \<Longrightarrow> run_ops xs h = (e, h') \<Longrightarrow> faults h' = []"
  using run_ops_nofault_faults [of h xs] by simp

lemma run_ops_grows':
  "faults h = [] \<Longrightarrow> run_ops xs h = (e, h') \<Longrightarrow> grows h h'"
  using run_ops_nofault_grows [of h xs] by simp

lemma run_ops_distinct':
  "faults h = [] \<Longrightarrow> distinct_chains h \<Longrightarrow> run_ops xs h = (e, h') \<Longrightarrow> distinct_chains h'"
  using run_ops_nofault_distinct [of h xs] by simp

lemma rangeMap_set:
  assumes "distinct (map fst m)"
  shows "set (rangeMap ord m) = set m"
proof -
  have mo: "map_of m k = Some v \<longleftrightarrow> (k, v) \<in> set m" for k v
    using assms by simp
  have mo': "Some v = map_of m k \<longleftrightarrow> (k, v) \<in> set m" for k v
    using mo [of k v] by auto
  show ?thesis
    by (auto simp: rangeMap_def mo mo' split: option.splits)
qed

lemma local_pod_list_set:
  "set (local_pod_list npc ord) = snd ` set (fst (getLocalPods npc (nodeIP npc)))"
  by (simp add: local_pod_list_def rangeMap_set getLocalPods_distinct)

lemma syncPodFirewallChains_ops:
  "syncPodFirewallChains K npc ord ps version h =
     (if \<not> available h then Fatal ''Failed to initialize iptables executor''
      else case run_ops (all_ops K ps version (local_pod_list npc ord)) h of
             (Some e, h') \<Rightarrow> Return None (Some e) h'
           | (None, h') \<Rightarrow> Return (Some (active_after K version (local_pod_list npc ord) Map.empty)) None h')"
  by (simp add: syncPodFirewallChains_def getLocalPods_def syncPodFirewallChains_loop_ops all_ops_def
        local_pod_list_def split: prod.splits option.splits)

lemma tl_pod_ops_tolerant:
  "InsertOp True c r \<in> set (tl (pod_ops K ps version pod))
     \<Longrightarrow> c = podFirewallChainName K (namespace pod) (name pod) version"
  by (auto simp: pod_ops_def Let_def ingress_ops_def egress_ops_def inbound_ops_def outbound_ops_def
        drop_ops_def split: if_splits)

lemma pod_ops_success_sat:
  assumes "faults h = []" "run_ops (pod_ops K ps version pod) h = (None, h')"
  shows "\<forall>x\<in>set (pod_ops K ps version pod). sat h' x"
proof -
  let ?c = "podFirewallChainName K (namespace pod) (name pod) version"
  let ?h1 = "if chain_exists h ?c then h else add_chain ?c h"
  have e: "exec (NewChainOp ?c) h = (None, ?h1)"
    using assms(1) by (rule exec_NewChainOp_nofault)
  have c1: "chain_exists ?h1 ?c" by simp
  have f1: "faults ?h1 = []" using assms(1) by simp
  from assms(2) e have r: "run_ops (tl (pod_ops K ps version pod)) ?h1 = (None, h')"
    by (subst (asm) pod_ops_Cons) (simp del: exec.simps)
  have "\<forall>c r. InsertOp True c r \<in> set (tl (pod_ops K ps version pod)) \<longrightarrow> chain_exists ?h1 c"
    using c1 tl_pod_ops_tolerant by blast
  with f1 r have t: "\<forall>x\<in>set (tl (pod_ops K ps version pod)). sat h' x"
    by (rule run_ops_success_sat)
  from f1 r have "grows ?h1 h'" by (rule run_ops_grows')
  with c1 have "chain_exists h' ?c" by (rule grows_chain_exists [rotated])
  with t show ?thesis
    by (subst pod_ops_Cons) simp
qed

lemma all_ops_success_sat:
  assumes "faults h = []" "run_ops (all_ops K ps version pods) h = (None, h')"
  shows "\<forall>pod\<in>set pods. \<forall>x\<in>set (pod_ops K ps version pod). sat h' x"
  using assms
proof (induction pods arbitrary: h)
  case Nil
  then show ?case by simp
next
  case (Cons pod pods)
  from Cons.prems(2) obtain h1 where p: "run_ops (pod_ops K ps version pod) h = (None, h1)"
    and r: "run_ops (all_ops K ps version pods) h1 = (None, h')"
    by (auto simp: all_ops_def run_ops_append split: prod.splits option.splits)
  from Cons.prems(1) p have f1: "faults h1 = []" by (rule run_ops_faults')
  from f1 r have g: "grows h1 h'" by (rule run_ops_grows')
  from Cons.prems(1) p have "\<forall>x\<in>set (pod_ops K ps version pod). sat h1 x" by (rule pod_ops_success_sat)
  with g have "\<forall>x\<in>set (pod_ops K ps version pod). sat h' x" by (blast intro: grows_sat)
  moreover from f1 r have "\<forall>pod\<in>set pods. \<forall>x\<in>set (pod_ops K ps version pod). sat h' x" by (rule Cons.IH)
  ultimately show ?case by simp
qed

lemma all_ops_second_run:
  assumes "faults h = []" "run_ops (all_ops K ps version pods) h = (None, h')"
    and "set pods' \<subseteq> set pods"
  shows "run_ops (all_ops K ps version pods') h' = (None, h')"
proof -
  from assms(1,2) have f: "faults h' = []" by (rule run_ops_faults')
  from assms(1,2) have "\<forall>pod\<in>set pods. \<forall>x\<in>set (pod_ops K ps version pod). sat h' x"
    by (rule all_ops_success_sat)
  with assms(3) have "\<forall>x\<in>set (all_ops K ps version pods'). sat h' x"
    by (auto simp: all_ops_def)
  with f show ?thesis by (rule run_ops_sat_noop)
qed

lemma active_after_set:
  "set pods = set pods' \<Longrightarrow> active_after K version pods act = active_after K version pods' act"
  by (simp add: active_after_def)

lemma run_available: "run h = (f, h1) \<Longrightarrow> available h1 = available h"
  by (cases "faults h") (auto simp: run_def)

lemma NewChain_available: "NewChain t c h = (e, h1) \<Longrightarrow> available h1 = available h"
  by (auto simp: NewChain_def split: prod.splits option.splits dest: run_available)

lemma Check_available: "Check t c r h = (e, h1) \<Longrightarrow> available h1 = available h"
  by (auto simp: Check_def split: prod.splits option.splits if_splits dest: run_available)

lemma Exists_available: "Exists t c r h = (e, h1) \<Longrightarrow> available h1 = available h"
  by (auto simp: Exists_def split: prod.splits option.splits if_splits dest: Check_available)

lemma Insert_available: "Insert t c p r h = (e, h1) \<Longrightarrow> available h1 = available h"
  by (auto simp: Insert_def split: prod.splits option.splits if_splits dest: run_available)

lemma Append_available: "Append t c r h = (e, h1) \<Longrightarrow> available h1 = available h"
  by (auto simp: Append_def split: prod.splits option.splits dest: run_available)

lemma AppendUnique_available: "AppendUnique t c r h = (e, h1) \<Longrightarrow> available h1 = available h"
  by (auto simp: AppendUnique_def split: prod.splits option.splits if_splits
        dest: Exists_available Append_available)

lemma exec_available: "exec x h = (e, h1) \<Longrightarrow> available h1 = available h"
  by (cases x)
     (auto split: prod.splits option.splits if_splits
        dest: Exists_available Insert_available AppendUnique_available NewChain_available)

lemma run_ops_available: "run_ops xs h = (e, h1) \<Longrightarrow> available h1 = available h"
proof (induction xs arbitrary: h)
  case Nil
  then show ?case by simp
next
  case (Cons x xs)
  then show ?case
    by (cases "exec x h") (auto simp del: exec.simps split: option.splits dest: exec_available)
qed

lemma active_after_empty:
  "active_after K version pods Map.empty = active_set (chain_names K version (set pods))"
  by (simp add: active_after_def active_set_def chain_names_def)

lemma sync_Return_cases:
  assumes "syncPodFirewallChains K npc ord ps version h = Return r e h'"
  shows "available h \<and>
         run_ops (all_ops K ps version (local_pod_list npc ord)) h = (e, h') \<and>
         r = (case e of None \<Rightarrow> Some (active_set (chain_names K version (snd ` set (fst (getLocalPods npc (nodeIP npc))))))
              | Some err \<Rightarrow> None)"
  using assms
  by (auto simp: syncPodFirewallChains_ops active_after_empty local_pod_list_set
        split: if_splits prod.splits option.splits)

lemma sync_from_ops:
  assumes "available h" "run_ops (all_ops K ps version (local_pod_list npc ord)) h = (e, h')"
  shows "syncPodFirewallChains K npc ord ps version h =
    Return (case e of None \<Rightarrow> Some (active_set (chain_names K version (snd ` set (fst (getLocalPods npc (nodeIP npc))))))
              | Some err \<Rightarrow> None) e h'"
  using assms
  by (auto simp: syncPodFirewallChains_ops active_after_empty local_pod_list_set
        split: if_splits prod.splits option.splits)

lemma entries_are_local_pods:
  "snd ` set (fst (getLocalPods npc n)) \<subseteq> snapshot ` {p \<in> set (podLister npc). qualifies n p}"
proof
  fix v
  assume "v \<in> snd ` set (fst (getLocalPods npc n))"
  then obtain k where "(k, v) \<in> set (fst (getLocalPods npc n))" by auto
  then have "map_of (fst (getLocalPods npc n)) k = Some v"
    using getLocalPods_distinct [of npc n] by simp
  then obtain q qs where qs: "filter (\<lambda>q. qualifies n q \<and> PodIP (Status q) = k) (podLister npc) = q # qs"
    and v: "v = snapshot (last (q # qs))"
    by (auto simp: getLocalPods_map_of split: list.splits)
  have "last (q # qs) \<in> set (filter (\<lambda>q. qualifies n q \<and> PodIP (Status q) = k) (podLister npc))"
    unfolding qs by (rule last_in_set) simp
  then have "last (q # qs) \<in> {p \<in> set (podLister npc). qualifies n p}" by simp
  with v show "v \<in> snapshot ` {p \<in> set (podLister npc). qualifies n p}" by blast
qed

lemma entries_distinct_addresses:
  assumes "distinct (map (\<lambda>q. PodIP (Status q)) (filter (\<lambda>q. PodIP (Status q) \<noteq> '''') (podLister npc)))"
  shows "snd ` set (fst (getLocalPods npc n)) = snapshot ` {p \<in> set (podLister npc). qualifies n p}"
proof
  show "snd ` set (fst (getLocalPods npc n)) \<subseteq> snapshot ` {p \<in> set (podLister npc). qualifies n p}"
    by (rule entries_are_local_pods)
  show "snapshot ` {p \<in> set (podLister npc). qualifies n p} \<subseteq> snd ` set (fst (getLocalPods npc n))"
  proof
    fix v
    assume "v \<in> snapshot ` {p \<in> set (podLister npc). qualifies n p}"
    then obtain p where p: "p \<in> set (podLister npc)" "qualifies n p" "v = snapshot p" by auto
    with assms have "contains_pod (fst (getLocalPods npc n)) p"
      by (simp add: contains_pod_distinct_addresses)
    with p show "v \<in> snd ` set (fst (getLocalPods npc n))" by (simp add: contains_pod_def)
  qed
qed

lemma chain_names_snapshot:
  "chain_names K version (snapshot ` P) = pod_chain K version ` P"
  by (auto simp: chain_names_def pod_chain_def snapshot_def image_iff)

theorem syncPodFirewallChains_active_set:
  assumes "syncPodFirewallChains K npc ord ps version h = Return r None h'"
  shows "r = Some (active_set (chain_names K version (snd ` set (fst (getLocalPods npc (nodeIP npc))))))
         \<and> (distinct (map (\<lambda>q. PodIP (Status q)) (filter (\<lambda>q. PodIP (Status q) \<noteq> '''') (podLister npc)))
              \<longrightarrow> r = Some (active_set (pod_chain K version ` local_pods npc)))"
proof -
  from sync_Return_cases [OF assms]
  have r: "r = Some (active_set (chain_names K version (snd ` set (fst (getLocalPods npc (nodeIP npc))))))"
    by simp
  moreover have "chain_names K version (snd ` set (fst (getLocalPods npc (nodeIP npc))))
        = pod_chain K version ` local_pods npc"
    if "distinct (map (\<lambda>q. PodIP (Status q)) (filter (\<lambda>q. PodIP (Status q) \<noteq> '''') (podLister npc)))"
    using entries_distinct_addresses [OF that, of "nodeIP npc"]
    by (simp add: chain_names_snapshot local_pods_def)
  ultimately show ?thesis by simp
qed

theorem syncPodFirewallChains_idempotent:
  assumes "faults h = []"
    and "syncPodFirewallChains K npc ord ps version h = Return r None h1"
  shows "syncPodFirewallChains K npc ord' ps version h1 = Return r None h1
         \<and> (distinct_chains h \<longrightarrow> distinct_chains h1)"
proof -
  from sync_Return_cases [OF assms(2)]
  have a: "available h"
    and run1: "run_ops (all_ops K ps version (local_pod_list npc ord)) h = (None, h1)"
    and r: "r = Some (active_set (chain_names K version (snd ` set (fst (getLocalPods npc (nodeIP npc))))))"
    by simp_all
  from run1 a have a1: "available h1" by (simp add: run_ops_available)
  have "set (local_pod_list npc ord') \<subseteq> set (local_pod_list npc ord)"
    by (simp add: local_pod_list_set)
  with assms(1) run1 have "run_ops (all_ops K ps version (local_pod_list npc ord')) h1 = (None, h1)"
    by (rule all_ops_second_run)
  with a1 have "syncPodFirewallChains K npc ord' ps version h1 = Return r None h1"
    by (simp add: sync_from_ops r)
  moreover have "distinct_chains h1" if "distinct_chains h"
    using assms(1) that run1 by (rule run_ops_distinct')
  ultimately show ?thesis by simp
qed

lemma syncPodFirewallChains_error:
  assumes "syncPodFirewallChains K npc ord ps version h = Return r (Some e) h'"
  shows "r = None \<and> (\<exists>m. e = Errorf (''Failed to run iptables command: '' @ m))"
proof -
  from sync_Return_cases [OF assms]
  have "run_ops (all_ops K ps version (local_pod_list npc ord)) h = (Some e, h')" and "r = None"
    by simp_all
  then show ?thesis using run_ops_error_wrapped by blast
qed

lemma tl_pod_ops_chains:
  "x \<in> set (tl (pod_ops K ps version pod)) \<Longrightarrow>
     chain_of x \<in> {podFirewallChainName K (namespace pod) (name pod) version,
                    kubeInputChainName K, kubeForwardChainName K, kubeOutputChainName K}"
  by (auto simp: pod_ops_def Let_def ingress_ops_def egress_ops_def inbound_ops_def outbound_ops_def
        drop_ops_def split: if_splits)

lemma grows_provisioned: "grows h h' \<Longrightarrow> provisioned K h \<Longrightarrow> provisioned K h'"
  by (auto simp: provisioned_def intro: grows_chain_exists)

lemma pod_ops_succeeds:
  assumes "faults h = []" "provisioned K h"
  shows "fst (run_ops (pod_ops K ps version pod) h) = None"
proof -
  let ?c = "podFirewallChainName K (namespace pod) (name pod) version"
  let ?h1 = "if chain_exists h ?c then h else add_chain ?c h"
  have e: "exec (NewChainOp ?c) h = (None, ?h1)"
    using assms(1) by (rule exec_NewChainOp_nofault)
  have f1: "faults ?h1 = []" using assms(1) by simp
  have c1: "chain_exists ?h1 ?c" by simp
  have "grows h ?h1" by (simp add: grows_add_chain)
  then have "provisioned K ?h1" using assms(2) by (rule grows_provisioned)
  with c1 have "\<forall>x\<in>set (tl (pod_ops K ps version pod)). chain_exists ?h1 (chain_of x)"
    using tl_pod_ops_chains [of _ K ps version pod] by (fastforce simp: provisioned_def)
  with f1 have "fst (run_ops (tl (pod_ops K ps version pod)) ?h1) = None"
    by (rule run_ops_chain_exists_success)
  with e show ?thesis
    by (subst pod_ops_Cons) (simp del: exec.simps)
qed

lemma all_ops_succeeds:
  assumes "faults h = []" "provisioned K h"
  shows "fst (run_ops (all_ops K ps version pods) h) = None"
  using assms
proof (induction pods arbitrary: h)
  case Nil
  then show ?case by (simp add: all_ops_def)
next
  case (Cons pod pods)
  obtain h1 where p: "run_ops (pod_ops K ps version pod) h = (None, h1)"
    using pod_ops_succeeds [OF Cons.prems, of ps version pod]
    by (cases "run_ops (pod_ops K ps version pod) h") simp
  from Cons.prems(1) p have f1: "faults h1 = []" by (rule run_ops_faults')
  from Cons.prems(1) p have "grows h h1" by (rule run_ops_grows')
  then have "provisioned K h1" using Cons.prems(2) by (rule grows_provisioned)
  with f1 have "fst (run_ops (all_ops K ps version pods) h1) = None" by (rule Cons.IH)
  with p show ?case by (simp add: all_ops_def run_ops_append)
qed

lemma syncPodFirewallChains_succeeds:
  assumes "available h" "faults h = []" "provisioned K h"
  shows "\<exists>h'. syncPodFirewallChains K npc ord ps version h =
           Return (Some (active_set (chain_names K version (snd ` set (fst (getLocalPods npc (nodeIP npc))))))) None h'"
proof -
  obtain h' where "run_ops (all_ops K ps version (local_pod_list npc ord)) h = (None, h')"
    using all_ops_succeeds [OF assms(2,3), of ps version "local_pod_list npc ord"]
    by (cases "run_ops (all_ops K ps version (local_pod_list npc ord)) h") simp
  with assms(1) show ?thesis by (auto simp: sync_from_ops)
qed

lemma set_rules_same: "chain_exists h c \<Longrightarrow> set_rules c (rules_of h c) h = h"
  by (cases "tables h (''filter'', c)")
     (auto simp: chain_exists_def set_rules_def rules_of_def fun_upd_idem)

lemma set_rules_twice [simp]: "set_rules c rs (set_rules c rs' h) = set_rules c rs h"
  by (simp add: set_rules_def)

lemma chain_exists_set_rules [simp]: "chain_exists (set_rules c rs h) c"
  by (simp add: chain_exists_def set_rules_def)

lemma exec_insert_fresh:
  assumes "faults h = []" "chain_exists h c"
  shows "exec (InsertOp t c r) h = (None, set_rules c (List.insert r (rules_of h c)) h)"
  using assms by (simp add: exec_InsertOp_nofault has_rule_def set_rules_same del: exec.simps)

lemma exec_append_fresh:
  assumes "faults h = []" "chain_exists h c" "x = AppendUniqueOp c r \<or> x = CheckedAppendOp c r"
  shows "exec x h = (None, set_rules c (append_new r (rules_of h c)) h)"
  using assms
  by (auto simp: exec_AppendUniqueOp_nofault exec_CheckedAppendOp_nofault has_rule_def set_rules_same
        append_new_def simp del: exec.simps)

lemma run_inserts:
  assumes "faults h = []" "chain_exists h c" "\<forall>x\<in>set xs. is_insert c x"
  shows "run_ops xs h = (None, set_rules c (fold List.insert (map rule_of xs) (rules_of h c)) h)"
  using assms
proof (induction xs arbitrary: h)
  case Nil
  then show ?case by (simp add: set_rules_same)
next
  case (Cons x xs)
  from Cons.prems(3) obtain t r where x: "x = InsertOp t c r"
    by (cases x) (auto simp: is_insert_def)
  let ?h1 = "set_rules c (List.insert r (rules_of h c)) h"
  have e: "exec x h = (None, ?h1)"
    unfolding x using Cons.prems(1,2) by (rule exec_insert_fresh)
  have "run_ops xs ?h1 = (None, set_rules c (fold List.insert (map rule_of xs) (rules_of ?h1 c)) ?h1)"
    using Cons.prems by (intro Cons.IH) simp_all
  with e show ?case by (simp add: x del: exec.simps)
qed

lemma run_appends:
  assumes "faults h = []" "chain_exists h c" "\<forall>x\<in>set xs. is_append c x"
  shows "run_ops xs h = (None, set_rules c (fold append_new (map rule_of xs) (rules_of h c)) h)"
  using assms
proof (induction xs arbitrary: h)
  case Nil
  then show ?case by (simp add: set_rules_same)
next
  case (Cons x xs)
  from Cons.prems(3) obtain r where x: "x = AppendUniqueOp c r \<or> x = CheckedAppendOp c r"
    by (cases x) (auto simp: is_append_def)
  then have ro: "rule_of x = r" by auto
  let ?h1 = "set_rules c (append_new r (rules_of h c)) h"
  have e: "exec x h = (None, ?h1)"
    using Cons.prems(1,2) x by (rule exec_append_fresh)
  have "run_ops xs ?h1 = (None, set_rules c (fold append_new (map rule_of xs) (rules_of ?h1 c)) ?h1)"
    using Cons.prems by (intro Cons.IH) simp_all
  with e show ?case by (simp add: ro del: exec.simps)
qed

lemma fold_insert_set: "set (fold List.insert xs ys) = set xs \<union> set ys"
  by (induction xs arbitrary: ys) auto

lemma fold_insert_distinct: "distinct ys \<Longrightarrow> distinct (fold List.insert xs ys)"
  by (induction xs arbitrary: ys) auto

lemma fold_append_new_set: "set (fold append_new xs ys) = set xs \<union> set ys"
  by (induction xs arbitrary: ys) (auto simp: append_new_def)

lemma fold_append_new_distinct: "distinct ys \<Longrightarrow> distinct (fold append_new xs ys)"
  by (induction xs arbitrary: ys) (auto simp: append_new_def)

lemma once_if_distinct:
  "distinct xs \<Longrightarrow> x \<in> set xs \<Longrightarrow> length (filter (\<lambda>y. y = x) xs) = 1"
  by (induction xs) (auto simp: filter_empty_conv)

lemma is_policy_jump_policyJump [simp]: "is_policy_jump (policyJump K version p)"
  by (simp add: is_policy_jump_def policyJump_def)

lemma not_policy_jump [simp]:
  "\<not> is_policy_jump (defaultIngressJump K pod)" "\<not> is_policy_jump (defaultEgressJump K pod)"
  "\<not> is_policy_jump (localNodeAllow pod)" "\<not> is_policy_jump statefulAllow"
  by (simp_all add: is_policy_jump_def defaultIngressJump_def defaultEgressJump_def localNodeAllow_def
        statefulAllow_def)

lemma default_jumps_differ [simp]:
  "defaultIngressJump K pod \<noteq> localNodeAllow pod'" "defaultIngressJump K pod \<noteq> statefulAllow"
  "defaultEgressJump K pod \<noteq> localNodeAllow pod'" "defaultEgressJump K pod \<noteq> statefulAllow"
  "defaultIngressJump K pod \<noteq> policyJump K' version p" "defaultEgressJump K pod \<noteq> policyJump K' version p"
  "localNodeAllow pod \<noteq> statefulAllow"
  by (simp_all add: defaultIngressJump_def defaultEgressJump_def localNodeAllow_def
        statefulAllow_def policyJump_def)

lemma ingress_ops_inserts: "\<forall>x\<in>set (ingress_ops K pod c ps version). is_insert c x"
  by (auto simp: ingress_ops_def is_insert_def)

lemma egress_ops_inserts: "\<forall>x\<in>set (egress_ops K pod c ps version). is_insert c x"
  by (auto simp: egress_ops_def is_insert_def)

lemma ingress_ops_rules:
  "map rule_of (ingress_ops K pod c ps version) =
     map (policyJump K version) (targeting pod ps)
     @ (if targeting pod ps = [] then [defaultIngressJump K pod] else [])
     @ [localNodeAllow pod, statefulAllow]"
  by (simp add: ingress_ops_def comp_def)

lemma egress_ops_rules:
  "map rule_of (egress_ops K pod c ps version) =
     map (policyJump K version) (targeting pod ps)
     @ (if targeting pod ps = [] then [defaultEgressJump K pod] else [])
     @ [statefulAllow]"
  by (simp add: egress_ops_def comp_def)

lemma fresh_chain:
  "tables h (''filter'', c) = Some [] \<Longrightarrow> chain_exists h c \<and> rules_of h c = []"
  by (simp add: chain_exists_def rules_of_def)

lemma setupPodIngressRules_fresh:
  assumes "faults h = []" "tables h (''filter'', c) = Some []"
  shows "setupPodIngressRules K pod c ps version h = (None, set_rules c (ingress_chain K pod ps version) h)"
  using run_inserts [OF assms(1) _ ingress_ops_inserts, of c K pod ps version] fresh_chain [OF assms(2)]
  by (simp add: setupPodIngressRules_ops ingress_ops_rules ingress_chain_def)

lemma ingress_chain_set:
  "set (ingress_chain K pod ps version) =
     policyJump K version ` set (targeting pod ps)
     \<union> (if targeting pod ps = [] then {defaultIngressJump K pod} else {})
     \<union> {localNodeAllow pod, statefulAllow}"
  by (auto simp: ingress_chain_def fold_insert_set)

lemma ingress_chain_distinct: "distinct (ingress_chain K pod ps version)"
  by (simp add: ingress_chain_def fold_insert_distinct)

lemma ingress_chain_policy_jumps:
  "set (filter is_policy_jump (ingress_chain K pod ps version)) = policyJump K version ` set (targeting pod ps)"
  by (auto simp: ingress_chain_set split: if_splits)

theorem setupPodIngressRules_complete:
  assumes "faults h = []" and "tables h (''filter'', chain) = Some []"
  shows "\<exists>h'. setupPodIngressRules K pod chain ps version h = (None, h')
     \<and> (targeting pod ps = [] \<longrightarrow>
           length (filter (\<lambda>r. r = defaultIngressJump K pod) (rules_of h' chain)) = 1
           \<and> filter is_policy_jump (rules_of h' chain) = [])
     \<and> (targeting pod ps \<noteq> [] \<longrightarrow>
           set (filter is_policy_jump (rules_of h' chain)) = policyJump K version ` set (targeting pod ps)
           \<and> (\<forall>p\<in>set (targeting pod ps).
                 length (filter (\<lambda>r. r = policyJump K version p) (rules_of h' chain)) = 1)
           \<and> defaultIngressJump K pod \<notin> set (rules_of h' chain)
           \<and> (distinct (map (policyJump K version) (targeting pod ps)) \<longrightarrow>
                 length (filter is_policy_jump (rules_of h' chain)) = length (targeting pod ps)))"
proof -
  let ?R = "ingress_chain K pod ps version"
  let ?T = "targeting pod ps"
  have d: "distinct ?R" by (rule ingress_chain_distinct)
  have run: "setupPodIngressRules K pod chain ps version h = (None, set_rules chain ?R h)"
    using assms by (rule setupPodIngressRules_fresh)
  have none: "length (filter (\<lambda>r. r = defaultIngressJump K pod) ?R) = 1 \<and> filter is_policy_jump ?R = []"
    if "?T = []"
  proof -
    have "defaultIngressJump K pod \<in> set ?R" using that by (simp add: ingress_chain_set)
    with d have "length (filter (\<lambda>r. r = defaultIngressJump K pod) ?R) = 1" by (rule once_if_distinct)
    moreover have "set (filter is_policy_jump ?R) = {}"
      using that by (simp only: ingress_chain_policy_jumps) simp
    ultimately show ?thesis by simp
  qed
  have some: "set (filter is_policy_jump ?R) = policyJump K version ` set ?T
      \<and> (\<forall>p\<in>set ?T. length (filter (\<lambda>r. r = policyJump K version p) ?R) = 1)
      \<and> defaultIngressJump K pod \<notin> set ?R
      \<and> (distinct (map (policyJump K version) ?T) \<longrightarrow> length (filter is_policy_jump ?R) = length ?T)"
    if "?T \<noteq> []"
  proof (intro conjI ballI impI)
    show "set (filter is_policy_jump ?R) = policyJump K version ` set ?T"
      by (rule ingress_chain_policy_jumps)
    show "length (filter (\<lambda>r. r = policyJump K version p) ?R) = 1" if "p \<in> set ?T" for p
    proof -
      from that have "policyJump K version p \<in> set ?R" by (simp add: ingress_chain_set)
      with d show ?thesis by (rule once_if_distinct)
    qed
    show "defaultIngressJump K pod \<notin> set ?R"
      using that by (auto simp: ingress_chain_set)
    show "length (filter is_policy_jump ?R) = length ?T" if dt: "distinct (map (policyJump K version) ?T)"
    proof -
      from d have "distinct (filter is_policy_jump ?R)" by simp
      then have "length (filter is_policy_jump ?R) = card (set (filter is_policy_jump ?R))"
        by (rule distinct_card [symmetric])
      also have "\<dots> = card (set (map (policyJump K version) ?T))"
        by (simp only: ingress_chain_policy_jumps set_map)
      also have "\<dots> = length ?T" using dt by (simp only: distinct_card length_map)
      finally show ?thesis .
    qed
  qed
  from run none some show ?thesis by simp
qed

lemma setupPodEgressRules_fresh:
  assumes "faults h = []" "tables h (''filter'', c) = Some []"
  shows "setupPodEgressRules K pod c ps version h = (None, set_rules c (egress_chain K pod ps version) h)"
  using run_inserts [OF assms(1) _ egress_ops_inserts, of c K pod ps version] fresh_chain [OF assms(2)]
  by (simp add: setupPodEgressRules_ops egress_ops_rules egress_chain_def)

lemmas default_jumps_differ' [simp] = default_jumps_differ [symmetric]

lemma policy_jumps_all: "\<forall>r\<in>set (policy_jumps K pod ps version). is_policy_jump r"
  by (auto simp: policy_jumps_def fold_insert_set)

lemma filter_all: "\<forall>x\<in>set xs. P x \<Longrightarrow> filter P xs = xs"
  by (induction xs) auto

lemma ingress_chain_jumps:
  "filter is_policy_jump (ingress_chain K pod ps version) = policy_jumps K pod ps version"
proof -
  let ?J = "policy_jumps K pod ps version"
  have n: "localNodeAllow pod \<notin> set ?J" "statefulAllow \<notin> set ?J" "defaultIngressJump K pod \<notin> set ?J"
    using policy_jumps_all [of K pod ps version] by auto
  have "ingress_chain K pod ps version =
     statefulAllow # localNodeAllow pod # (if targeting pod ps = [] then [defaultIngressJump K pod] else []) @ ?J"
    using n by (auto simp: ingress_chain_def policy_jumps_def)
  then show ?thesis
    using policy_jumps_all [of K pod ps version] by (simp add: filter_all)
qed

lemma egress_chain_jumps:
  "filter is_policy_jump (egress_chain K pod ps version) = policy_jumps K pod ps version"
proof -
  let ?J = "policy_jumps K pod ps version"
  have n: "statefulAllow \<notin> set ?J" "defaultEgressJump K pod \<notin> set ?J"
    using policy_jumps_all [of K pod ps version] by auto
  have "egress_chain K pod ps version =
     statefulAllow # (if targeting pod ps = [] then [defaultEgressJump K pod] else []) @ ?J"
    using n by (auto simp: egress_chain_def policy_jumps_def)
  then show ?thesis
    using policy_jumps_all [of K pod ps version] by (simp add: filter_all)
qed

lemma has_rule_set_rules [simp]: "has_rule (set_rules c rs h) c r \<longleftrightarrow> r \<in> set rs"
  by (simp add: has_rule_def)

theorem egress_shares_ingress_jumps:
  assumes "faults h = []" and "tables h (''filter'', chain) = Some []" and "targeting pod ps \<noteq> []"
  shows "\<exists>h1. setupPodIngressRules K pod chain ps version h = (None, h1)
     \<and> setupPodEgressRules K pod chain ps version h1 = (None, h1)
     \<and> (\<forall>p\<in>set (targeting pod ps).
           length (filter (\<lambda>r. r = policyJump K version p) (rules_of h1 chain)) = 1)
     \<and> set (filter is_policy_jump (rules_of h1 chain)) = policyJump K version ` set (targeting pod ps)
     \<and> defaultIngressJump K pod \<notin> set (rules_of h1 chain)
     \<and> defaultEgressJump K pod \<notin> set (rules_of h1 chain)
     \<and> filter is_policy_jump (rules_of (snd (setupPodEgressRules K pod chain ps version h)) chain)
         = filter is_policy_jump (rules_of (snd (setupPodIngressRules K pod chain ps version h)) chain)"
proof -
  let ?R = "ingress_chain K pod ps version"
  let ?h1 = "set_rules chain ?R h"
  have d: "distinct ?R" by (rule ingress_chain_distinct)
  have run: "setupPodIngressRules K pod chain ps version h = (None, ?h1)"
    using assms(1,2) by (rule setupPodIngressRules_fresh)
  have f1: "faults ?h1 = []" using assms(1) by simp
  have "\<forall>x\<in>set (egress_ops K pod chain ps version). sat ?h1 x"
    using assms(3) by (auto simp: egress_ops_def ingress_chain_set)
  with f1 have "run_ops (egress_ops K pod chain ps version) ?h1 = (None, ?h1)"
    by (rule run_ops_sat_noop)
  then have eg: "setupPodEgressRules K pod chain ps version ?h1 = (None, ?h1)"
    by (simp add: setupPodEgressRules_ops)
  have once: "length (filter (\<lambda>r. r = policyJump K version p) ?R) = 1" if "p \<in> set (targeting pod ps)" for p
  proof -
    from that have "policyJump K version p \<in> set ?R" by (simp add: ingress_chain_set)
    with d show ?thesis by (rule once_if_distinct)
  qed
  have nodef: "defaultIngressJump K pod \<notin> set ?R" "defaultEgressJump K pod \<notin> set ?R"
    using assms(3) by (auto simp: ingress_chain_set)
  have same: "filter is_policy_jump (rules_of (snd (setupPodEgressRules K pod chain ps version h)) chain)
         = filter is_policy_jump (rules_of (snd (setupPodIngressRules K pod chain ps version h)) chain)"
    using assms(1,2)
    by (simp add: setupPodEgressRules_fresh setupPodIngressRules_fresh ingress_chain_jumps egress_chain_jumps)
  have jm: "{x \<in> set ?R. is_policy_jump x} = policyJump K version ` set (targeting pod ps)"
    using ingress_chain_policy_jumps [of K pod ps version] by simp
  from run eg once nodef same jm show ?thesis
    by simp
qed

lemma drop_ops_appends: "\<forall>x\<in>set (drop_ops podName podNamespace c). is_append c x"
  by (simp add: drop_ops_def is_append_def)

lemma dropUnmarkedTrafficRules_nofault:
  assumes "faults h = []" "chain_exists h c"
  shows "dropUnmarkedTrafficRules podName podNamespace c h =
           (None, set_rules c (append_new (rejectRule podName podNamespace)
                     (append_new (logRule podName podNamespace) (rules_of h c))) h)"
  using run_appends [OF assms drop_ops_appends, of podName podNamespace]
  by (simp add: dropUnmarkedTrafficRules_ops drop_ops_def)

lemma dropUnmarkedTrafficRules_chain_exists:
  assumes "faults h = []" "dropUnmarkedTrafficRules podName podNamespace c h = (None, h1)"
  shows "chain_exists h c"
proof (rule ccontr)
  assume "\<not> chain_exists h c"
  with assms(1) have "exec (AppendUniqueOp c (logRule podName podNamespace)) h = (Some no_such_chain, h)"
    by (simp add: exec_AppendUniqueOp_nofault del: exec.simps)
  then have "dropUnmarkedTrafficRules podName podNamespace c h = (Some no_such_chain, h)"
    by (simp add: dropUnmarkedTrafficRules_ops drop_ops_def del: exec.simps)
  with assms(2) show False by simp
qed

theorem dropUnmarkedTrafficRules_second_call:
  assumes "faults h = []"
    and "dropUnmarkedTrafficRules podName podNamespace chain h = (None, h1)"
  shows "dropUnmarkedTrafficRules podName podNamespace chain h1 = (None, h1)
     \<and> (distinct (rules_of h chain) \<longrightarrow>
           length (filter (\<lambda>r. r = logRule podName podNamespace) (rules_of h1 chain)) = 1
           \<and> length (filter (\<lambda>r. r = rejectRule podName podNamespace) (rules_of h1 chain)) = 1)"
proof -
  let ?R = "append_new (rejectRule podName podNamespace)
              (append_new (logRule podName podNamespace) (rules_of h chain))"
  from assms have c: "chain_exists h chain" by (rule dropUnmarkedTrafficRules_chain_exists)
  with assms have h1: "h1 = set_rules chain ?R h"
    by (simp add: dropUnmarkedTrafficRules_nofault)
  have f1: "faults h1 = []" using assms(1) by (simp add: h1)
  have "\<forall>x\<in>set (drop_ops podName podNamespace chain). sat h1 x"
    by (auto simp: drop_ops_def h1 append_new_def)
  with f1 have "run_ops (drop_ops podName podNamespace chain) h1 = (None, h1)"
    by (rule run_ops_sat_noop)
  then have again: "dropUnmarkedTrafficRules podName podNamespace chain h1 = (None, h1)"
    by (simp add: dropUnmarkedTrafficRules_ops)
  have once: "length (filter (\<lambda>r. r = logRule podName podNamespace) (rules_of h1 chain)) = 1
           \<and> length (filter (\<lambda>r. r = rejectRule podName podNamespace) (rules_of h1 chain)) = 1"
    if "distinct (rules_of h chain)"
  proof -
    from that have "distinct ?R" by (auto simp: append_new_def)
    moreover have "logRule podName podNamespace \<in> set ?R" "rejectRule podName podNamespace \<in> set ?R"
      by (auto simp: append_new_def)
    ultimately show ?thesis by (simp add: h1 once_if_distinct)
  qed
  from again once show ?thesis by simp
qed

theorem setupPodIngressRules_complete_witness:
  "(\<exists>h'. setupPodIngressRules ex_package ex_pod ''KUBE-POD-FW-EXAMPLE''
            [ex_policy ''allow-web'' ''10.244.1.5'', ex_policy ''allow-db'' ''10.244.2.7'',
             ex_policy ''allow-metrics'' ''10.244.1.5''] ''1'' ex_fresh = (None, h')
      \<and> length (filter is_policy_jump (rules_of h' ''KUBE-POD-FW-EXAMPLE'')) = 2
      \<and> defaultIngressJump ex_package ex_pod \<notin> set (rules_of h' ''KUBE-POD-FW-EXAMPLE''))
   \<and> (\<exists>h'. setupPodIngressRules ex_package ex_pod ''KUBE-POD-FW-EXAMPLE''
            [ex_policy ''allow-db'' ''10.244.2.7''] ''1'' ex_fresh = (None, h')
      \<and> length (filter (\<lambda>r. r = defaultIngressJump ex_package ex_pod) (rules_of h' ''KUBE-POD-FW-EXAMPLE'')) = 1
      \<and> filter is_policy_jump (rules_of h' ''KUBE-POD-FW-EXAMPLE'') = [])"
proof -
  let ?c = "''KUBE-POD-FW-EXAMPLE''"
  let ?web = "ex_policy ''allow-web'' ''10.244.1.5''"
  let ?db = "ex_policy ''allow-db'' ''10.244.2.7''"
  let ?metrics = "ex_policy ''allow-metrics'' ''10.244.1.5''"
  have f: "faults ex_fresh = []" and fr: "tables ex_fresh (''filter'', ?c) = Some []"
    by (simp_all add: ex_fresh_def)
  have T1: "targeting ex_pod [?web, ?db, ?metrics] = [?web, ?metrics]"
    and T2: "targeting ex_pod [?db] = []"
    by (simp_all add: targeting_def ex_pod_def ex_policy_def)
  have d: "distinct (map (policyJump ex_package ''1'') [?web, ?metrics])"
    by (simp add: policyJump_def ex_policy_def)
  note A = setupPodIngressRules_complete [OF f fr, of ex_package ex_pod "[?web, ?db, ?metrics]" "''1''", unfolded T1]
  note B = setupPodIngressRules_complete [OF f fr, of ex_package ex_pod "[?db]" "''1''", unfolded T2]
  from A d have "\<exists>h'. setupPodIngressRules ex_package ex_pod ?c [?web, ?db, ?metrics] ''1'' ex_fresh = (None, h')
      \<and> length (filter is_policy_jump (rules_of h' ?c)) = 2
      \<and> defaultIngressJump ex_package ex_pod \<notin> set (rules_of h' ?c)"
    by auto
  moreover from B have "\<exists>h'. setupPodIngressRules ex_package ex_pod ?c [?db] ''1'' ex_fresh = (None, h')
      \<and> length (filter (\<lambda>r. r = defaultIngressJump ex_package ex_pod) (rules_of h' ?c)) = 1
      \<and> filter is_policy_jump (rules_of h' ?c) = []"
    by auto
  ultimately show ?thesis by simp
qed

theorem egress_shares_ingress_jumps_witness:
  "\<exists>h1. setupPodIngressRules ex_package ex_pod ''KUBE-POD-FW-EXAMPLE''
            [ex_policy ''allow-web'' ''10.244.1.5'', ex_policy ''allow-db'' ''10.244.2.7''] ''1'' ex_fresh = (None, h1)
      \<and> setupPodEgressRules ex_package ex_pod ''KUBE-POD-FW-EXAMPLE''
            [ex_policy ''allow-web'' ''10.244.1.5'', ex_policy ''allow-db'' ''10.244.2.7''] ''1'' h1 = (None, h1)
      \<and> length (filter (\<lambda>r. r = policyJump ex_package ''1'' (ex_policy ''allow-web'' ''10.244.1.5''))
                  (rules_of h1 ''KUBE-POD-FW-EXAMPLE'')) = 1
      \<and> defaultIngressJump ex_package ex_pod \<notin> set (rules_of h1 ''KUBE-POD-FW-EXAMPLE'')
      \<and> defaultEgressJump ex_package ex_pod \<notin> set (rules_of h1 ''KUBE-POD-FW-EXAMPLE'')"
proof -
  let ?c = "''KUBE-POD-FW-EXAMPLE''"
  let ?web = "ex_policy ''allow-web'' ''10.244.1.5''"
  let ?db = "ex_policy ''allow-db'' ''10.244.2.7''"
  have f: "faults ex_fresh = []" and fr: "tables ex_fresh (''filter'', ?c) = Some []"
    by (simp_all add: ex_fresh_def)
  have T: "targeting ex_pod [?web, ?db] = [?web]"
    by (simp add: targeting_def ex_pod_def ex_policy_def)
  then have ne: "targeting ex_pod [?web, ?db] \<noteq> []" by simp
  note A = egress_shares_ingress_jumps [OF f fr ne, of ex_package "''1''", unfolded T]
  from A show ?thesis by auto
qed

lemma ex_host_ready: "available ex_host" "faults ex_host = []" "provisioned ex_package ex_host"
  by (simp_all add: ex_host_def provisioned_def chain_exists_def ex_package_def)

theorem syncPodFirewallChains_idempotent_witness:
  "\<exists>r h1. syncPodFirewallChains ex_package (ex_npc ex_cache) []
              [ex_policy ''allow-web'' ''10.244.1.5''] ''1'' ex_host = Return r None h1
     \<and> syncPodFirewallChains ex_package (ex_npc ex_cache) [''10.244.1.5'']
              [ex_policy ''allow-web'' ''10.244.1.5''] ''1'' h1 = Return r None h1
     \<and> distinct_chains h1"
proof -
  obtain r h1 where first: "syncPodFirewallChains ex_package (ex_npc ex_cache) []
              [ex_policy ''allow-web'' ''10.244.1.5''] ''1'' ex_host = Return r None h1"
    using syncPodFirewallChains_succeeds [OF ex_host_ready] by blast
  have "distinct_chains ex_host" by (simp add: distinct_chains_def ex_host_def)
  with syncPodFirewallChains_idempotent [OF ex_host_ready(2) first, of "[''10.244.1.5'']"] first
  show ?thesis by blast
qed

theorem syncPodFirewallChains_active_set_witness:
  "\<exists>h'. syncPodFirewallChains ex_package (ex_npc ex_cache) [] [ex_policy ''allow-web'' ''10.244.1.5''] ''1'' ex_host
      = Return (Some (active_set {podFirewallChainName ex_package ''default'' ''web'' ''1''})) None h'"
proof -
  obtain r h' where run: "syncPodFirewallChains ex_package (ex_npc ex_cache) []
              [ex_policy ''allow-web'' ''10.244.1.5''] ''1'' ex_host = Return r None h'"
    using syncPodFirewallChains_succeeds [OF ex_host_ready] by blast
  have l: "local_pods (ex_npc ex_cache) = {mkPod ''default'' ''web'' ''Running'' ''10.0.0.1'' ''10.244.1.5''}"
    by (auto simp: local_pods_def ex_npc_def ex_cache_def qualifies_def mkPod_def)
  have dist: "distinct (map (\<lambda>q. PodIP (Status q))
      (filter (\<lambda>q. PodIP (Status q) \<noteq> '''') (podLister (ex_npc ex_cache))))"
    by (simp add: ex_npc_def ex_cache_def mkPod_def)
  have pc: "pod_chain ex_package ''1'' (mkPod ''default'' ''web'' ''Running'' ''10.0.0.1'' ''10.244.1.5'')
      = podFirewallChainName ex_package ''default'' ''web'' ''1''"
    by (simp add: pod_chain_def mkPod_def)
  from syncPodFirewallChains_active_set [OF run] dist
  have "r = Some (active_set (pod_chain ex_package ''1'' ` local_pods (ex_npc ex_cache)))" by blast
  then have "r = Some (active_set {podFirewallChainName ex_package ''default'' ''web'' ''1''})"
    by (simp only: l image_insert image_empty pc)
  with run show ?thesis by blast
qed

theorem dropUnmarkedTrafficRules_second_call_witness:
  "dropUnmarkedTrafficRules ''web'' ''default'' ''KUBE-POD-FW-EXAMPLE''
      (set_rules ''KUBE-POD-FW-EXAMPLE'' [logRule ''web'' ''default'', rejectRule ''web'' ''default''] ex_fresh)
    = (None, set_rules ''KUBE-POD-FW-EXAMPLE'' [logRule ''web'' ''default'', rejectRule ''web'' ''default''] ex_fresh)
   \<and> length (filter (\<lambda>r. r = logRule ''web'' ''default'')
        (rules_of (set_rules ''KUBE-POD-FW-EXAMPLE'' [logRule ''web'' ''default'', rejectRule ''web'' ''default''] ex_fresh)
           ''KUBE-POD-FW-EXAMPLE'')) = 1"
proof -
  have c: "chain_exists ex_fresh ''KUBE-POD-FW-EXAMPLE''" "faults ex_fresh = []"
    "rules_of ex_fresh ''KUBE-POD-FW-EXAMPLE'' = []"
    by (simp_all add: ex_fresh_def chain_exists_def rules_of_def)
  have ne: "logRule ''web'' ''default'' \<noteq> rejectRule ''web'' ''default''"
    by (simp add: logRule_def rejectRule_def)
  have first: "dropUnmarkedTrafficRules ''web'' ''default'' ''KUBE-POD-FW-EXAMPLE'' ex_fresh
      = (None, set_rules ''KUBE-POD-FW-EXAMPLE'' [logRule ''web'' ''default'', rejectRule ''web'' ''default''] ex_fresh)"
    using ne by (simp add: dropUnmarkedTrafficRules_nofault c append_new_def)
  from dropUnmarkedTrafficRules_second_call [OF c(2) first] c(3) show ?thesis by simp
qed

theorem dropUnmarkedTrafficRules_no_duplicates_counterexample:
  "rules_of (snd (dropUnmarkedTrafficRules ''web'' ''default'' ''KUBE-POD-FW-EXAMPLE''
       (snd (dropUnmarkedTrafficRules ''web'' ''default'' ''KUBE-POD-FW-EXAMPLE'' ex_fresh))))
     ''KUBE-POD-FW-EXAMPLE''
   = [logRule ''web'' ''default'', rejectRule ''web'' ''default'']"
proof -
  have c: "chain_exists ex_fresh ''KUBE-POD-FW-EXAMPLE''" "faults ex_fresh = []"
    "rules_of ex_fresh ''KUBE-POD-FW-EXAMPLE'' = []"
    by (simp_all add: ex_fresh_def chain_exists_def rules_of_def)
  have ne: "logRule ''web'' ''default'' \<noteq> rejectRule ''web'' ''default''"
    by (simp add: logRule_def rejectRule_def)
  show ?thesis
    using ne by (simp add: dropUnmarkedTrafficRules_nofault c append_new_def)
qed

lemma replicate_numeral: "replicate (numeral n) x = x # replicate (pred_numeral n) x"
  by (simp add: numeral_eq_Suc)

lemmas sha256_round_defs =
  next_word_def rotr_def Ch_def Maj_def Sigma0_def Sigma1_def sigma0_def sigma1_def

lemma K256_chunks:
  "K256 =
     [0x428a2f98, 0x71374491, 0xb5c0fbcf, 0xe9b5dba5, 0x3956c25b, 0x59f111f1, 0x923f82a4, 0xab1c5ed5]
   @ [0xd807aa98, 0x12835b01, 0x243185be, 0x550c7dc3, 0x72be5d74, 0x80deb1fe, 0x9bdc06a7, 0xc19bf174]
   @ [0xe49b69c1, 0xefbe4786, 0x0fc19dc6, 0x240ca1cc, 0x2de92c6f, 0x4a7484aa, 0x5cb0a9dc, 0x76f988da]
   @ [0x983e5152, 0xa831c66d, 0xb00327c8, 0xbf597fc7, 0xc6e00bf3, 0xd5a79147, 0x06ca6351, 0x14292967]
   @ [0x27b70a85, 0x2e1b2138, 0x4d2c6dfc, 0x53380d13, 0x650a7354, 0x766a0abb, 0x81c2c92e, 0x92722c85]
   @ [0xa2bfe8a1, 0xa81a664b, 0xc24b8b70, 0xc76c51a3, 0xd192e819, 0xd6990624, 0xf40e3585, 0x106aa070]
   @ [0x19a4c116, 0x1e376c08, 0x2748774c, 0x34b0bcb5, 0x391c0cb3, 0x4ed8aa4a, 0x5b9cca4f, 0x682e6ff3]
   @ [0x748f82ee, 0x78a5636f, 0x84c87814, 0x8cc70208, 0x90befffa, 0xa4506ceb, 0xbef9a3f7, 0xc67178f2]"
  by (simp add: K256_def)

lemma proxy_block:
  "be_words (pad (bytes ''kube-systemkube-proxy1'')) =
     [1802855013, 762542451, 1952804203, 1969382701, 1886547832, 2033287168, 0, 0, 0, 0, 0, 0, 0,
      0, 0, 176]"
  by (simp add: pad_def bytes_def len_bytes_def replicate_numeral)

lemma proxy_rounds_1:
  "foldl step256
     ((1779033703, 3144134277, 1013904242, 2773480762, 1359893119, 2600822924, 528734635,
       1541459225),
      [1802855013, 762542451, 1952804203, 1969382701, 1886547832, 2033287168, 0, 0, 0, 0, 0, 0, 0,
       0, 0, 176])
     [1116352408, 1899447441, 3049323471, 3921009573, 961987163, 1508970993, 2453635748,
      2870763221] =
     ((2149124579, 1284731597, 1786292346, 3455986413, 192566117, 2550125150, 1336915473,
       2217060653),
      [0, 0, 0, 0, 0, 0, 0, 176, 2837292261, 2969580513, 2822203750, 4197697798, 972835211,
       382643885, 2918876547, 732184314])"
  by (simp add: sha256_round_defs)

lemma proxy_rounds_2:
  "foldl step256
     ((2149124579, 1284731597, 1786292346, 3455986413, 192566117, 2550125150, 1336915473,
       2217060653),
      [0, 0, 0, 0, 0, 0, 0, 176, 2837292261, 2969580513, 2822203750, 4197697798, 972835211,
       382643885, 2918876547, 732184314])
     [3624381080, 310598401, 607225278, 1426881987, 1925078388, 2162078206, 2614888103, 3248222580] =
     ((199542084, 1229338186, 3285422143, 2338818832, 2030671651, 2475828700, 2125517526,
       3436550265),
      [2837292261, 2969580513, 2822203750, 4197697798, 972835211, 382643885, 2918876547,
       732184314, 3277525444, 1088430863, 3843946504, 1341307375, 1510660096, 3117692972,
       3269911555, 367113956])"
  by (simp add: sha256_round_defs)

lemma proxy_rounds_3:
  "foldl step256
     ((199542084, 1229338186, 3285422143, 2338818832, 2030671651, 2475828700, 2125517526,
       3436550265),
      [2837292261, 2969580513, 2822203750, 4197697798, 972835211, 382643885, 2918876547,
       732184314, 3277525444, 1088430863, 3843946504, 1341307375, 1510660096, 3117692972,
       3269911555, 367113956])
     [3835390401, 4022224774, 264347078, 604807628, 770255983, 1249150122, 1555081692, 1996064986] =
     ((424442337, 368206815, 2593971490, 983104391, 306123524, 3089834505, 4071419090, 3004750534),
      [3277525444, 1088430863, 3843946504, 1341307375, 1510660096, 3117692972, 3269911555,
       367113956, 1919505125, 2245608957, 1548767424, 3788334313, 161398952, 2886443259,
       2059199486, 2549356568])"
  by (simp add: sha256_round_defs)

lemma proxy_rounds_4:
  "foldl step256
     ((424442337, 368206815, 2593971490, 983104391, 306123524, 3089834505, 4071419090, 3004750534),
      [3277525444, 1088430863, 3843946504, 1341307375, 1510660096, 3117692972, 3269911555,
       367113956, 1919505125, 2245608957, 1548767424, 3788334313, 161398952, 2886443259,
       2059199486, 2549356568])
     [2554220882, 2821834349, 2952996808, 3210313671, 3336571891, 3584528711, 113926993, 338241895] =
     ((735021588, 840713471, 2091244624, 1055793568, 2705102991, 3672515756, 1917723567, 616550473),
      [1919505125, 2245608957, 1548767424, 3788334313, 161398952, 2886443259, 2059199486,
       2549356568, 1429260561, 2680608135, 3183839919, 3353059447, 3129332275, 2138041369,
       1434122314, 112422905])"
  by (simp add: sha256_round_defs)

lemma proxy_rounds_5:
  "foldl step256
     ((735021588, 840713471, 2091244624, 1055793568, 2705102991, 3672515756, 1917723567, 616550473),
      [1919505125, 2245608957, 1548767424, 3788334313, 161398952, 2886443259, 2059199486,
       2549356568, 1429260561, 2680608135, 3183839919, 3353059447, 3129332275, 2138041369,
       1434122314, 112422905])
     [666307205, 773529912, 1294757372, 1396182291, 1695183700, 1986661051, 2177026350, 2456956037] =
     ((1058552250, 2962950023, 1144133702, 315017772, 2189679769, 4011715347, 534178722, 1808398614),
      [1429260561, 2680608135, 3183839919, 3353059447, 3129332275, 2138041369, 1434122314,
       112422905, 4030292570, 3164839341, 1481009057, 984244273, 2468924367, 1223959796,
       604148872, 963393755])"
  by (simp add: sha256_round_defs)

lemma proxy_rounds_6:
  "foldl step256
     ((1058552250, 2962950023, 1144133702, 315017772, 2189679769, 4011715347, 534178722, 1808398614),
      [1429260561, 2680608135, 3183839919, 3353059447, 3129332275, 2138041369, 1434122314,
       112422905, 4030292570, 3164839341, 1481009057, 984244273, 2468924367, 1223959796,
       604148872, 963393755])
     [2730485921, 2820302411, 3259730800, 3345764771, 3516065817, 3600352804, 4094571909,
      275423344] =
     ((1830889463, 3687328370, 2608682749, 371652845, 3423299534, 1114334300, 76149548, 2777568708),
      [4030292570, 3164839341, 1481009057, 984244273, 2468924367, 1223959796, 604148872,
       963393755, 3562483148, 3186537198, 2336490242, 4004757103, 1263745649, 1816880808,
       2993738686, 2920720827])"
  by (simp add: sha256_round_defs)

lemma proxy_rounds_7:
  "foldl step256
     ((1830889463, 3687328370, 2608682749, 371652845, 3423299534, 1114334300, 76149548, 2777568708),
      [4030292570, 3164839341, 1481009057, 984244273, 2468924367, 1223959796, 604148872,
       963393755, 3562483148, 3186537198, 2336490242, 4004757103, 1263745649, 1816880808,
       2993738686, 2920720827])
     [430227734, 506948616, 659060556, 883997877, 958139571, 1322822218, 1537002063, 1747873779] =
     ((1155369918, 101081608, 3525474317, 151328810, 2055256368, 4222000384, 4262834426, 1810698605),
      [3562483148, 3186537198, 2336490242, 4004757103, 1263745649, 1816880808, 2993738686,
       2920720827, 3442639920, 2583223868, 1456713754, 3131959482, 2520942272, 4138989795,
       2770376892, 3527435635])"
  by (simp add: sha256_round_defs)

lemma proxy_rounds_8:
  "foldl step256
     ((1155369918, 101081608, 3525474317, 151328810, 2055256368, 4222000384, 4262834426, 1810698605),
      [3562483148, 3186537198, 2336490242, 4004757103, 1263745649, 1816880808, 2993738686,
       2920720827, 3442639920, 2583223868, 1456713754, 3131959482, 2520942272, 4138989795,
       2770376892, 3527435635])
     [1955562222, 2024104815, 2227730452, 2361852424, 2428436474, 2756734187, 3204031479,
      3329325298] =
     ((2764299227, 2079615391, 1223621181, 3259917844, 705305401, 725862068, 3669801253, 910846268),
      [3442639920, 2583223868, 1456713754, 3131959482, 2520942272, 4138989795, 2770376892,
       3527435635, 875445853, 1738805552, 1282084342, 889106239, 2925136345, 4087781883,
       2476589430, 1534287067])"
  by (simp add: sha256_round_defs)

lemma proxy_compress:
  "compress init256
     [1802855013, 762542451, 1952804203, 1969382701, 1886547832, 2033287168, 0, 0, 0, 0, 0, 0, 0,
      0, 0, 176] =
     (248365634, 928782372, 2237525423, 1738431310, 2065198520, 3326684992, 4198535888, 2452305493)"
  unfolding compress_def K256_chunks foldl_append init256_def
  by (simp only: proxy_rounds_1 proxy_rounds_2 proxy_rounds_3 proxy_rounds_4 proxy_rounds_5 proxy_rounds_6 proxy_rounds_7 proxy_rounds_8) simp

lemma proxy_digest:
  "Sum256 (bytes ''kube-systemkube-proxy1'') =
     [14, 205, 194, 66, 55, 92, 24, 36, 133, 93, 237, 175, 103, 158, 91, 78, 123, 24, 109, 184,
      198, 73, 47, 64, 250, 64, 146, 208, 146, 43, 54, 85]"
  by (simp add: Sum256_def proxy_block proxy_compress word_bytes_def)

lemma proxy_chain_name:
  "podFirewallChainName ex_package ''kube-system'' ''kube-proxy'' ''1'' = ''KUBE-POD-FW-B3G4EQRXLQMCJBK5''"
  by (simp add: podFirewallChainName_def proxy_digest quantum_def quantum_chars_def encodeStd_def ex_package_def)

lemma router_block:
  "be_words (pad (bytes ''kube-systemkube-router1'')) =
     [1802855013, 762542451, 1952804203, 1969382701, 1919907188, 1701982592, 0, 0, 0, 0, 0, 0, 0,
      0, 0, 184]"
  by (simp add: pad_def bytes_def len_bytes_def replicate_numeral)

lemma router_rounds_1:
  "foldl step256
     ((1779033703, 3144134277, 1013904242, 2773480762, 1359893119, 2600822924, 528734635,
       1541459225),
      [1802855013, 762542451, 1952804203, 1969382701, 1919907188, 1701982592, 0, 0, 0, 0, 0, 0, 0,
       0, 0, 184])
     [1116352408, 1899447441, 3049323471, 3921009573, 961987163, 1508970993, 2453635748,
      2870763221] =
     ((3050704997, 517051492, 1669431212, 3489345769, 3827357972, 3401812281, 218088168, 2250420009),
      [0, 0, 0, 0, 0, 0, 0, 184, 2837292261, 2969383905, 2822203750, 4042744633, 1277803850,
       3275369789, 3911149238, 4230429782])"
  by (simp add: sha256_round_defs)

lemma router_rounds_2:
  "foldl step256
     ((3050704997, 517051492, 1669431212, 3489345769, 3827357972, 3401812281, 218088168, 2250420009),
      [0, 0, 0, 0, 0, 0, 0, 184, 2837292261, 2969383905, 2822203750, 4042744633, 1277803850,
       3275369789, 3911149238, 4230429782])
     [3624381080, 310598401, 607225278, 1426881987, 1925078388, 2162078206, 2614888103, 3248222580] =
     ((2777674837, 2034849133, 400135381, 1530175119, 1502314083, 1083364078, 2971242539, 666371419),
      [2837292261, 2969383905, 2822203750, 4042744633, 1277803850, 3275369789, 3911149238,
       4230429782, 280306262, 567677374, 643648061, 386555551, 3481980404, 1303974569, 2882296051,
       1930488271])"
  by (simp add: sha256_round_defs)

lemma router_rounds_3:
  "foldl step256
     ((2777674837, 2034849133, 400135381, 1530175119, 1502314083, 1083364078, 2971242539, 666371419),
      [2837292261, 2969383905, 2822203750, 4042744633, 1277803850, 3275369789, 3911149238,
       4230429782, 280306262, 567677374, 643648061, 386555551, 3481980404, 1303974569, 2882296051,
       1930488271])
     [3835390401, 4022224774, 264347078, 604807628, 770255983, 1249150122, 1555081692, 1996064986] =
     ((801658292, 3880279493, 769182072, 4174823369, 3590758513, 3798764775, 2264181428, 3763202858),
      [280306262, 567677374, 643648061, 386555551, 3481980404, 1303974569, 2882296051, 1930488271,
       197605968, 1126972385, 4006886390, 1299082243, 491729124, 334856973, 1476609602, 1618253741])"
  by (simp add: sha256_round_defs)

lemma router_rounds_4:
  "foldl step256
     ((801658292, 3880279493, 769182072, 4174823369, 3590758513, 3798764775, 2264181428, 3763202858),
      [280306262, 567677374, 643648061, 386555551, 3481980404, 1303974569, 2882296051, 1930488271,
       197605968, 1126972385, 4006886390, 1299082243, 491729124, 334856973, 1476609602, 1618253741])
     [2554220882, 2821834349, 2952996808, 3210313671, 3336571891, 3584528711, 113926993, 338241895] =
     ((1910007071, 3990338194, 390583392, 3370305911, 4114171250, 817529136, 2811984393, 38033488),
      [197605968, 1126972385, 4006886390, 1299082243, 491729124, 334856973, 1476609602,
       1618253741, 469216360, 367896841, 1123304538, 3641565803, 2914854996, 3609077542,
       3896802545, 3594942699])"
  by (simp add: sha256_round_defs)

lemma router_rounds_5:
  "foldl step256
     ((1910007071, 3990338194, 390583392, 3370305911, 4114171250, 817529136, 2811984393, 38033488),
      [197605968, 1126972385, 4006886390, 1299082243, 491729124, 334856973, 1476609602,
       1618253741, 469216360, 367896841, 1123304538, 3641565803, 2914854996, 3609077542,
       3896802545, 3594942699])
     [666307205, 773529912, 1294757372, 1396182291, 1695183700, 1986661051, 2177026350, 2456956037] =
     ((2843050023, 1726964939, 1922493628, 867241249, 1719724851, 760596655, 3072061434, 1834534063),
      [469216360, 367896841, 1123304538, 3641565803, 2914854996, 3609077542, 3896802545,
       3594942699, 2544716622, 2021135724, 1761956565, 182173883, 1882312858, 4070787848,
       1941003614, 4249800442])"
  by (simp add: sha256_round_defs)

lemma router_rounds_6:
  "foldl step256
     ((2843050023, 1726964939, 1922493628, 867241249, 1719724851, 760596655, 3072061434, 1834534063),
      [469216360, 367896841, 1123304538, 3641565803, 2914854996, 3609077542, 3896802545,
       3594942699, 2544716622, 2021135724, 1761956565, 182173883, 1882312858, 4070787848,
       1941003614, 4249800442])
     [2730485921, 2820302411, 3259730800, 3345764771, 3516065817, 3600352804, 4094571909,
      275423344] =
     ((2583334153, 3666344605, 1633162717, 2753448790, 1666942917, 3085301141, 4228003124,
       3598813446),
      [2544716622, 2021135724, 1761956565, 182173883, 1882312858, 4070787848, 1941003614,
       4249800442, 2489059541, 3948830553, 2267989638, 615958157, 982981004, 3897695606,
       2833990215, 2497418616])"
  by (simp add: sha256_round_defs)

lemma router_rounds_7:
  "foldl step256
     ((2583334153, 3666344605, 1633162717, 2753448790, 1666942917, 3085301141, 4228003124,
       3598813446),
      [2544716622, 2021135724, 1761956565, 182173883, 1882312858, 4070787848, 1941003614,
       4249800442, 2489059541, 3948830553, 2267989638, 615958157, 982981004, 3897695606,
       2833990215, 2497418616])
     [430227734, 506948616, 659060556, 883997877, 958139571, 1322822218, 1537002063, 1747873779] =
     ((3013322050, 1471605473, 2788508369, 2935343006, 1114003521, 937328565, 1319098631, 600219122),
      [2489059541, 3948830553, 2267989638, 615958157, 982981004, 3897695606, 2833990215,
       2497418616, 519156472, 2871346371, 71358284, 2668038572, 2806354956, 3877208301,
       3676898326, 3358156573])"
  by (simp add: sha256_round_defs)

lemma router_rounds_8:
  "foldl step256
     ((3013322050, 1471605473, 2788508369, 2935343006, 1114003521, 937328565, 1319098631, 600219122),
      [2489059541, 3948830553, 2267989638, 615958157, 982981004, 3897695606, 2833990215,
       2497418616, 519156472, 2871346371, 71358284, 2668038572, 2806354956, 3877208301,
       3676898326, 3358156573])
     [1955562222, 2024104815, 2227730452, 2361852424, 2428436474, 2756734187, 3204031479,
      3329325298] =
     ((2730550351, 14102624, 610660146, 1290839801, 518446332, 586973971, 303214168, 1525753737),
      [519156472, 2871346371, 71358284, 2668038572, 2806354956, 3877208301, 3676898326,
       3358156573, 464246730, 994620035, 1724739832, 4099950369, 2947712220, 966939439,
       2329917605, 3017888569])"
  by (simp add: sha256_round_defs)

lemma router_compress:
  "compress init256
     [1802855013, 762542451, 1952804203, 1969382701, 1919907188, 1701982592, 0, 0, 0, 0, 0, 0, 0,
      0, 0, 184] =
     (214616758, 3158236901, 1624564388, 4064320563, 1878339451, 3187796895, 831948803, 3067212962)"
  unfolding compress_def K256_chunks foldl_append init256_def
  by (simp only: router_rounds_1 router_rounds_2 router_rounds_3 router_rounds_4 router_rounds_5 router_rounds_6 router_rounds_7 router_rounds_8) simp

lemma router_digest:
  "Sum256 (bytes ''kube-systemkube-router1'') =
     [12, 202, 202, 182, 188, 62, 222, 229, 96, 212, 226, 164, 242, 64, 156, 51, 111, 245, 47,
      123, 190, 1, 235, 159, 49, 150, 136, 3, 182, 209, 244, 162]"
  by (simp add: Sum256_def router_block router_compress word_bytes_def)

lemma router_chain_name:
  "podFirewallChainName ex_package ''kube-system'' ''kube-router'' ''1'' = ''KUBE-POD-FW-BTFMVNV4H3POKYGU''"
  by (simp add: podFirewallChainName_def router_digest quantum_def quantum_chars_def encodeStd_def ex_package_def)

lemma length_word_bytes [simp]: "length (word_bytes w) = 4"
  by (simp add: word_bytes_def)

lemma length_digest_bytes [simp]: "length (digest_bytes s) = 32"
proof -
  obtain a b c d e f g h where "s = (a, b, c, d, e, f, g, h)"
    by (metis surj_pair)
  then show ?thesis by simp
qed

lemma length_Sum256 [simp]: "length (Sum256 m) = 32"
  by (simp add: Sum256_def)

lemma length_quantum_chars [simp]: "length (quantum_chars q) = 8"
  by (simp add: quantum_chars_def)

lemma length_EncodeToString: "length (EncodeToString bs) = 8 * ((length bs + 4) div 5)"
proof (induction bs rule: EncodeToString.induct)
  case (1 b0 b1 b2 b3 b4 rest)
  have "(length rest + 9) div 5 = Suc ((length rest + 4) div 5)" by presburger
  with 1 show ?case by (simp add: add.commute)
qed simp_all

lemma length_encoded_digest: "length (EncodeToString (Sum256 m)) = 56"
  by (simp add: length_EncodeToString)

theorem podFirewallChainName_digest:
  "podFirewallChainName K namespace' podName version
     = spec_chainName (kubePodFirewallChainPrefix K) namespace' podName version
   \<and> 16 \<le> length (EncodeToString (Sum256 (bytes (namespace' @ podName @ version))))
   \<and> length (podFirewallChainName K namespace' podName version) = length (kubePodFirewallChainPrefix K) + 16"
  by (simp add: podFirewallChainName_def spec_chainName_def Let_def length_encoded_digest)

lemma sync_result_final [simp]:
  "syncPodFirewallChains K npc ord ps version h = Return r e h' \<Longrightarrow>
     final_state (syncPodFirewallChains K npc ord ps version h) = h'"
  by simp

theorem syncPodFirewallChains_shared_address_counterexample:
  "mkPod ''kube-system'' ''kube-proxy'' ''Running'' ''10.0.0.1'' ''10.0.0.1'' \<in> local_pods (ex_npc ex_cache_shared)
   \<and> returned_error (syncPodFirewallChains ex_package (ex_npc ex_cache_shared) [] [] ''1'' ex_host) = None
   \<and> returned_set (syncPodFirewallChains ex_package (ex_npc ex_cache_shared) [] [] ''1'' ex_host)
        = Some (active_set {''KUBE-POD-FW-BTFMVNV4H3POKYGU''})
   \<and> pod_chain ex_package ''1'' (mkPod ''kube-system'' ''kube-proxy'' ''Running'' ''10.0.0.1'' ''10.0.0.1'')
        = ''KUBE-POD-FW-B3G4EQRXLQMCJBK5''
   \<and> active_set {''KUBE-POD-FW-BTFMVNV4H3POKYGU''} ''KUBE-POD-FW-B3G4EQRXLQMCJBK5'' = None"
proof -
  have entries: "snd ` set (fst (getLocalPods (ex_npc ex_cache_shared) (nodeIP (ex_npc ex_cache_shared))))
      = {\<lparr>ip = ''10.0.0.1'', name = ''kube-router'', namespace = ''kube-system'', labels = Map.empty\<rparr>}"
    by (simp add: getLocalPods_def ex_npc_def ex_cache_shared_def mkPod_def)
  have names: "chain_names ex_package ''1''
      (snd ` set (fst (getLocalPods (ex_npc ex_cache_shared) (nodeIP (ex_npc ex_cache_shared)))))
      = {''KUBE-POD-FW-BTFMVNV4H3POKYGU''}"
    unfolding entries by (simp add: chain_names_def router_chain_name)
  obtain h' where run: "syncPodFirewallChains ex_package (ex_npc ex_cache_shared) [] [] ''1'' ex_host
      = Return (Some (active_set {''KUBE-POD-FW-BTFMVNV4H3POKYGU''})) None h'"
    using syncPodFirewallChains_succeeds [OF ex_host_ready, of "ex_npc ex_cache_shared" "[]" "[]" "''1''"]
    unfolding names by blast
  have "mkPod ''kube-system'' ''kube-proxy'' ''Running'' ''10.0.0.1'' ''10.0.0.1'' \<in> local_pods (ex_npc ex_cache_shared)"
    by (simp add: local_pods_def ex_npc_def ex_cache_shared_def mkPod_def qualifies_def)
  moreover have "pod_chain ex_package ''1'' (mkPod ''kube-system'' ''kube-proxy'' ''Running'' ''10.0.0.1'' ''10.0.0.1'')
        = ''KUBE-POD-FW-B3G4EQRXLQMCJBK5''"
    by (simp add: pod_chain_def mkPod_def proxy_chain_name)
  moreover have "active_set {''KUBE-POD-FW-BTFMVNV4H3POKYGU''} ''KUBE-POD-FW-B3G4EQRXLQMCJBK5'' = None"
    by (simp add: active_set_def)
  ultimately show ?thesis using run by simp
qed

lemma rules_at_run: "run h = (f, h1) \<Longrightarrow> tables h1 = tables h"
  by (cases "faults h") (auto simp: run_def)

lemma adds_refl [simp]: "adds R h h"
  by (auto simp: adds_def)

lemma adds_trans: "adds R h h1 \<Longrightarrow> adds R h1 h2 \<Longrightarrow> adds R h h2"
  unfolding adds_def by blast

lemma adds_mono: "adds R h h1 \<Longrightarrow> R \<subseteq> R' \<Longrightarrow> adds R' h h1"
  unfolding adds_def by blast

lemma adds_tables: "tables h1 = tables h \<Longrightarrow> adds R h h1"
  by (simp add: adds_def rules_at_def)

lemma adds_update:
  "tables h1 = (tables h)(k \<mapsto> rs) \<Longrightarrow> set rs \<subseteq> rules_at h k \<union> R \<Longrightarrow> adds R h h1"
  by (auto simp: adds_def rules_at_def)

lemma NewChain_tables:
  "NewChain t c h = (e, h1) \<Longrightarrow> tables h1 = tables h \<or> tables h1 = (tables h)((t, c) \<mapsto> [])"
  by (auto simp: NewChain_def split: prod.splits option.splits dest!: rules_at_run)

lemma Check_tables: "Check t c r h = (e, h1) \<Longrightarrow> tables h1 = tables h"
  by (auto simp: Check_def split: prod.splits option.splits if_splits dest!: rules_at_run)

lemma Exists_tables: "Exists t c r h = (e, h1) \<Longrightarrow> tables h1 = tables h"
  by (auto simp: Exists_def split: prod.splits option.splits if_splits dest!: Check_tables)

lemma Insert_tables:
  "Insert t c p r h = (e, h1) \<Longrightarrow>
     tables h1 = tables h
     \<or> (\<exists>rs. tables h (t, c) = Some rs \<and> tables h1 = (tables h)((t, c) \<mapsto> take (p - 1) rs @ r # drop (p - 1) rs))"
  by (auto simp: Insert_def split: prod.splits option.splits if_splits dest!: rules_at_run)

lemma Append_tables:
  "Append t c r h = (e, h1) \<Longrightarrow>
     tables h1 = tables h \<or> (\<exists>rs. tables h (t, c) = Some rs \<and> tables h1 = (tables h)((t, c) \<mapsto> rs @ [r]))"
  by (auto simp: Append_def split: prod.splits option.splits dest!: rules_at_run)

lemma NewChain_adds: "NewChain t c h = (e, h1) \<Longrightarrow> adds R h h1"
  by (auto simp: adds_def rules_at_def dest!: NewChain_tables split: if_splits option.splits)

lemma Exists_adds: "Exists t c r h = (e, h1) \<Longrightarrow> adds R h h1"
  by (auto simp: adds_def rules_at_def dest!: Exists_tables)

lemma Insert_adds: "Insert t c p r h = (e, h1) \<Longrightarrow> adds {r} h h1"
  by (auto simp: adds_def rules_at_def dest!: Insert_tables split: if_splits option.splits)
     (blast dest: in_set_takeD in_set_dropD)+

lemma Append_adds: "Append t c r h = (e, h1) \<Longrightarrow> adds {r} h h1"
  by (auto simp: adds_def rules_at_def dest!: Append_tables split: if_splits option.splits)

lemma AppendUnique_adds: "AppendUnique t c r h = (e, h1) \<Longrightarrow> adds {r} h h1"
  by (auto simp: AppendUnique_def split: prod.splits option.splits if_splits
        dest: Exists_adds Append_adds intro: adds_trans)

lemma exec_adds: "exec x h = (e, h1) \<Longrightarrow> adds (rule_set x) h h1"
  by (cases x)
     (auto split: prod.splits option.splits if_splits
        dest: NewChain_adds Exists_adds Insert_adds AppendUnique_adds intro: adds_trans)

lemma run_ops_adds: "run_ops xs h = (e, h1) \<Longrightarrow> adds (\<Union>x\<in>set xs. rule_set x) h h1"
proof (induction xs arbitrary: h)
  case Nil
  then show ?case by simp
next
  case (Cons x xs)
  obtain e1 h' where x: "exec x h = (e1, h')" by (cases "exec x h")
  then have a: "adds (\<Union>y\<in>set (x # xs). rule_set y) h h'"
    by (auto dest!: exec_adds intro: adds_mono)
  show ?case
  proof (cases e1)
    case None
    with x Cons.prems have "run_ops xs h' = (e, h1)" by (simp del: exec.simps)
    then have "adds (\<Union>y\<in>set xs. rule_set y) h' h1" by (rule Cons.IH)
    then have "adds (\<Union>y\<in>set (x # xs). rule_set y) h' h1" by (rule adds_mono) auto
    with a show ?thesis by (rule adds_trans)
  next
    case (Some err)
    with x Cons.prems have "h1 = h'" by (simp del: exec.simps)
    with a show ?thesis by simp
  qed
qed

lemma installed_adds:
  assumes "adds R h h'"
  shows "installed h h' \<subseteq> R"
proof
  fix rule
  assume "rule \<in> installed h h'"
  then obtain chain where c: "has_rule h' chain rule" "\<not> has_rule h chain rule"
    by (auto simp: installed_def)
  moreover have "rules_at g (''filter'', chain) = set (rules_of g chain)" for g
    by (simp add: rules_at_def rules_of_def split: option.splits)
  ultimately have "rule \<in> rules_at h' (''filter'', chain)" "rule \<notin> rules_at h (''filter'', chain)"
    by (simp_all add: has_rule_def)
  with assms show "rule \<in> R" unfolding adds_def by blast
qed

lemma pod_ops_commented:
  "x \<in> set (pod_ops K ps version pod) \<Longrightarrow> \<forall>rule\<in>rule_set x. rule = markReset \<or> has_comment rule"
  by (auto simp: pod_ops_def Let_def ingress_ops_def egress_ops_def inbound_ops_def outbound_ops_def
        drop_ops_def policyJump_def defaultIngressJump_def defaultEgressJump_def localNodeAllow_def
        statefulAllow_def inboundJump_def inboundBridgedJump_def outboundJump_def outboundBridgedJump_def
        logRule_def rejectRule_def markAccept_def split: if_splits)

theorem installed_rules_commented:
  assumes "syncPodFirewallChains K npc ord ps version h = Return r e h'"
  shows "\<forall>rule\<in>installed h h'. rule = markReset \<or> has_comment rule"
proof -
  from sync_Return_cases [OF assms]
  have "run_ops (all_ops K ps version (local_pod_list npc ord)) h = (e, h')" by simp
  then have "adds (\<Union>x\<in>set (all_ops K ps version (local_pod_list npc ord)). rule_set x) h h'"
    by (rule run_ops_adds)
  then have "installed h h' \<subseteq> (\<Union>x\<in>set (all_ops K ps version (local_pod_list npc ord)). rule_set x)"
    by (rule installed_adds)
  moreover have "\<forall>rule\<in>rule_set x. rule = markReset \<or> has_comment rule"
    if "x \<in> set (all_ops K ps version (local_pod_list npc ord))" for x
  proof -
    from that obtain pod where "x \<in> set (pod_ops K ps version pod)" by (auto simp: all_ops_def)
    then show ?thesis by (rule pod_ops_commented)
  qed
  ultimately show ?thesis by blast
qed

lemma ex_cache_entries:
  "snd ` set (fst (getLocalPods (ex_npc ex_cache) (nodeIP (ex_npc ex_cache)))) = {ex_pod}"
  by (simp add: getLocalPods_def ex_npc_def ex_cache_def mkPod_def ex_pod_def)

lemma ex_host_empty: "rules_of ex_host c = []"
  by (simp add: rules_of_def ex_host_def)

lemma ex_run_installs:
  assumes "AppendUniqueOp (podFirewallChainName ex_package ''default'' ''web'' ''1'') rule
             \<in> set (pod_ops ex_package [] ''1'' ex_pod)"
  shows "returned_error (syncPodFirewallChains ex_package (ex_npc ex_cache) [] [] ''1'' ex_host) = None
         \<and> rule \<in> installed ex_host (final_state (syncPodFirewallChains ex_package (ex_npc ex_cache) [] [] ''1'' ex_host))"
proof -
  let ?c = "podFirewallChainName ex_package ''default'' ''web'' ''1''"
  obtain r h' where run: "syncPodFirewallChains ex_package (ex_npc ex_cache) [] [] ''1'' ex_host = Return r None h'"
    using syncPodFirewallChains_succeeds [OF ex_host_ready] by blast
  from sync_Return_cases [OF run]
  have ops: "run_ops (all_ops ex_package [] ''1'' (local_pod_list (ex_npc ex_cache) [])) ex_host = (None, h')"
    by simp
  have "ex_pod \<in> set (local_pod_list (ex_npc ex_cache) [])"
    by (simp add: local_pod_list_set ex_cache_entries)
  with all_ops_success_sat [OF ex_host_ready(2) ops] assms
  have "sat h' (AppendUniqueOp ?c rule)" by blast
  then have "has_rule h' ?c rule" by simp
  moreover have "\<not> has_rule ex_host ?c rule" by (simp add: has_rule_def ex_host_empty)
  ultimately have "rule \<in> installed ex_host h'" by (auto simp: installed_def)
  with run show ?thesis by simp
qed

theorem markReset_uncommented_counterexample:
  "returned_error (syncPodFirewallChains ex_package (ex_npc ex_cache) [] [] ''1'' ex_host) = None
   \<and> markReset \<in> installed ex_host (final_state (syncPodFirewallChains ex_package (ex_npc ex_cache) [] [] ''1'' ex_host))
   \<and> \<not> has_comment markReset"
proof -
  have "AppendUniqueOp (podFirewallChainName ex_package ''default'' ''web'' ''1'') markReset
          \<in> set (pod_ops ex_package [] ''1'' ex_pod)"
    by (simp add: pod_ops_def Let_def ex_pod_def)
  from ex_run_installs [OF this] show ?thesis by (simp add: markReset_def)
qed

theorem installed_rules_commented_witness:
  "markAccept \<in> installed ex_host (final_state (syncPodFirewallChains ex_package (ex_npc ex_cache) [] [] ''1'' ex_host))
   \<and> has_comment markAccept"
proof -
  let ?R = "syncPodFirewallChains ex_package (ex_npc ex_cache) [] [] ''1'' ex_host"
  have "AppendUniqueOp (podFirewallChainName ex_package ''default'' ''web'' ''1'') markAccept
          \<in> set (pod_ops ex_package [] ''1'' ex_pod)"
    by (simp add: pod_ops_def Let_def ex_pod_def)
  from ex_run_installs [OF this]
  have e: "returned_error ?R = None" and i: "markAccept \<in> installed ex_host (final_state ?R)" by simp_all
  obtain r h' where run: "?R = Return r None h'"
    using syncPodFirewallChains_succeeds [OF ex_host_ready] by blast
  from installed_rules_commented [OF run] i have "markAccept = markReset \<or> has_comment markAccept"
    by (simp add: run)
  moreover have "markAccept \<noteq> markReset" by (simp add: markAccept_def markReset_def)
  ultimately show ?thesis using i by simp
qed

lemma fstop_same: "faults h' = faults h \<Longrightarrow> fstop h b h'"
  unfolding fstop_def by (rule exI [of _ "[]"]) simp

lemma fstop_one: "faults h = f # faults h' \<Longrightarrow> (\<And>n. f = Some n \<Longrightarrow> n \<noteq> 1 \<Longrightarrow> b) \<Longrightarrow> fstop h b h'"
  unfolding fstop_def by (rule exI [of _ "[f]"]) auto

lemma fstop_weaken: "fstop h b h' \<Longrightarrow> (b \<Longrightarrow> b') \<Longrightarrow> fstop h b' h'"
  unfolding fstop_def by blast

lemma fstop_trans:
  assumes "fstop h False h1" "fstop h1 b h2"
  shows "fstop h b h2"
proof -
  from assms(1) obtain u1 where u1: "faults h = u1 @ faults h1"
    "\<forall>n. Some n \<in> set (butlast u1) \<longrightarrow> n = 1" "\<forall>n. u1 \<noteq> [] \<and> last u1 = Some n \<longrightarrow> n = 1"
    unfolding fstop_def by auto
  from assms(2) obtain u2 where u2: "faults h1 = u2 @ faults h2"
    "\<forall>n. Some n \<in> set (butlast u2) \<longrightarrow> n = 1" "\<forall>n. u2 \<noteq> [] \<and> last u2 = Some n \<and> n \<noteq> 1 \<longrightarrow> b"
    unfolding fstop_def by auto
  have all1: "\<forall>n. Some n \<in> set u1 \<longrightarrow> n = 1"
  proof (cases "u1 = []")
    case True
    then show ?thesis by simp
  next
    case False
    then have "u1 = butlast u1 @ [last u1]" by simp
    then have "set u1 = set (butlast u1) \<union> {last u1}"
      by (metis Un_insert_right list.set(1) list.simps(15) set_append sup_bot.right_neutral)
    with u1(2,3) False show ?thesis by auto
  qed
  show ?thesis
    unfolding fstop_def
  proof (intro exI conjI allI impI)
    show "faults h = (u1 @ u2) @ faults h2" using u1(1) u2(1) by simp
    show "n = 1" if "Some n \<in> set (butlast (u1 @ u2))" for n
      using that all1 u2(2) by (cases "u2 = []") (auto simp: butlast_append dest: in_set_butlastD)
    show b if "u1 @ u2 \<noteq> [] \<and> last (u1 @ u2) = Some n \<and> n \<noteq> 1" for n
    proof (cases "u2 = []")
      case True
      with that have "Some n \<in> set u1" by (metis append_Nil2 last_in_set)
      with all1 that show ?thesis by blast
    next
      case False
      with that u2(3) show ?thesis by simp
    qed
  qed
qed

lemma run_faults:
  "run h = (f, h1) \<Longrightarrow> (faults h1 = faults h \<and> f = None) \<or> faults h = f # faults h1"
  by (cases "faults h") (auto simp: run_def)

lemma run_fstop: "run h = (f, h1) \<Longrightarrow> fstop h (\<exists>n. f = Some n \<and> n \<noteq> 1) h1"
  by (auto dest!: run_faults intro: fstop_same fstop_one)

lemma fstop_faults: "fstop h b h1 \<Longrightarrow> faults h2 = faults h1 \<Longrightarrow> fstop h b h2"
  by (simp add: fstop_def)

lemma fstop_tables [simp]: "fstop h b (h1\<lparr>tables := x\<rparr>) = fstop h b h1"
  by (simp add: fstop_def)

lemma NewChain_fstop: "NewChain t c h = (e, h1) \<Longrightarrow> fstop h (fatal e) h1"
  by (auto simp: NewChain_def fatal_def split: prod.splits option.splits
        dest!: run_fstop elim: fstop_faults fstop_weaken)

lemma Check_fstop: "Check t c r h = (e, h1) \<Longrightarrow> fstop h (fatal e) h1"
  by (auto simp: Check_def fatal_def split: prod.splits option.splits if_splits
        dest!: run_fstop elim: fstop_faults fstop_weaken)

lemma Exists_fstop: "Exists t c r h = ((ex, e), h1) \<Longrightarrow> fstop h (e \<noteq> None) h1"
  by (auto simp: Exists_def fatal_def split: prod.splits option.splits if_splits
        dest!: Check_fstop elim: fstop_weaken)

lemma Insert_fstop: "Insert t c p r h = (e, h1) \<Longrightarrow> fstop h (fatal e) h1"
  by (auto simp: Insert_def fatal_def split: prod.splits option.splits if_splits
        dest!: run_fstop elim: fstop_faults fstop_weaken)

lemma Append_fstop: "Append t c r h = (e, h1) \<Longrightarrow> fstop h (fatal e) h1"
  by (auto simp: Append_def fatal_def split: prod.splits option.splits
        dest!: run_fstop elim: fstop_faults fstop_weaken)

lemma AppendUnique_fstop: "AppendUnique t c r h = (e, h1) \<Longrightarrow> fstop h (e \<noteq> None) h1"
proof -
  assume a: "AppendUnique t c r h = (e, h1)"
  obtain ex err h' where x: "Exists t c r h = ((ex, err), h')" by (metis surj_pair)
  then have fx: "fstop h (err \<noteq> None) h'" by (rule Exists_fstop)
  show ?thesis
  proof (cases err)
    case (Some e')
    with a x have "e = Some e'" "h1 = h'" by (simp_all add: AppendUnique_def)
    with fx Some show ?thesis by simp
  next
    case None
    with fx have f0: "fstop h False h'" by simp
    show ?thesis
    proof (cases ex)
      case True
      with a x None have "e = None" "h1 = h'" by (simp_all add: AppendUnique_def)
      with f0 show ?thesis by simp
    next
      case False
      with a x None have "Append t c r h' = (e, h1)" by (simp add: AppendUnique_def)
      then have "fstop h' (fatal e) h1" by (rule Append_fstop)
      then have "fstop h' (e \<noteq> None) h1" by (rule fstop_weaken) (auto simp: fatal_def split: option.splits)
      with f0 show ?thesis by (rule fstop_trans)
    qed
  qed
qed

lemma fatal_not_exit_status_1: "fatal err \<longleftrightarrow> not_exit_status_1 err \<noteq> None"
  by (simp add: fatal_def not_exit_status_1_def split: option.splits)

lemma exec_fstop:
  assumes "exec x h = (e, h1)"
  shows "fstop h (e \<noteq> None) h1"
proof (cases x)
  case (NewChainOp c)
  obtain err h' where n: "NewChain ''filter'' c h = (err, h')" by (metis surj_pair)
  then have "fstop h (fatal err) h'" by (rule NewChain_fstop)
  moreover from assms NewChainOp n have "h1 = h'" "(e \<noteq> None) = fatal err"
    by (auto simp: fatal_not_exit_status_1 split: option.splits)
  ultimately show ?thesis by simp
next
  case (InsertOp tol c r)
  obtain ex err h' where x: "Exists ''filter'' c r h = ((ex, err), h')" by (metis surj_pair)
  then have fx: "fstop h (err \<noteq> None) h'" by (rule Exists_fstop)
  show ?thesis
  proof (cases err)
    case (Some e')
    with assms InsertOp x have "e \<noteq> None" "h1 = h'" by auto
    with fx Some show ?thesis by simp
  next
    case None
    with fx have f0: "fstop h False h'" by simp
    show ?thesis
    proof (cases ex)
      case True
      with assms InsertOp x None have "e = None" "h1 = h'" by simp_all
      with f0 show ?thesis by simp
    next
      case False
      obtain ierr h2 where i: "Insert ''filter'' c 1 r h' = (ierr, h2)" by (metis surj_pair)
      then have "fstop h' (fatal ierr) h2" by (rule Insert_fstop)
      moreover from assms InsertOp x None False i have "h1 = h2" "fatal ierr \<longrightarrow> e \<noteq> None"
        by (auto simp: fatal_def not_exit_status_1_def split: option.splits if_splits)
      ultimately have "fstop h' (e \<noteq> None) h1" by (auto elim: fstop_weaken)
      with f0 show ?thesis by (rule fstop_trans)
    qed
  qed
next
  case (AppendUniqueOp c r)
  obtain err h' where a: "AppendUnique ''filter'' c r h = (err, h')" by (metis surj_pair)
  then have "fstop h (err \<noteq> None) h'" by (rule AppendUnique_fstop)
  moreover from assms AppendUniqueOp a have "h1 = h'" "(e \<noteq> None) = (err \<noteq> None)"
    by (auto split: option.splits)
  ultimately show ?thesis by simp
next
  case (CheckedAppendOp c r)
  obtain ex err h' where x: "Exists ''filter'' c r h = ((ex, err), h')" by (metis surj_pair)
  then have fx: "fstop h (err \<noteq> None) h'" by (rule Exists_fstop)
  show ?thesis
  proof (cases err)
    case (Some e')
    with assms CheckedAppendOp x have "e \<noteq> None" "h1 = h'" by auto
    with fx Some show ?thesis by simp
  next
    case None
    with fx have f0: "fstop h False h'" by simp
    show ?thesis
    proof (cases ex)
      case True
      with assms CheckedAppendOp x None have "e = None" "h1 = h'" by simp_all
      with f0 show ?thesis by simp
    next
      case False
      obtain aerr h2 where a: "AppendUnique ''filter'' c r h' = (aerr, h2)" by (metis surj_pair)
      then have "fstop h' (aerr \<noteq> None) h2" by (rule AppendUnique_fstop)
      moreover from assms CheckedAppendOp x None False a have "h1 = h2" "(e \<noteq> None) = (aerr \<noteq> None)"
        by (auto split: option.splits)
      ultimately have "fstop h' (e \<noteq> None) h1" by simp
      with f0 show ?thesis by (rule fstop_trans)
    qed
  qed
qed

lemma run_ops_fstop: "run_ops xs h = (e, h1) \<Longrightarrow> fstop h (e \<noteq> None) h1"
proof (induction xs arbitrary: h)
  case Nil
  then show ?case by (simp add: fstop_same)
next
  case (Cons x xs)
  obtain e1 h' where x: "exec x h = (e1, h')" by (cases "exec x h")
  then have fx: "fstop h (e1 \<noteq> None) h'" by (rule exec_fstop)
  show ?case
  proof (cases e1)
    case None
    with x Cons.prems have "run_ops xs h' = (e, h1)" by (simp del: exec.simps)
    then have "fstop h' (e \<noteq> None) h1" by (rule Cons.IH)
    moreover from fx None have "fstop h False h'" by simp
    ultimately show ?thesis by (rule fstop_trans [rotated])
  next
    case (Some err)
    with x Cons.prems have "e = Some err" "h1 = h'" by (simp_all del: exec.simps)
    with fx Some show ?thesis by simp
  qed
qed

lemma fstop_reached:
  assumes "fstop h b h'" "faults h = pre @ Some n # rest" "n \<noteq> 1" "length (faults h') \<le> length rest"
  shows "b \<and> faults h' = rest"
proof -
  from assms(1) obtain used where u: "faults h = used @ faults h'"
    "\<forall>n. Some n \<in> set (butlast used) \<longrightarrow> n = 1" "\<forall>n. used \<noteq> [] \<and> last used = Some n \<and> n \<noteq> 1 \<longrightarrow> b"
    unfolding fstop_def by auto
  from u(1) assms(2) have eq: "used @ faults h' = (pre @ [Some n]) @ rest" by simp
  have "length used + length (faults h') = length pre + 1 + length rest"
    using arg_cong [OF eq, of length] by simp
  with assms(4) have "length (pre @ [Some n]) \<le> length used" by simp
  with eq obtain u' where u': "used = (pre @ [Some n]) @ u'" "rest = u' @ faults h'"
    by (metis append_eq_append_conv_if append_take_drop_id)
  have "u' = []"
  proof (rule ccontr)
    assume "u' \<noteq> []"
    then have "butlast used = (pre @ [Some n]) @ butlast u'" using u'(1) by (simp add: butlast_append)
    then have "Some n \<in> set (butlast used)" by simp
    with u(2) assms(3) show False by blast
  qed
  with u' have "used = pre @ [Some n]" "faults h' = rest" by simp_all
  with u(3) assms(3) show ?thesis by simp
qed

theorem syncPodFirewallChains_aborts:
  assumes "syncPodFirewallChains K npc ord ps version h = Return r e h'"
  shows "(e \<noteq> None \<longrightarrow>
            r = None \<and> (\<exists>m. e = Some (Errorf (''Failed to run iptables command: '' @ m))))
       \<and> (\<forall>pre n rest. faults h = pre @ Some n # rest \<and> n \<noteq> 1 \<and> length (faults h') \<le> length rest \<longrightarrow>
            e \<noteq> None \<and> r = None \<and> faults h' = rest)"
proof -
  have err: "r = None \<and> (\<exists>m. e = Some (Errorf (''Failed to run iptables command: '' @ m)))" if "e \<noteq> None"
  proof -
    from that obtain x where "e = Some x" by auto
    with assms syncPodFirewallChains_error [of K npc ord ps version h r x h'] show ?thesis by simp
  qed
  from sync_Return_cases [OF assms]
  have "run_ops (all_ops K ps version (local_pod_list npc ord)) h = (e, h')" by simp
  then have f: "fstop h (e \<noteq> None) h'" by (rule run_ops_fstop)
  have "e \<noteq> None \<and> r = None \<and> faults h' = rest"
    if "faults h = pre @ Some n # rest \<and> n \<noteq> 1 \<and> length (faults h') \<le> length rest" for pre n rest
    using fstop_reached [OF f, of pre n rest] that err by blast
  with err show ?thesis by blast
qed

lemma ex_shared_list:
  "local_pod_list (ex_npc ex_cache_shared) [] =
     [\<lparr>ip = ''10.0.0.1'', name = ''kube-router'', namespace = ''kube-system'', labels = Map.empty\<rparr>]"
  by (simp add: local_pod_list_def rangeMap_def getLocalPods_def ex_npc_def ex_cache_shared_def mkPod_def)

lemma ex_faulty_reaches_fault:
  "faults (snd (run_ops (all_ops ex_package [] ''1'' (local_pod_list (ex_npc ex_cache_shared) [])) ex_faulty)) = [None]"
proof -
  let ?c = "''KUBE-POD-FW-BTFMVNV4H3POKYGU''"
  let ?h1 = "ex_host\<lparr>faults := [Some 4, None], tables := (tables ex_host)((''filter'', ?c) \<mapsto> [])\<rparr>"
  have n: "exec (NewChainOp ?c) ex_faulty = (None, ?h1)"
    by (simp add: ex_faulty_def ex_host_def NewChain_def run_def not_exit_status_1_def)
  have i: "exec (InsertOp True ?c rule) ?h1
      = (Some (failed_to_run (IptablesError 4 ''iptables: command failed'')), ?h1\<lparr>faults := [None]\<rparr>)" for rule
    by (simp add: Exists_def Check_def run_def)
  define rest where "rest = tl (tl (pod_ops ex_package [] ''1''
          \<lparr>ip = ''10.0.0.1'', name = ''kube-router'', namespace = ''kube-system'', labels = Map.empty\<rparr>))"
  have po: "pod_ops ex_package [] ''1''
          \<lparr>ip = ''10.0.0.1'', name = ''kube-router'', namespace = ''kube-system'', labels = Map.empty\<rparr>
      = NewChainOp ?c # InsertOp True ?c (defaultIngressJump ex_package
          \<lparr>ip = ''10.0.0.1'', name = ''kube-router'', namespace = ''kube-system'', labels = Map.empty\<rparr>)
        # rest"
    unfolding rest_def
    by (simp add: pod_ops_def Let_def router_chain_name ingress_ops_def targeting_def)
  show ?thesis
    by (simp add: all_ops_def ex_shared_list po n i del: exec.simps)
qed

theorem syncPodFirewallChains_aborts_witness:
  "returned_set (syncPodFirewallChains ex_package (ex_npc ex_cache_shared) [] [] ''1'' ex_faulty) = None
   \<and> returned_error (syncPodFirewallChains ex_package (ex_npc ex_cache_shared) [] [] ''1'' ex_faulty) \<noteq> None
   \<and> faults (final_state (syncPodFirewallChains ex_package (ex_npc ex_cache_shared) [] [] ''1'' ex_faulty)) = [None]"
proof -
  let ?R = "syncPodFirewallChains ex_package (ex_npc ex_cache_shared) [] [] ''1'' ex_faulty"
  have a: "available ex_faulty" and f: "faults ex_faulty = [None] @ Some 4 # [None]"
    by (simp_all add: ex_faulty_def ex_host_def)
  obtain r e h' where run: "?R = Return r e h'"
    using a by (cases ?R) (simp_all add: syncPodFirewallChains_ops split: prod.splits option.splits)
  from sync_Return_cases [OF run] ex_faulty_reaches_fault have h': "faults h' = [None]" by simp
  from syncPodFirewallChains_aborts [OF run]
  have "faults ex_faulty = [None] @ Some 4 # [None] \<and> (4::int) \<noteq> 1
          \<and> length (faults h') \<le> length [None::int option]
        \<longrightarrow> e \<noteq> None \<and> r = None \<and> faults h' = [None]"
    by blast
  with f h' have "e \<noteq> None \<and> r = None \<and> faults h' = [None]" by simp
  with run show ?thesis by simp
qed

end
